(* ===== verification/Prelude.thy ===== *)
theory Prelude
  imports Complex_Main "HOL-Library.Word" "HOL-Library.AList"
begin

text \<open>
  What the whole development shares: the C integer types of an LP64 platform, the casts the
  code makes between them, the theorem collections, and list facts about a stack that
  grows at its end.
\<close>

section \<open>C integers and their conversions\<close>

text \<open>
  \<open>int\<close>, \<open>pid_t\<close> and file descriptors are 32-bit words read as two's complement;
  \<open>lua_Integer\<close>, \<open>long\<close> and \<open>ssize_t\<close> are 64-bit words read as two's complement;
  \<open>uint64_t\<close> and \<open>rlim_t\<close> are 64-bit words read as unsigned.
\<close>

type_synonym c_int = "32 word"
type_synonym i64 = "64 word"
type_synonym u64 = "64 word"

text \<open>The narrowing cast \<open>(int)v\<close> of a \<open>lua_Integer\<close>, and the widening back.\<close>

abbreviation (input) narrow :: "i64 \<Rightarrow> c_int" where
  "narrow v \<equiv> ucast v"

abbreviation (input) widen :: "c_int \<Rightarrow> i64" where
  "widen v \<equiv> scast v"

abbreviation (input) minus1 :: c_int where
  "minus1 \<equiv> - 1"

text \<open>Collections: the definitions of the Lua C API, and rules that step a C body.\<close>

named_theorems lua_api
named_theorems c_step
named_theorems c_body

lemma narrow_widen [simp]: "(ucast (scast (v :: c_int) :: i64) :: c_int) = v"
proof (rule bit_word_eqI)
  fix n :: nat
  assume "n < LENGTH(32)"
  then consider "n < 31" | "n = 31" by fastforce
  then show "bit (ucast (scast v :: i64) :: c_int) n = bit v n"
    by cases (simp_all add: bit_ucast_iff bit_signed_iff min_def)
qed

lemma sint_widen: "sint (scast (v :: c_int) :: i64) = sint v"
  by (rule sint_up_scast) (simp add: is_up)

lemma widen_eq_iff [simp]:
  "(scast (a :: c_int) :: i64) = scast b \<longleftrightarrow> a = b"
  by (metis narrow_widen)

text \<open>A 64-bit value in the range of \<open>int\<close> survives the narrowing.\<close>

lemma sint_narrow_small:
  assumes "0 \<le> k" and "k < 2 ^ 31"
  shows "sint (narrow (of_int k)) = k"
  using assms by (simp add: unsigned_of_int signed_of_int take_bit_int_eq_self signed_take_bit_int_eq_self)

lemma sint_narrow_pos:
  assumes "0 \<le> sint (x :: i64)" and "sint x < 2 ^ 31"
  shows "sint (narrow x) = sint x"
  using sint_narrow_small [OF assms] by simp

lemma sint_narrow_diff:
  assumes "1 < sint (x :: i64)" and "sint x \<le> k" and "k < 2 ^ 31"
  shows "sint (narrow (of_int k - x + 1)) = k - sint x + 1"
proof -
  have "of_int k - x + 1 = (of_int (k - sint x + 1) :: i64)" by simp
  moreover have "sint (narrow (of_int (k - sint x + 1))) = k - sint x + 1"
    by (rule sint_narrow_small) (use assms in auto)
  ultimately show ?thesis by simp
qed


lemma sint_uminus: "0 \<le> sint (w :: c_int) \<Longrightarrow> sint (- w) = - sint w"
proof -
  assume "0 \<le> sint w"
  moreover have "sint w < 2 ^ 31" using sint_less [of w] by simp
  moreover have "- w = of_int (- sint w)" by simp
  ultimately show ?thesis
    by (simp only: signed_of_int) (simp add: signed_take_bit_int_eq_self)
qed

lemma widen_narrow_count:
  assumes "k < 2 ^ 30"
  shows "widen (narrow (of_nat k) + 1) = of_nat (Suc k)"
proof -
  have "narrow (of_nat k) + 1 = (of_nat (Suc k) :: c_int)"
    using assms by (simp add: unsigned_of_nat take_bit_nat_eq_self)
  moreover have "widen (of_nat (Suc k)) = of_nat (Suc k)"
    using assms by (simp add: signed_of_nat signed_take_bit_int_eq_self del: of_nat_Suc)
  ultimately show ?thesis by (simp add: ac_simps)
qed

text \<open>The \<open>errno\<close> values the code compares with or sets, and others of the reference kernels (Linux).\<close>

definition ESRCH :: c_int where "ESRCH = 3"
definition EINTR :: c_int where "EINTR = 4"
definition EBADF :: c_int where "EBADF = 9"
definition ECHILD :: c_int where "ECHILD = 10"
definition EAGAIN :: c_int where "EAGAIN = 11"
definition EWOULDBLOCK :: c_int where "EWOULDBLOCK = 11"
definition EINVAL :: c_int where "EINVAL = 22"

section \<open>Lists that grow at the end\<close>

lemma drop_length_append [simp]: "drop (length xs) (xs @ ys) = ys"
  by simp

lemma butlast_append_Cons [simp]: "butlast (xs @ y # ys) = xs @ butlast (y # ys)"
  by (simp add: butlast_append)

lemma last_n_append: "n = length ys \<Longrightarrow> drop (length (xs @ ys) - n) (xs @ ys) = ys"
  by simp

lemma nth_append_singleton [simp]: "(xs @ [x]) ! length xs = x"
  by (simp add: nth_append)

lemma filter_nth_first:
  assumes "x # ys = filter P xs"
  shows "find P xs = Some x"
  using assms by (induction xs) (auto split: if_splits)

lemma find_Some_filter:
  "find P xs = Some x \<longleftrightarrow> (\<exists>ys. filter P xs = x # ys)"
  by (induction xs) auto

lemma find_None_filter: "find P xs = None \<longleftrightarrow> filter P xs = []"
  by (induction xs) auto

section \<open>C strings\<close>

text \<open>
  A Lua string may hold any bytes; a C function that is given a pointer to it reads up to
  the first zero byte.
\<close>

definition c_str :: "string \<Rightarrow> string" where
  "c_str s = takeWhile (\<lambda>c. c \<noteq> CHR 0x00) s"

text \<open>\<open>tolower\<close> of the C locale, and \<open>strcasecmp(a, b) == 0\<close>.\<close>

definition tolower :: "char \<Rightarrow> char" where
  "tolower c = (if 65 \<le> (of_char c :: nat) \<and> (of_char c :: nat) \<le> 90
                then char_of ((of_char c :: nat) + 32) else c)"

definition strcasecmp_eq :: "string \<Rightarrow> string \<Rightarrow> bool" where
  "strcasecmp_eq a b \<longleftrightarrow> map tolower (c_str a) = map tolower (c_str b)"

definition no_nul :: "string \<Rightarrow> bool" where
  "no_nul s \<longleftrightarrow> CHR 0x00 \<notin> set s"

lemma c_str_no_nul [simp]: "no_nul s \<Longrightarrow> c_str s = s"
  by (auto simp: c_str_def no_nul_def takeWhile_eq_all_conv)

lemma strcasecmp_refl [simp]: "strcasecmp_eq s s"
  by (simp add: strcasecmp_eq_def)

section \<open>Formatted output\<close>

text \<open>\<open>%o\<close> and \<open>%lld\<close>: the digits of a number in a base, most significant first.\<close>

fun digits :: "nat \<Rightarrow> nat \<Rightarrow> nat \<Rightarrow> nat list" where
  "digits 0 b n = [n mod b]"
| "digits (Suc fuel) b n = (if n < b then [n] else digits fuel b (n div b) @ [n mod b])"

definition digit_char :: "nat \<Rightarrow> char" where
  "digit_char d = char_of (48 + d)"

definition show_base :: "nat \<Rightarrow> nat \<Rightarrow> string" where
  "show_base b n = map digit_char (digits 64 b n)"

definition show_int :: "int \<Rightarrow> string" where
  "show_int i = (if i < 0 then ''-'' @ show_base 10 (nat (- i)) else show_base 10 (nat i))"

text \<open>\<open>snprintf(buf, n, ...)\<close> keeps the first \<open>n - 1\<close> characters.\<close>

definition snprintf :: "nat \<Rightarrow> string \<Rightarrow> string" where
  "snprintf n s = take (n - 1) s"

text \<open>The value of a digit sequence, and that \<open>digits\<close> writes it.\<close>

definition value_of :: "nat \<Rightarrow> nat list \<Rightarrow> nat" where
  "value_of b ds = foldl (\<lambda>n d. n * b + d) 0 ds"

lemma value_of_snoc [simp]: "value_of b (ds @ [d]) = value_of b ds * b + d"
  by (simp add: value_of_def)

lemma value_of_digits:
  assumes "2 \<le> b" "n < b ^ Suc fuel"
  shows "value_of b (digits fuel b n) = n"
  using assms(2)
proof (induction fuel arbitrary: n)
  case 0
  then show ?case by (simp add: value_of_def)
next
  case (Suc fuel)
  have "n div b < b ^ Suc fuel" using Suc.prems by (simp add: less_mult_imp_div_less mult.commute)
  with Suc.IH show ?case by (simp add: value_of_def [of b "[n]"])
qed

lemma digits_less: "2 \<le> b \<Longrightarrow> d \<in> set (digits fuel b n) \<Longrightarrow> d < b"
  by (induction fuel arbitrary: n) (auto split: if_splits)

lemma length_digits:
  assumes "2 \<le> b" "n < b ^ k" "0 < k"
  shows "length (digits fuel b n) \<le> k"
  using assms(2,3)
proof (induction fuel arbitrary: n k)
  case 0
  then show ?case by simp
next
  case (Suc fuel)
  show ?case
  proof (cases "n < b")
    case True
    with Suc.prems show ?thesis by simp
  next
    case False
    then have k: "1 < k" using Suc.prems by (cases "k = 1") auto
    then have "n div b < b ^ (k - 1)"
      using Suc.prems(1) by (cases k) (simp_all add: less_mult_imp_div_less mult.commute)
    from Suc.IH [OF this] k False show ?thesis by simp
  qed
qed

end
