(* ===== verification/Lua_Api.thy ===== *)
theory Lua_Api
  imports Prelude
begin

text \<open>
  The part of the Lua C API (reference manual of Lua 5.4, section 4) that the modules use,
  as operations on an explicit Lua state: the stack of the running C function, its
  upvalues, the stores of tables and of full userdata, the registry, the C library's
  \<open>errno\<close>, and the operating system, whose type is a parameter. A C function
  \<open>int f(lua_State *L)\<close> is a computation that returns the number of results on top of the
  stack, raises a Lua error, ends the process, or runs into undefined behaviour.
\<close>

section \<open>Values\<close>

text \<open>
  A finite \<open>lua_Number\<close> is the rational number the double stands for. \<open>VErrno\<close> and
  \<open>VErr\<close> are the error objects that the external functions \<open>lua_errno_new\<close>,
  \<open>lua_errno_new_with_message\<close> and \<open>lua_error_new\<close> make: nothing is known of them but the
  arguments they were made from. Tables and userdata are addresses in the stores below.
\<close>

datatype lua_number = Fin rat | PInf | NInf | NaN

datatype lval =
    VNil
  | VBool bool
  | VInt i64
  | VNum lua_number
  | VStr string
  | VTab nat
  | VUd nat
  | VCFun string "lval list"
  | VLFun nat
  | VErrno c_int string "string option"
  | VErr lval

datatype ltype = TNone | TNil | TBoolean | TNumber | TString | TTable | TFunction | TUserdata

fun type_of :: "lval \<Rightarrow> ltype" where
  "type_of VNil = TNil"
| "type_of (VBool _) = TBoolean"
| "type_of (VInt _) = TNumber"
| "type_of (VNum _) = TNumber"
| "type_of (VStr _) = TString"
| "type_of (VTab _) = TTable"
| "type_of (VUd _) = TUserdata"
| "type_of (VCFun _ _) = TFunction"
| "type_of (VLFun _) = TFunction"
| "type_of (VErrno _ _ _) = TUserdata"
| "type_of (VErr _) = TUserdata"

fun type_name :: "ltype \<Rightarrow> string" where
  "type_name TNone = ''no value''"
| "type_name TNil = ''nil''"
| "type_name TBoolean = ''boolean''"
| "type_name TNumber = ''number''"
| "type_name TString = ''string''"
| "type_name TTable = ''table''"
| "type_name TFunction = ''function''"
| "type_name TUserdata = ''userdata''"

section \<open>Errors and outcomes\<close>

text \<open>
  \<open>ArgError n msg\<close> is what \<open>luaL_argerror(L, n, msg)\<close> raises, \<open>MsgError msg\<close> what
  \<open>luaL_error\<close> raises, \<open>ObjError v\<close> an error raised by Lua code with the value \<open>v\<close>.
\<close>

datatype lerror = ArgError int string | MsgError string | ObjError lval

datatype 'a outcome = Val 'a | Raise lerror | ExitProcess c_int | Undef string

section \<open>The state\<close>

type_synonym ltable = "(lval \<times> lval) list"

text \<open>
  A full userdata: the table set as its metatable, and its memory block, \<open>None\<close> as long
  as nothing was written to it (\<open>lua_newuserdata\<close> does not clear the block).
\<close>

record 'u udata =
  meta :: "nat option"
  block :: "'u option"

text \<open>
  Functions of the C library and of Lua whose results the code only passes on: the text
  of an \<open>errno\<close>, the rendering of a pointer, and Lua's conversions between numbers and
  strings.
\<close>

record runtime =
  strerror :: "c_int \<Rightarrow> string"
  fmt_ptr :: "lval \<Rightarrow> string"
  str_to_number :: "string \<Rightarrow> lval option"
  number_to_str :: "lval \<Rightarrow> string"

text \<open>
  \<open>peak\<close> is the largest number of values that the stack of the running function has held: Lua
  promises room for \<open>LUA_MINSTACK\<close> values above the arguments, and the functions do not ask for more.
\<close>

record ('u, 'w) lua =
  rt :: runtime
  stk :: "lval list"
  peak :: nat
  upvals :: "lval list"
  tabs :: "ltable list"
  uds :: "'u udata list"
  registry :: "(string \<times> nat) list"
  regrefs :: "lval list"
  errno :: c_int
  world :: 'w

type_synonym ('u, 'w, 'a) comp = "('u, 'w) lua \<Rightarrow> 'a outcome \<times> ('u, 'w) lua"

section \<open>Sequencing\<close>

definition ret :: "'a \<Rightarrow> ('u, 'w, 'a) comp" where
  "ret x = (\<lambda>L. (Val x, L))"

definition raise :: "lerror \<Rightarrow> ('u, 'w, 'a) comp" where
  "raise e = (\<lambda>L. (Raise e, L))"

definition exit_process :: "c_int \<Rightarrow> ('u, 'w, 'a) comp" where
  "exit_process c = (\<lambda>L. (ExitProcess c, L))"

definition undef :: "string \<Rightarrow> ('u, 'w, 'a) comp" where
  "undef why = (\<lambda>L. (Undef why, L))"

definition bnd :: "('u, 'w, 'a) comp \<Rightarrow> ('a \<Rightarrow> ('u, 'w, 'b) comp) \<Rightarrow> ('u, 'w, 'b) comp" where
  "bnd m f = (\<lambda>L. case m L of
       (Val x, L') \<Rightarrow> f x L'
     | (Raise e, L') \<Rightarrow> (Raise e, L')
     | (ExitProcess c, L') \<Rightarrow> (ExitProcess c, L')
     | (Undef s, L') \<Rightarrow> (Undef s, L'))"

text \<open>\<open>seqs [m1, ..., mk]\<close> is \<open>m1; ...; mk;\<close> and \<open>returning ms n\<close> is \<open>m1; ...; mk; return n;\<close>.\<close>

fun seqs :: "('u, 'w, unit) comp list \<Rightarrow> ('u, 'w, unit) comp" where
  "seqs [] = ret ()"
| "seqs (m # ms) = bnd m (\<lambda>_. seqs ms)"

definition returning :: "('u, 'w, unit) comp list \<Rightarrow> nat \<Rightarrow> ('u, 'w, nat) comp" where
  "returning ms n = bnd (seqs ms) (\<lambda>_. ret n)"

lemma bnd_apply [c_step]:
  "bnd (ret x) f = f x"
  "bnd (raise e) f = raise e"
  "bnd (exit_process c) f = exit_process c"
  "bnd (undef s) f = undef s"
  by (simp_all add: bnd_def ret_def raise_def exit_process_def undef_def fun_eq_iff)

lemma bnd_assoc: "bnd (bnd m f) g = bnd m (\<lambda>x. bnd (f x) g)"
  by (auto simp: bnd_def fun_eq_iff split: prod.splits outcome.splits)

lemma bnd_ret [c_step]: "bnd m ret = m"
  by (auto simp: bnd_def ret_def fun_eq_iff split: prod.splits outcome.splits)

lemmas bnd_run [c_step] = bnd_def [THEN fun_cong]

lemma bnd_Val: "m L = (Val x, L') \<Longrightarrow> bnd m f L = f x L'"
  by (simp add: bnd_def)

lemma bnd_Raise: "m L = (Raise e, L') \<Longrightarrow> bnd m f L = (Raise e, L')"
  by (simp add: bnd_def)

lemma ret_apply [c_step]: "ret x L = (Val x, L)"
  by (simp add: ret_def)

lemma raise_apply [c_step]: "raise e L = (Raise e, L)"
  by (simp add: raise_def)

lemma exit_apply [c_step]: "exit_process c L = (ExitProcess c, L)"
  by (simp add: exit_process_def)

lemma undef_apply [c_step]: "undef s L = (Undef s, L)"
  by (simp add: undef_def)

lemma returning_Nil [c_step]: "returning [] n = ret n"
  by (simp add: returning_def bnd_apply)

lemma returning_Cons [c_step]: "returning (m # ms) n = bnd m (\<lambda>_. returning ms n)"
  by (simp add: returning_def bnd_assoc)

text \<open>A step that succeeded, taken apart.\<close>

lemma bnd_ValE:
  assumes "bnd m f L = (Val y, L')"
  obtains x L1 where "m L = (Val x, L1)" "f x L1 = (Val y, L')"
  using assms by (auto simp: bnd_run split: prod.splits outcome.splits)

section \<open>The stack\<close>

text \<open>
  The stack holds the bottom first: index 1 is the first argument, index -1 the top.
\<close>

definition slot :: "int \<Rightarrow> lval list \<Rightarrow> lval option" where
  "slot i s =
     (if 1 \<le> i \<and> i \<le> int (length s) then Some (s ! nat (i - 1))
      else if - int (length s) \<le> i \<and> i \<le> - 1 then Some (s ! nat (int (length s) + i))
      else None)"

text \<open>\<open>hold s L\<close>: the stack now holds \<open>s\<close>, and has never held less than that.\<close>

definition hold :: "lval list \<Rightarrow> ('u, 'w) lua \<Rightarrow> ('u, 'w) lua" where
  "hold s L = L\<lparr>stk := s, peak := max (peak L) (length s)\<rparr>"

lemma max_chain [simp]:
  "a \<le> b \<Longrightarrow> max (max p a) b = max p b" "b \<le> a \<Longrightarrow> max (max p a) b = max p a" for a b p :: nat
  by simp_all

definition push :: "lval \<Rightarrow> ('u, 'w, unit) comp" where
  "push v = (\<lambda>L. (Val (), hold (stk L @ [v]) L))"

abbreviation (input) lua_pushnil :: "('u, 'w, unit) comp" where
  "lua_pushnil \<equiv> push VNil"

abbreviation (input) lua_pushboolean :: "bool \<Rightarrow> ('u, 'w, unit) comp" where
  "lua_pushboolean b \<equiv> push (VBool b)"

abbreviation (input) lua_pushinteger :: "i64 \<Rightarrow> ('u, 'w, unit) comp" where
  "lua_pushinteger n \<equiv> push (VInt n)"

abbreviation (input) lua_pushnumber :: "lua_number \<Rightarrow> ('u, 'w, unit) comp" where
  "lua_pushnumber x \<equiv> push (VNum x)"

abbreviation (input) lua_pushstring :: "string \<Rightarrow> ('u, 'w, unit) comp" where
  "lua_pushstring s \<equiv> push (VStr s)"

abbreviation (input) lua_pushcfunction :: "string \<Rightarrow> ('u, 'w, unit) comp" where
  "lua_pushcfunction f \<equiv> push (VCFun f [])"

text \<open>\<open>lua_pushstring(L, strerror(errno))\<close>, with the value \<open>errno\<close> has at that moment.\<close>

definition push_strerror :: "('u, 'w, unit) comp" where
  "push_strerror = (\<lambda>L. push (VStr (strerror (rt L) (errno L))) L)"

text \<open>\<open>lua_errno_new(L, errno, op)\<close>, external: pushes an error object.\<close>

definition lua_errno_new :: "string \<Rightarrow> ('u, 'w, unit) comp" where
  "lua_errno_new op = (\<lambda>L. push (VErrno (errno L) op None) L)"

definition lua_errno_new_with_message :: "c_int \<Rightarrow> string \<Rightarrow> string \<Rightarrow> ('u, 'w, unit) comp" where
  "lua_errno_new_with_message e op msg = push (VErrno e op (Some msg))"

definition set_errno :: "c_int \<Rightarrow> ('u, 'w, unit) comp" where
  "set_errno e = (\<lambda>L. (Val (), L\<lparr>errno := e\<rparr>))"

definition get_errno :: "('u, 'w, c_int) comp" where
  "get_errno = (\<lambda>L. (Val (errno L), L))"

definition lua_gettop :: "('u, 'w, int) comp" where
  "lua_gettop = (\<lambda>L. (Val (int (length (stk L))), L))"

definition settop_list :: "int \<Rightarrow> lval list \<Rightarrow> lval list" where
  "settop_list i s =
     (let n = nat (if 0 \<le> i then i else int (length s) + i + 1)
      in take n s @ replicate (n - length s) VNil)"

definition lua_settop :: "int \<Rightarrow> ('u, 'w, unit) comp" where
  "lua_settop i = (\<lambda>L. (Val (), hold (settop_list i (stk L)) L))"

definition lua_pop :: "nat \<Rightarrow> ('u, 'w, unit) comp" where
  "lua_pop n = lua_settop (- int n - 1)"

definition lua_pushvalue :: "int \<Rightarrow> ('u, 'w, unit) comp" where
  "lua_pushvalue i = (\<lambda>L. case slot i (stk L) of
       None \<Rightarrow> undef ''invalid index'' L
     | Some v \<Rightarrow> push v L)"

text \<open>\<open>lua_insert(L, i)\<close> moves the top element into position \<open>i\<close>; \<open>lua_remove(L, i)\<close> removes it.\<close>

definition lua_insert :: "nat \<Rightarrow> ('u, 'w, unit) comp" where
  "lua_insert i = (\<lambda>L.
     if 1 \<le> i \<and> i \<le> length (stk L)
     then (Val (), L\<lparr>stk := take (i - 1) (stk L) @ [last (stk L)] @ drop (i - 1) (butlast (stk L))\<rparr>)
     else undef ''invalid index'' L)"

definition lua_remove :: "nat \<Rightarrow> ('u, 'w, unit) comp" where
  "lua_remove i = (\<lambda>L.
     if 1 \<le> i \<and> i \<le> length (stk L)
     then (Val (), L\<lparr>stk := take (i - 1) (stk L) @ drop i (stk L)\<rparr>)
     else undef ''invalid index'' L)"

definition lua_type :: "int \<Rightarrow> ('u, 'w, ltype) comp" where
  "lua_type i = (\<lambda>L. (Val (case slot i (stk L) of None \<Rightarrow> TNone | Some v \<Rightarrow> type_of v), L))"

definition lua_isnoneornil :: "int \<Rightarrow> ('u, 'w, bool) comp" where
  "lua_isnoneornil i = bnd (lua_type i) (\<lambda>t. ret (t = TNone \<or> t = TNil))"

definition truthy :: "lval \<Rightarrow> bool" where
  "truthy v \<longleftrightarrow> v \<noteq> VNil \<and> v \<noteq> VBool False"

definition lua_toboolean :: "int \<Rightarrow> ('u, 'w, bool) comp" where
  "lua_toboolean i = (\<lambda>L. (Val (case slot i (stk L) of None \<Rightarrow> False | Some v \<Rightarrow> truthy v), L))"


section \<open>Tables\<close>

text \<open>
  A table is an association list, a missing key reads as nil and storing nil removes the
  key. The tables of the modules have no metamethods of their own, so \<open>lua_setfield\<close>
  stores directly.
\<close>

definition tget :: "ltable \<Rightarrow> lval \<Rightarrow> lval" where
  "tget t k = (case map_of t k of None \<Rightarrow> VNil | Some v \<Rightarrow> v)"

definition tset :: "ltable \<Rightarrow> lval \<Rightarrow> lval \<Rightarrow> ltable" where
  "tset t k v = (if v = VNil then AList.delete k t else AList.update k v t)"

lemma tget_tset [simp]: "tget (tset t k v) k' = (if k' = k then v else tget t k')"
  by (simp add: tget_def tset_def update_conv' delete_conv')

lemma tget_Nil [simp]: "tget [] k = VNil"
  by (simp add: tget_def)

text \<open>
  The length of a table is a border: a position whose successor is absent. Counting up
  from 1 needs at most as many steps as the table has entries.
\<close>

fun border_from :: "nat \<Rightarrow> nat \<Rightarrow> ltable \<Rightarrow> nat" where
  "border_from 0 n t = n"
| "border_from (Suc fuel) n t =
     (if tget t (VInt (of_nat (Suc n))) = VNil then n else border_from fuel (Suc n) t)"

definition border :: "ltable \<Rightarrow> nat" where
  "border t = border_from (length t) 0 t"

definition table_at :: "('u, 'w) lua \<Rightarrow> int \<Rightarrow> nat option" where
  "table_at L i = (case slot i (stk L) of
       Some (VTab a) \<Rightarrow> (if a < length (tabs L) then Some a else None)
     | _ \<Rightarrow> None)"

definition lua_newtable :: "('u, 'w, unit) comp" where
  "lua_newtable = (\<lambda>L. (Val (),
     (hold (stk L @ [VTab (length (tabs L))]) L)\<lparr>tabs := tabs L @ [[]]\<rparr>))"

text \<open>\<open>lua_createtable\<close> only adds a size hint.\<close>

abbreviation (input) lua_createtable :: "nat \<Rightarrow> nat \<Rightarrow> ('u, 'w, unit) comp" where
  "lua_createtable narr nrec \<equiv> lua_newtable"

text \<open>\<open>t[k] = v\<close> for the table at index \<open>i\<close>, \<open>k\<close> and \<open>v\<close> being the two topmost values; both are popped.\<close>

definition lua_rawset :: "int \<Rightarrow> ('u, 'w, unit) comp" where
  "lua_rawset i = (\<lambda>L. case (table_at L i, slot (- 2) (stk L), slot (- 1) (stk L)) of
       (Some a, Some k, Some v) \<Rightarrow>
         if k = VNil then undef ''index is nil'' L
         else (Val (), L\<lparr>stk := butlast (butlast (stk L)),
                         tabs := (tabs L)[a := tset (tabs L ! a) k v]\<rparr>)
     | _ \<Rightarrow> undef ''table expected'' L)"

definition lua_rawget :: "int \<Rightarrow> ('u, 'w, unit) comp" where
  "lua_rawget i = (\<lambda>L. case (table_at L i, slot (- 1) (stk L)) of
       (Some a, Some k) \<Rightarrow> (Val (), L\<lparr>stk := butlast (stk L) @ [tget (tabs L ! a) k]\<rparr>)
     | _ \<Rightarrow> undef ''table expected'' L)"

definition lua_rawseti :: "int \<Rightarrow> i64 \<Rightarrow> ('u, 'w, unit) comp" where
  "lua_rawseti i n = (\<lambda>L. case (table_at L i, slot (- 1) (stk L)) of
       (Some a, Some v) \<Rightarrow>
         (Val (), L\<lparr>stk := butlast (stk L), tabs := (tabs L)[a := tset (tabs L ! a) (VInt n) v]\<rparr>)
     | _ \<Rightarrow> undef ''table expected'' L)"

definition lua_setfield :: "int \<Rightarrow> string \<Rightarrow> ('u, 'w, unit) comp" where
  "lua_setfield i k = (\<lambda>L. case (table_at L i, slot (- 1) (stk L)) of
       (Some a, Some v) \<Rightarrow>
         (Val (), L\<lparr>stk := butlast (stk L), tabs := (tabs L)[a := tset (tabs L ! a) (VStr k) v]\<rparr>)
     | _ \<Rightarrow> undef ''table expected'' L)"

definition lua_rawlen :: "int \<Rightarrow> ('u, 'w, nat) comp" where
  "lua_rawlen i = (\<lambda>L. case table_at L i of
       Some a \<Rightarrow> (Val (border (tabs L ! a)), L)
     | None \<Rightarrow> undef ''table expected'' L)"

section \<open>Userdata, metatables and the registry\<close>

text \<open>\<open>lua_newuserdata\<close> pushes a fresh block and returns its address.\<close>

definition lua_newuserdata :: "('u, 'w, nat) comp" where
  "lua_newuserdata = (\<lambda>L. (Val (length (uds L)),
     (hold (stk L @ [VUd (length (uds L))]) L)\<lparr>uds := uds L @ [\<lparr>meta = None, block = None\<rparr>]\<rparr>))"

text \<open>\<open>*p = x\<close> and \<open>*p\<close> for the block at address \<open>p\<close>.\<close>

definition store :: "nat \<Rightarrow> 'u \<Rightarrow> ('u, 'w, unit) comp" where
  "store p x = (\<lambda>L. if p < length (uds L)
     then (Val (), L\<lparr>uds := (uds L)[p := (uds L ! p)\<lparr>block := Some x\<rparr>]\<rparr>)
     else undef ''dangling userdata'' L)"

definition load :: "nat \<Rightarrow> ('u, 'w, 'u) comp" where
  "load p = (\<lambda>L. if p < length (uds L)
     then (case block (uds L ! p) of
             Some x \<Rightarrow> (Val x, L)
           | None \<Rightarrow> undef ''uninitialised userdata'' L)
     else undef ''dangling userdata'' L)"

definition luaL_newmetatable :: "string \<Rightarrow> ('u, 'w, bool) comp" where
  "luaL_newmetatable name = (\<lambda>L. case map_of (registry L) name of
       Some a \<Rightarrow> (Val False, hold (stk L @ [VTab a]) L)
     | None \<Rightarrow> (Val True,
         (hold (stk L @ [VTab (length (tabs L))]) L)\<lparr>
           tabs := tabs L @ [[(VStr ''__name'', VStr name)]],
           registry := (name, length (tabs L)) # registry L\<rparr>))"

definition luaL_getmetatable :: "string \<Rightarrow> ('u, 'w, unit) comp" where
  "luaL_getmetatable name = (\<lambda>L. push (case map_of (registry L) name of
       Some a \<Rightarrow> VTab a | None \<Rightarrow> VNil) L)"

text \<open>\<open>lua_setmetatable(L, -2)\<close>: pops a table or nil and makes it the metatable of the userdata below it.\<close>

definition lua_setmetatable :: "('u, 'w, unit) comp" where
  "lua_setmetatable = (\<lambda>L. case (slot (- 2) (stk L), slot (- 1) (stk L)) of
       (Some (VUd p), Some m) \<Rightarrow>
         if p < length (uds L) \<and> type_of m \<in> {TNil, TTable}
         then (Val (), L\<lparr>stk := butlast (stk L),
                uds := (uds L)[p := (uds L ! p)\<lparr>meta := (case m of VTab a \<Rightarrow> Some a | _ \<Rightarrow> None)\<rparr>]\<rparr>)
         else undef ''bad metatable'' L
     | _ \<Rightarrow> undef ''bad metatable'' L)"

definition lua_touserdata :: "int \<Rightarrow> ('u, 'w, nat option) comp" where
  "lua_touserdata i = (\<lambda>L. (Val (case slot i (stk L) of Some (VUd p) \<Rightarrow> Some p | _ \<Rightarrow> None), L))"

definition upvalue_touserdata :: "nat \<Rightarrow> ('u, 'w, nat option) comp" where
  "upvalue_touserdata n = (\<lambda>L. (Val (if 1 \<le> n \<and> n \<le> length (upvals L)
     then (case upvals L ! (n - 1) of VUd p \<Rightarrow> Some p | _ \<Rightarrow> None) else None), L))"

text \<open>\<open>lua_pushcclosure(L, f, n)\<close> pops \<open>n\<close> values, which become the upvalues of \<open>f\<close>.\<close>

definition lua_pushcclosure :: "string \<Rightarrow> nat \<Rightarrow> ('u, 'w, unit) comp" where
  "lua_pushcclosure f n = (\<lambda>L. if n \<le> length (stk L)
     then (Val (), hold (take (length (stk L) - n) (stk L)
                          @ [VCFun f (drop (length (stk L) - n) (stk L))]) L)
     else undef ''stack underflow'' L)"

definition luaL_ref :: "('u, 'w, unit) comp" where
  "luaL_ref = (\<lambda>L. if stk L = [] then undef ''stack underflow'' L
     else (Val (), L\<lparr>stk := butlast (stk L), regrefs := regrefs L @ [last (stk L)]\<rparr>))"

text \<open>\<open>lua_pushfstring(L, MT ": %p", p)\<close> for a pointer into userdata.\<close>

definition push_udname :: "string \<Rightarrow> int \<Rightarrow> ('u, 'w, unit) comp" where
  "push_udname mt i = (\<lambda>L. push (VStr (mt @ '': '' @ fmt_ptr (rt L)
     (case slot i (stk L) of Some v \<Rightarrow> v | None \<Rightarrow> VNil))) L)"

section \<open>Argument checks\<close>

definition arg_type :: "int \<Rightarrow> ('u, 'w) lua \<Rightarrow> ltype" where
  "arg_type i L = (case slot i (stk L) of None \<Rightarrow> TNone | Some v \<Rightarrow> type_of v)"

definition luaL_argerror :: "int \<Rightarrow> string \<Rightarrow> ('u, 'w, 'a) comp" where
  "luaL_argerror i msg = raise (ArgError i msg)"

definition luaL_error :: "string \<Rightarrow> ('u, 'w, 'a) comp" where
  "luaL_error msg = raise (MsgError msg)"

definition type_error :: "int \<Rightarrow> string \<Rightarrow> ('u, 'w, 'a) comp" where
  "type_error i expected = (\<lambda>L. luaL_argerror i
     (expected @ '' expected, got '' @ type_name (arg_type i L)) L)"

definition luaL_checktype :: "int \<Rightarrow> ltype \<Rightarrow> ('u, 'w, unit) comp" where
  "luaL_checktype i t = (\<lambda>L. if arg_type i L = t then (Val (), L)
     else type_error i (type_name t) L)"

text \<open>A float converts to an integer when it has an exact integer value in range.\<close>

definition number_to_integer :: "lua_number \<Rightarrow> i64 option" where
  "number_to_integer x = (case x of
       Fin q \<Rightarrow> (if of_int \<lfloor>q\<rfloor> = q \<and> - (2 ^ 63) \<le> \<lfloor>q\<rfloor> \<and> \<lfloor>q\<rfloor> < 2 ^ 63
                 then Some (of_int \<lfloor>q\<rfloor>) else None)
     | _ \<Rightarrow> None)"

text \<open>The number an argument is or converts to (numeric strings convert).\<close>

definition to_number :: "runtime \<Rightarrow> lval \<Rightarrow> lval option" where
  "to_number r v = (case v of
       VInt n \<Rightarrow> Some (VInt n)
     | VNum x \<Rightarrow> Some (VNum x)
     | VStr s \<Rightarrow> str_to_number r s
     | _ \<Rightarrow> None)"

definition arg_number :: "int \<Rightarrow> ('u, 'w) lua \<Rightarrow> lval option" where
  "arg_number i L = (case slot i (stk L) of None \<Rightarrow> None | Some v \<Rightarrow> to_number (rt L) v)"

definition lua_isnumber :: "int \<Rightarrow> ('u, 'w, bool) comp" where
  "lua_isnumber i = (\<lambda>L. (Val (arg_number i L \<noteq> None), L))"

definition lua_tointeger :: "int \<Rightarrow> ('u, 'w, i64) comp" where
  "lua_tointeger i = (\<lambda>L. (Val (case arg_number i L of
       Some (VInt n) \<Rightarrow> n
     | Some (VNum x) \<Rightarrow> (case number_to_integer x of Some n \<Rightarrow> n | None \<Rightarrow> 0)
     | _ \<Rightarrow> 0), L))"

definition luaL_checkinteger :: "int \<Rightarrow> ('u, 'w, i64) comp" where
  "luaL_checkinteger i = (\<lambda>L. case arg_number i L of
       Some (VInt n) \<Rightarrow> (Val n, L)
     | Some (VNum x) \<Rightarrow>
         (case number_to_integer x of
            Some n \<Rightarrow> (Val n, L)
          | None \<Rightarrow> luaL_argerror i ''number has no integer representation'' L)
     | _ \<Rightarrow> type_error i ''number'' L)"

text \<open>An integer argument of \<open>luaL_checknumber\<close> is converted to a double by the given rounding.\<close>

definition luaL_checknumber :: "(rat \<Rightarrow> rat) \<Rightarrow> int \<Rightarrow> ('u, 'w, lua_number) comp" where
  "luaL_checknumber rnd i = (\<lambda>L. case arg_number i L of
       Some (VInt n) \<Rightarrow> (Val (Fin (rnd (of_int (sint n)))), L)
     | Some (VNum x) \<Rightarrow> (Val x, L)
     | _ \<Rightarrow> type_error i ''number'' L)"

text \<open>\<open>luaL_checkstring\<close> also accepts numbers, which it converts in place.\<close>

definition luaL_checkstring :: "int \<Rightarrow> ('u, 'w, string) comp" where
  "luaL_checkstring i = (\<lambda>L. case slot i (stk L) of
       Some (VStr s) \<Rightarrow> (Val s, L)
     | Some v \<Rightarrow>
         (if type_of v = TNumber
          then (Val (number_to_str (rt L) v),
                L\<lparr>stk := (stk L)[nat (i - 1) := VStr (number_to_str (rt L) v)]\<rparr>)
          else type_error i ''string'' L)
     | None \<Rightarrow> type_error i ''string'' L)"

text \<open>
  \<open>luaL_checkoption(L, i, def, names)\<close>: the position of the argument in the list (compared by \<open>strcmp\<close>), an
  absent or nil argument standing for the default when there is one.
\<close>

fun index_of :: "string \<Rightarrow> string list \<Rightarrow> nat option" where
  "index_of s [] = None"
| "index_of s (x # xs) = (if x = s then Some 0 else map_option Suc (index_of s xs))"

definition luaL_checkoption :: "int \<Rightarrow> string option \<Rightarrow> string list \<Rightarrow> ('u, 'w, nat) comp" where
  "luaL_checkoption i d names = (\<lambda>L.
     bnd (case (d, arg_type i L) of
            (Some s, TNone) \<Rightarrow> ret s
          | (Some s, TNil) \<Rightarrow> ret s
          | _ \<Rightarrow> luaL_checkstring i)
       (\<lambda>s. case index_of (c_str s) names of
          Some n \<Rightarrow> ret n
        | None \<Rightarrow> luaL_argerror i (''invalid option '' @ s)) L)"

text \<open>\<open>luaL_checkudata(L, i, name)\<close>: a userdata whose metatable is the one registered under \<open>name\<close>.\<close>

definition has_meta :: "('u, 'w) lua \<Rightarrow> nat \<Rightarrow> string \<Rightarrow> bool" where
  "has_meta L p name \<longleftrightarrow> p < length (uds L) \<and> map_of (registry L) name \<noteq> None
     \<and> meta (uds L ! p) = map_of (registry L) name"

definition luaL_checkudata :: "int \<Rightarrow> string \<Rightarrow> ('u, 'w, nat) comp" where
  "luaL_checkudata i name = (\<lambda>L. case slot i (stk L) of
       Some (VUd p) \<Rightarrow> (if has_meta L p name then (Val p, L) else type_error i name L)
     | _ \<Rightarrow> type_error i name L)"

section \<open>System calls\<close>

text \<open>
  A system call is a function of the operating system's state that returns the new state
  and either an \<open>errno\<close> value or a result. \<open>sys\<close> runs one the way the C library does:
  a failure stores \<open>errno\<close> and reads as \<open>None\<close> (the code's \<open>-1\<close> or NULL), a success
  leaves \<open>errno\<close> alone.
\<close>

type_synonym ('w, 'a) syscall = "'w \<Rightarrow> 'w \<times> (c_int + 'a)"

definition sys :: "('w, 'a) syscall \<Rightarrow> ('u, 'w, 'a option) comp" where
  "sys f = (\<lambda>L. case f (world L) of
       (w, Inl e) \<Rightarrow> (Val None, L\<lparr>world := w, errno := e\<rparr>)
     | (w, Inr r) \<Rightarrow> (Val (Some r), L\<lparr>world := w\<rparr>))"

section \<open>Calling a C function\<close>

text \<open>
  Lua calls a C function on a fresh stack that holds the arguments, and takes the returned
  number of values from the top of that stack; the caller's stack is untouched.
\<close>

definition results :: "nat \<Rightarrow> lval list \<Rightarrow> lval list" where
  "results n s = drop (length s - n) s"

definition call :: "('u, 'w, nat) comp \<Rightarrow> lval list \<Rightarrow> ('u, 'w, lval list) comp" where
  "call f args = (\<lambda>L. case f (L\<lparr>stk := args, peak := length args\<rparr>) of
       (Val n, L') \<Rightarrow> (Val (results n (stk L')), L'\<lparr>stk := stk L, peak := peak L\<rparr>)
     | (Raise e, L') \<Rightarrow> (Raise e, L'\<lparr>stk := stk L, peak := peak L\<rparr>)
     | (ExitProcess c, L') \<Rightarrow> (ExitProcess c, L'\<lparr>stk := stk L, peak := peak L\<rparr>)
     | (Undef s, L') \<Rightarrow> (Undef s, L'\<lparr>stk := stk L, peak := peak L\<rparr>))"

text \<open>A C closure runs with its own upvalues.\<close>

definition call_closure :: "('u, 'w, nat) comp \<Rightarrow> lval list \<Rightarrow> lval list \<Rightarrow> ('u, 'w, lval list) comp" where
  "call_closure f ups args = (\<lambda>L. case call f args (L\<lparr>upvals := ups\<rparr>) of
     (r, L') \<Rightarrow> (r, L'\<lparr>upvals := upvals L\<rparr>))"

section \<open>Calling back into Lua\<close>

text \<open>
  The execution of a Lua value is a parameter: it gets the function, its arguments and the
  message handler, if any, and gives an error value or the results. The callee has a stack
  of its own.
\<close>

type_synonym ('u, 'w) runner =
  "lval \<Rightarrow> lval list \<Rightarrow> lval option \<Rightarrow> ('u, 'w) lua \<Rightarrow> (lval + lval list) \<times> ('u, 'w) lua"

text \<open>
  \<open>lua_pcall(L, nargs, nresults, msgh)\<close> replaces the function and its arguments by the
  results, adjusted to \<open>nresults\<close>, or by the error value; it gives whether there was an error.
\<close>

definition lua_pcall :: "('u, 'w) runner \<Rightarrow> nat \<Rightarrow> nat \<Rightarrow> nat \<Rightarrow> ('u, 'w, bool) comp" where
  "lua_pcall run nargs nresults msgh = (\<lambda>L.
     let s = stk L; k = length s - Suc nargs in
     if Suc nargs \<le> length s \<and> msgh \<le> k then
       case run (s ! k) (drop (Suc k) s) (if msgh = 0 then None else Some (s ! (msgh - 1))) (L\<lparr>stk := [], peak := 0\<rparr>) of
         (Inl e, L') \<Rightarrow> (Val True, hold (take k s @ [e]) (L'\<lparr>peak := peak L\<rparr>))
       | (Inr rs, L') \<Rightarrow> (Val False,
           hold (take k s @ take nresults (rs @ replicate nresults VNil)) (L'\<lparr>peak := peak L\<rparr>))
     else undef ''stack underflow'' L)"

text \<open>\<open>lua_error_new(L, -1)\<close>, external: pushes an error object made from the top value.\<close>

definition lua_error_new :: "('u, 'w, unit) comp" where
  "lua_error_new = (\<lambda>L. case slot (- 1) (stk L) of
       Some v \<Rightarrow> push (VErr v) L
     | None \<Rightarrow> undef ''invalid index'' L)"

section \<open>Registering functions\<close>

text \<open>
  The loop \<open>for (ptr = funcs; ptr->name; ptr++) { lua_pushcfunction(L, ptr->func);
  lua_setfield(L, -2, ptr->name); }\<close> of the module openers, and its variant with
  \<open>lua_pushstring\<close> and \<open>lua_rawset(L, -3)\<close>, over a \<open>luaL_Reg\<close> array.
\<close>

fun reg_setfield :: "(string \<times> string) list \<Rightarrow> ('u, 'w, unit) comp" where
  "reg_setfield [] = ret ()"
| "reg_setfield ((name, func) # regs) =
     bnd (lua_pushcfunction func) (\<lambda>_. bnd (lua_setfield (- 2) name) (\<lambda>_. reg_setfield regs))"

fun reg_rawset :: "(string \<times> string) list \<Rightarrow> ('u, 'w, unit) comp" where
  "reg_rawset [] = ret ()"
| "reg_rawset ((name, func) # regs) =
     seqs [lua_pushstring name, lua_pushcfunction func, lua_rawset (- 3), reg_rawset regs]"


section \<open>Stepping through a body\<close>

text \<open>The operations, applied to a state: a body unfolds one statement at a time.\<close>

lemmas stack_ops [lua_api] =
  hold_def
  push_def [THEN fun_cong] push_strerror_def [THEN fun_cong] lua_errno_new_def [THEN fun_cong] lua_errno_new_with_message_def [THEN fun_cong]
  set_errno_def [THEN fun_cong] get_errno_def [THEN fun_cong] lua_gettop_def [THEN fun_cong] lua_settop_def [THEN fun_cong] lua_pop_def [THEN fun_cong] lua_pushvalue_def [THEN fun_cong]
  lua_insert_def [THEN fun_cong] lua_remove_def [THEN fun_cong] lua_type_def [THEN fun_cong] lua_isnoneornil_def [THEN fun_cong] lua_toboolean_def [THEN fun_cong]

lemmas table_ops [lua_api] =
  hold_def
  table_at_def lua_newtable_def [THEN fun_cong] lua_rawset_def [THEN fun_cong] lua_rawget_def [THEN fun_cong] lua_rawseti_def [THEN fun_cong]
  lua_setfield_def [THEN fun_cong] lua_rawlen_def [THEN fun_cong]

lemmas userdata_ops [lua_api] =
  hold_def
  lua_newuserdata_def [THEN fun_cong] store_def [THEN fun_cong] load_def [THEN fun_cong] luaL_newmetatable_def [THEN fun_cong] luaL_getmetatable_def [THEN fun_cong]
  lua_setmetatable_def [THEN fun_cong] lua_touserdata_def [THEN fun_cong] upvalue_touserdata_def [THEN fun_cong] lua_pushcclosure_def [THEN fun_cong]
  luaL_ref_def [THEN fun_cong] push_udname_def [THEN fun_cong]

lemmas callback_ops [lua_api] = hold_def lua_pcall_def [THEN fun_cong] lua_error_new_def [THEN fun_cong]

lemmas arg_ops =
  arg_type_def luaL_argerror_def [THEN fun_cong] luaL_error_def [THEN fun_cong] type_error_def [THEN fun_cong] luaL_checktype_def [THEN fun_cong]
  to_number_def arg_number_def lua_isnumber_def [THEN fun_cong] lua_tointeger_def [THEN fun_cong] luaL_checkinteger_def [THEN fun_cong]
  luaL_checknumber_def [THEN fun_cong] luaL_checkstring_def [THEN fun_cong] luaL_checkoption_def [THEN fun_cong]

lemmas check_ops [lua_api] = arg_ops luaL_checkudata_def [THEN fun_cong]

lemmas call_ops [lua_api] = hold_def call_def [THEN fun_cong] results_def has_meta_def

lemma slot_top [simp]:
  "slot (- 1) (s @ [a]) = Some a"
  "slot (- 1) (s @ [a, b]) = Some b"
  "slot (- 1) (s @ [a, b, c]) = Some c"
  "slot (- 1) (s @ [a, b, c, d]) = Some d"
  "slot (- 2) (s @ [a, b]) = Some a"
  "slot (- 2) (s @ [a, b, c]) = Some b"
  "slot (- 2) (s @ [a, b, c, d]) = Some c"
  "slot (- 3) (s @ [a, b, c]) = Some a"
  "slot (- 3) (s @ [a, b, c, d]) = Some b"
  by (simp_all add: slot_def nth_append nat_add_distrib)

lemma slot_bottom [simp]:
  "slot 1 [] = None"
  "slot 1 (a # s) = Some a"
  "slot 2 [a] = None"
  "slot 2 [] = None"
  "slot 2 (a # b # s) = Some b"
  "slot 3 [a] = None"
  "slot 3 [a, b] = None"
  "slot 3 [] = None"
  "slot 3 (a # b # c # s) = Some c"
  by (simp_all add: slot_def)

lemma slot_neg_Cons [simp]:
  "slot (- 1) [a] = Some a"
  "slot (- 2) [a] = None"
  "slot (- 3) [a] = None"
  "slot (- 3) [a, b] = None"
  "slot (- 1) (a # b # s) = slot (- 1) (b # s)"
  "slot (- 2) (a # b # c # s) = slot (- 2) (b # c # s)"
  "slot (- 2) [a, b] = Some a"
  by (auto simp: slot_def nth_Cons nat_add_distrib split: nat.splits)

lemma results_append [simp]: "results n (s @ t) = (if n \<le> length t then drop (length t - n) t
    else drop (length s + length t - n) s @ t)"
  by (auto simp: results_def)

lemma results_Cons [simp]:
  "results 0 s = []"
  "length s \<le> n \<Longrightarrow> results n s = s"
  by (simp_all add: results_def)

text \<open>Outcomes of a called function, from the run of its body on the argument stack.\<close>

lemma call_Val: "f (L\<lparr>stk := args, peak := length args\<rparr>) = (Val n, L') \<Longrightarrow>
    call f args L = (Val (results n (stk L')), L'\<lparr>stk := stk L, peak := peak L\<rparr>)"
  by (simp add: call_def)

section \<open>Objects\<close>

text \<open>
  \<open>object_at L p mt x\<close>: the userdata at address \<open>p\<close> is an object of the type registered as
  \<open>mt\<close> and holds \<open>x\<close>; \<open>set_object p x L\<close> overwrites what it holds.
\<close>

definition object_at :: "('u, 'w) lua \<Rightarrow> nat \<Rightarrow> string \<Rightarrow> 'u \<Rightarrow> bool" where
  "object_at L p mt x \<longleftrightarrow> has_meta L p mt \<and> block (uds L ! p) = Some x"

definition set_object :: "nat \<Rightarrow> 'u \<Rightarrow> ('u, 'w) lua \<Rightarrow> ('u, 'w) lua" where
  "set_object p x L = L\<lparr>uds := (uds L)[p := (uds L ! p)\<lparr>block := Some x\<rparr>]\<rparr>"

lemma object_at_frame [simp]:
  "object_at (L\<lparr>stk := s\<rparr>) p mt x \<longleftrightarrow> object_at L p mt x"
  "object_at (L\<lparr>peak := k\<rparr>) p mt x \<longleftrightarrow> object_at L p mt x"
  "object_at (L\<lparr>world := w\<rparr>) p mt x \<longleftrightarrow> object_at L p mt x"
  "object_at (L\<lparr>errno := e\<rparr>) p mt x \<longleftrightarrow> object_at L p mt x"
  "object_at (L\<lparr>tabs := ts\<rparr>) p mt x \<longleftrightarrow> object_at L p mt x"
  "object_at (L\<lparr>upvals := us\<rparr>) p mt x \<longleftrightarrow> object_at L p mt x"
  by (simp_all add: object_at_def has_meta_def)

lemma object_at_set [simp]: "object_at L p mt y \<Longrightarrow> object_at (set_object p x L) p mt x"
  by (simp add: object_at_def has_meta_def set_object_def)

lemma object_at_other: "q \<noteq> p \<Longrightarrow> object_at (set_object p x L) q mt y \<longleftrightarrow> object_at L q mt y"
  by (auto simp: object_at_def has_meta_def set_object_def)

lemma object_at_unique: "object_at L p mt x \<Longrightarrow> object_at L p mt y \<Longrightarrow> x = y"
  by (simp add: object_at_def)

lemma set_object_fields [simp]:
  "stk (set_object p x L) = stk L" "peak (set_object p x L) = peak L" "world (set_object p x L) = world L"
  "errno (set_object p x L) = errno L" "rt (set_object p x L) = rt L"
  "tabs (set_object p x L) = tabs L" "registry (set_object p x L) = registry L"
  by (simp_all add: set_object_def)

lemma set_object_commute [simp]:
  "(set_object p x L)\<lparr>stk := s\<rparr> = set_object p x (L\<lparr>stk := s\<rparr>)"
  "(set_object p x L)\<lparr>peak := k\<rparr> = set_object p x (L\<lparr>peak := k\<rparr>)"
  "(set_object p x L)\<lparr>world := w\<rparr> = set_object p x (L\<lparr>world := w\<rparr>)"
  "(set_object p x L)\<lparr>errno := e\<rparr> = set_object p x (L\<lparr>errno := e\<rparr>)"
  "(set_object p x L)\<lparr>tabs := ts\<rparr> = set_object p x (L\<lparr>tabs := ts\<rparr>)"
  by (simp_all add: set_object_def)

lemma set_object_twice [simp]: "set_object p y (set_object p x L) = set_object p y L"
proof (cases "p < length (uds L)")
  case True
  then show ?thesis by (simp add: set_object_def)
next
  case False
  then show ?thesis by (simp add: set_object_def list_update_beyond)
qed

lemma set_object_same [simp]: "object_at L p mt x \<Longrightarrow> set_object p x L = L"
  by (cases L) (simp add: set_object_def object_at_def has_meta_def list_update_same_conv)

text \<open>A fresh object of the type registered as \<open>mt\<close>.\<close>

definition new_object :: "string \<Rightarrow> 'u \<Rightarrow> ('u, 'w) lua \<Rightarrow> ('u, 'w) lua" where
  "new_object mt x L = L\<lparr>uds := uds L @ [\<lparr>meta = map_of (registry L) mt, block = Some x\<rparr>]\<rparr>"

lemma object_at_new [simp]:
  "map_of (registry L) mt = Some a \<Longrightarrow> object_at (new_object mt x L) (length (uds L)) mt x"
  "object_at L p mt' y \<Longrightarrow> object_at (new_object mt x L) p mt' y"
  by (auto simp: object_at_def has_meta_def new_object_def nth_append)

lemma new_object_fields [simp]:
  "stk (new_object mt x L) = stk L" "peak (new_object mt x L) = peak L" "world (new_object mt x L) = world L"
  "errno (new_object mt x L) = errno L" "rt (new_object mt x L) = rt L"
  "tabs (new_object mt x L) = tabs L" "registry (new_object mt x L) = registry L"
  "regrefs (new_object mt x L) = regrefs L"
  "uds (new_object mt x L) = uds L @ [\<lparr>meta = map_of (registry L) mt, block = Some x\<rparr>]"
  by (simp_all add: new_object_def)

text \<open>The three ways a method uses its object.\<close>

lemma checkudata_object [c_body]:
  "object_at L p mt x \<Longrightarrow> stk L = VUd p # args \<Longrightarrow> luaL_checkudata 1 mt L = (Val p, L)"
  by (simp add: lua_api object_at_def)

lemma load_object [c_body]: "object_at L p mt x \<Longrightarrow> load p L = (Val x, L)"
  by (simp add: lua_api object_at_def)

lemma store_object [c_body]: "object_at L p mt x \<Longrightarrow> store p y L = (Val (), set_object p y L)"
  by (simp add: lua_api object_at_def set_object_def)

section \<open>What registration leaves behind\<close>

definition reg_table :: "(string \<times> string) list \<Rightarrow> ltable \<Rightarrow> ltable" where
  "reg_table regs t = fold (\<lambda>(name, func) t. tset t (VStr name) (VCFun func [])) regs t"

lemma reg_setfield_run:
  assumes "stk L = s @ [VTab a]" and "a < length (tabs L)"
  shows "reg_setfield regs L = (Val (), L\<lparr>tabs := (tabs L)[a := reg_table regs (tabs L ! a)],
    peak := (if regs = [] then peak L else max (peak L) (length (stk L) + 1))\<rparr>)"
  using assms
proof (induction regs arbitrary: L)
  case Nil
  then show ?case by (simp add: ret_def reg_table_def)
next
  case (Cons r regs)
  obtain name func where r: "r = (name, func)" by fastforce
  from Cons.prems Cons.IH show ?case
    by (cases L) (simp add: r c_step lua_api reg_table_def)
qed

lemma reg_rawset_run:
  assumes "stk L = s @ [VTab a]" and "a < length (tabs L)"
  shows "reg_rawset regs L = (Val (), L\<lparr>tabs := (tabs L)[a := reg_table regs (tabs L ! a)],
    peak := (if regs = [] then peak L else max (peak L) (length (stk L) + 2))\<rparr>)"
  using assms
proof (induction regs arbitrary: L)
  case Nil
  then show ?case by (simp add: ret_def reg_table_def)
next
  case (Cons r regs)
  obtain name func where r: "r = (name, func)" by fastforce
  from Cons.prems Cons.IH show ?case
    by (cases L) (simp add: r c_step lua_api reg_table_def)
qed

lemma tget_reg_table:
  "tget (reg_table regs t) k =
     (case k of VStr name \<Rightarrow>
        (case map_of (rev regs) name of Some func \<Rightarrow> VCFun func [] | None \<Rightarrow> tget t k)
      | _ \<Rightarrow> tget t k)"
  by (induction regs arbitrary: t)
     (auto simp: reg_table_def map_add_def split: lval.splits option.splits)

section \<open>Concrete states\<close>

text \<open>A state to evaluate the functions on: a fresh one, and one with an object at address 0.\<close>

definition runtime0 :: runtime where
  "runtime0 = \<lparr>strerror = (\<lambda>e. ''error '' @ show_int (sint e)), fmt_ptr = (\<lambda>_. ''0x10''),
     str_to_number = (\<lambda>_. None), number_to_str = (\<lambda>_. ''0'')\<rparr>"

definition lua0 :: "'w \<Rightarrow> ('u, 'w) lua" where
  "lua0 w = \<lparr>rt = runtime0, stk = [], peak = 0, upvals = [], tabs = [], uds = [], registry = [],
     regrefs = [], errno = 0, world = w\<rparr>"

definition lua_with :: "string \<Rightarrow> 'u \<Rightarrow> 'w \<Rightarrow> ('u, 'w) lua" where
  "lua_with mt x w = (lua0 w)\<lparr>tabs := [[]], registry := [(mt, 0)],
     uds := [\<lparr>meta = Some 0, block = Some x\<rparr>]\<rparr>"

lemma lua_with_object [simp]: "object_at (lua_with mt x w) 0 mt x"
  by (simp add: object_at_def has_meta_def lua_with_def lua0_def)

lemma lua0_world [simp]:
  "(lua0 w)\<lparr>world := w'\<rparr> = lua0 w'" "(lua_with mt x w)\<lparr>world := w'\<rparr> = lua_with mt x w'"
  by (simp_all add: lua_with_def lua0_def)

lemma lua_with_fields [simp]:
  "world (lua_with mt x w) = w" "stk (lua_with mt x w) = []" "errno (lua_with mt x w) = 0"
  "map_of (registry (lua_with mt x w)) mt = Some 0" "rt (lua_with mt x w) = runtime0"
  "world (lua0 w) = w" "stk (lua0 w) = []" "errno (lua0 w) = 0" "rt (lua0 w) = runtime0"
  "tabs (lua0 w) = []" "uds (lua0 w) = []" "peak (lua0 w) = 0" "peak (lua_with mt x w) = 0"
  by (simp_all add: lua_with_def lua0_def)

end
