(* ===== verification/Arg_Select.thy ===== *)
theory Arg_Select
  imports Lua_Api
begin

text \<open>
  The module \<open>testcase.select\<close> (src/select.c): the number of the arguments, the leading
  ones, and the ones from a position on.
\<close>

section \<open>The functions\<close>

definition len_lua :: "('u, 'w, nat) comp" where
  "len_lua = bnd lua_gettop (\<lambda>top. returning [lua_pushinteger (of_int top)] 1)"

text \<open>
  \<open>idx\<close> is a \<open>lua_Integer\<close>, compared with \<open>narg\<close> in 64 bits; \<open>lua_settop\<close> takes it, and
  the function returns it, as an \<open>int\<close>.
\<close>

definition head_lua :: "('u, 'w, nat) comp" where
  "head_lua =
     bnd lua_gettop (\<lambda>top. let narg = top - 1 in
     bnd (luaL_checkinteger 1) (\<lambda>idx.
     bnd (lua_remove 1) (\<lambda>_.
       if narg < sint idx then ret (nat narg)
       else if sint idx \<le> 0 then ret 0
       else bnd (lua_settop (sint (narrow idx))) (\<lambda>_. ret (nat (sint (narrow idx)))))))"

definition tail_lua :: "('u, 'w, nat) comp" where
  "tail_lua =
     bnd lua_gettop (\<lambda>top. let narg = top - 1 in
     bnd (luaL_checkinteger 1) (\<lambda>idx.
       if narg < sint idx then ret 0
       else if sint idx \<le> 1 then ret (nat narg)
       else ret (nat (sint (narrow (of_int narg - idx + 1))))))"

definition select_funcs :: "(string \<times> string) list" where
  "select_funcs = [(''len'', ''len_lua''), (''head'', ''head_lua''), (''tail'', ''tail_lua'')]"

definition luaopen_testcase_select :: "('u, 'w, nat) comp" where
  "luaopen_testcase_select = returning [lua_newtable, reg_rawset select_funcs] 1"

section \<open>Results\<close>

text \<open>
  A Lua stack never holds \<open>2 ^ 31\<close> values (\<open>LUAI_MAXSTACK\<close> is a million), which is what
  the bound on the number of arguments says.
\<close>

lemma head_args:
  assumes "length args < 2 ^ 31"
  shows "call head_lua (VInt n # args) L = (Val (take (nat (sint n)) args), L)"
proof -
  consider "int (length args) < sint n" | "sint n \<le> 0"
    | "0 < sint n" "sint n \<le> int (length args)" by linarith
  then show ?thesis
  proof cases
    case 3
    then have "sint (narrow n) = sint n"
      using assms by (intro sint_narrow_pos) auto
    with 3 show ?thesis
      by (simp add: head_lua_def Let_def c_step lua_api settop_list_def)
  qed (simp_all add: head_lua_def Let_def c_step lua_api)
qed

lemma tail_args:
  assumes "length args < 2 ^ 31"
  shows "call tail_lua (VInt n # args) L = (Val (drop (nat (sint n - 1)) args), L)"
proof -
  consider "int (length args) < sint n" | "sint n \<le> 1" "sint n \<le> int (length args)"
    | "1 < sint n" "sint n \<le> int (length args)" by linarith
  then show ?thesis
  proof cases
    case 3
    then have "sint (narrow (of_int (int (length args)) - n + 1)) = int (length args) - sint n + 1"
      using assms by (intro sint_narrow_diff) auto
    moreover have "Suc (length args) - nat (int (length args) - sint n + 1) = nat (sint n)"
      "nat (sint n - 1) = nat (sint n) - 1"
      using 3 by linarith+
    ultimately show ?thesis
      using 3 by (simp add: tail_lua_def Let_def c_step lua_api drop_Cons')
  qed (simp_all add: tail_lua_def Let_def c_step lua_api)
qed

section \<open>Properties\<close>

text \<open>C28. For every integer \<open>n\<close> but the largest, of whatever sign, \<open>head(n, ...)\<close> and \<open>tail(n + 1, ...)\<close> split the
arguments: together, in order, they are all of them, and the first part has \<open>n\<close> of them when
there are as many; \<open>len\<close> counts them. The number of arguments is below what fits an \<open>int\<close>.\<close>

theorem head_tail_partition:
  assumes "length args < 2 ^ 31" and "sint n < 2 ^ 63 - 1"
  shows "\<exists>hs ts. call head_lua (VInt n # args) L = (Val hs, L) \<and> call tail_lua (VInt (n + 1) # args) L = (Val ts, L)
    \<and> hs @ ts = args \<and> length hs = min (nat (sint n)) (length args)
    \<and> call len_lua args L = (Val [VInt (of_nat (length args))], L)"
proof -
  have "sint (n + 1) = sint n + 1"
  proof -
    have "- (2 ^ 63) \<le> sint n" using sint_greater_eq [of n] by simp
    moreover have "n + 1 = of_int (sint n + 1)" by simp
    ultimately show ?thesis using assms(2)
      by (simp only: signed_of_int) (simp add: signed_take_bit_int_eq_self)
  qed
  moreover have "call len_lua args L = (Val [VInt (of_nat (length args))], L)"
    by (simp add: len_lua_def c_step call_ops stack_ops)
  ultimately show ?thesis
    using head_args [OF assms(1), of n L] tail_args [OF assms(1), of "n + 1" L] by simp
qed

lemma head_tail_partition_witness:
  "\<exists>hs ts. call head_lua [VInt 2, VStr ''a'', VNil, VStr ''c''] (lua0 () :: (unit, unit) lua) = (Val hs, lua0 ())
    \<and> call tail_lua [VInt 3, VStr ''a'', VNil, VStr ''c''] (lua0 () :: (unit, unit) lua) = (Val ts, lua0 ())
    \<and> hs @ ts = [VStr ''a'', VNil, VStr ''c''] \<and> length hs = Suc (Suc 0)
    \<and> call len_lua [VStr ''a'', VNil, VStr ''c''] (lua0 () :: (unit, unit) lua) = (Val [VInt 3], lua0 ())"
  using head_tail_partition [of "[VStr ''a'', VNil, VStr ''c'']" 2 "lua0 ()"] by simp

end
