(* ===== verification/Sig_Kernel.thy ===== *)
theory Sig_Kernel
  imports Lua_Api
begin

text \<open>
  What the signal modules (src/signal.c, src/nosigchld.c, src/nosigpipe.c) use of the
  operating system: its calls as a parameter, the law POSIX gives for signal dispositions
  as a locale, and a reference kernel that satisfies it.
\<close>

section \<open>The calls\<close>

datatype sighandler = SIG_DFL | SIG_IGN | CHandler string

record sigaction_t =
  sa_handler :: sighandler
  sa_mask :: "c_int list"
  sa_flags :: c_int

text \<open>
  \<open>signal\<close> and \<open>sigaction\<close> give the previous handler or action back; \<open>alarm\<close> does not
  fail and returns the seconds that were left.
\<close>

record 'w sig_ops =
  k_kill :: "c_int \<Rightarrow> c_int \<Rightarrow> ('w, unit) syscall"
  k_raise :: "c_int \<Rightarrow> ('w, unit) syscall"
  k_signal :: "c_int \<Rightarrow> sighandler \<Rightarrow> ('w, sighandler) syscall"
  k_sigaction :: "c_int \<Rightarrow> sigaction_t \<Rightarrow> ('w, sigaction_t) syscall"
  k_alarm :: "c_int \<Rightarrow> 'w \<Rightarrow> 'w \<times> c_int"

section \<open>The law of signal dispositions\<close>

text \<open>
  \<open>action w s\<close> is the action in force for signal \<open>s\<close>. A successful \<open>signal\<close> installs the
  handler for that signal and no other; a successful \<open>sigaction\<close> installs the whole action
  and reports the one it replaces; a failed call changes no action.
\<close>

locale disposition_kernel =
  fixes ops :: "'w sig_ops"
    and action :: "'w \<Rightarrow> c_int \<Rightarrow> sigaction_t"
  assumes signal_ok: "k_signal ops s h w = (w', Inr old) \<Longrightarrow>
      sa_handler (action w' s) = h \<and> (\<forall>s'. s' \<noteq> s \<longrightarrow> action w' s' = action w s')"
    and signal_err: "k_signal ops s h w = (w', Inl e) \<Longrightarrow> action w' = action w"

locale sigaction_kernel = disposition_kernel +
  assumes sigaction_ok: "k_sigaction ops s a w = (w', Inr old) \<Longrightarrow>
      old = action w s \<and> action w' = (action w)(s := a)"
    and sigaction_err: "k_sigaction ops s a w = (w', Inl e) \<Longrightarrow> action w' = action w"

section \<open>A reference kernel\<close>

text \<open>
  Signals 1 to 64, of which \<open>SIGKILL\<close> (9) and \<open>SIGSTOP\<close> (19) keep their default action; the
  signals sent so far; the pending alarm. The numbers and \<open>errno\<close> values are Linux's.
\<close>

record sig_world =
  actions :: "c_int \<Rightarrow> sigaction_t"
  live :: "c_int list"
  self :: c_int
  sent :: "(c_int \<times> c_int) list"
  alarm_in :: c_int

definition SA_RESTART :: c_int where "SA_RESTART = 0x10000000"

definition catchable :: "c_int \<Rightarrow> bool" where
  "catchable s \<longleftrightarrow> 1 \<le> sint s \<and> sint s \<le> 64 \<and> s \<noteq> 9 \<and> s \<noteq> 19"

definition ref_kill :: "c_int \<Rightarrow> c_int \<Rightarrow> (sig_world, unit) syscall" where
  "ref_kill pid s w =
     (if sint s < 0 \<or> 64 < sint s then (w, Inl EINVAL)
      else if pid \<notin> set (live w) then (w, Inl ESRCH)
      else if s = 0 then (w, Inr ())
      else (w\<lparr>sent := sent w @ [(pid, s)]\<rparr>, Inr ()))"

definition ref_signal :: "c_int \<Rightarrow> sighandler \<Rightarrow> (sig_world, sighandler) syscall" where
  "ref_signal s h w =
     (if catchable s
      then (w\<lparr>actions := (actions w)(s := \<lparr>sa_handler = h, sa_mask = [], sa_flags = SA_RESTART\<rparr>)\<rparr>,
            Inr (sa_handler (actions w s)))
      else (w, Inl EINVAL))"

definition ref_sigaction :: "c_int \<Rightarrow> sigaction_t \<Rightarrow> (sig_world, sigaction_t) syscall" where
  "ref_sigaction s a w =
     (if catchable s then (w\<lparr>actions := (actions w)(s := a)\<rparr>, Inr (actions w s))
      else (w, Inl EINVAL))"

definition ref_sig_ops :: "sig_world sig_ops" where
  "ref_sig_ops = \<lparr>
     k_kill = ref_kill,
     k_raise = (\<lambda>s w. ref_kill (self w) s w),
     k_signal = ref_signal,
     k_sigaction = ref_sigaction,
     k_alarm = (\<lambda>sec w. (w\<lparr>alarm_in := sec\<rparr>, alarm_in w))\<rparr>"

definition default_action :: sigaction_t where
  "default_action = \<lparr>sa_handler = SIG_DFL, sa_mask = [], sa_flags = 0\<rparr>"

definition sig_world0 :: sig_world where
  "sig_world0 = \<lparr>actions = (\<lambda>_. default_action), live = [100, 200], self = 100,
     sent = [], alarm_in = 0\<rparr>"

interpretation ref_sig: sigaction_kernel ref_sig_ops actions
  by unfold_locales
     (auto simp: ref_sig_ops_def ref_signal_def ref_sigaction_def split: if_splits)

end
