(* ===== verification/Signal.thy ===== *)
theory Signal
  imports Sig_Kernel
begin

text \<open>
  The module \<open>testcase.signal\<close> (src/signal.c): the table of the platform's signals, the
  lookups by name and by number, and the functions built on them.
\<close>

section \<open>The signal table\<close>

record signal_entry_t =
  ename :: string
  enum :: c_int

text \<open>
  The names in the order of the table, each compiled in only \<open>#ifdef\<close> the platform's
  <signal.h> defines it. The definitions of that header are a parameter
  \<open>defs\<close>: the value of a macro, or \<open>None\<close> when it is not defined.
\<close>

definition SIGNAL_NAMES :: "string list" where
  "SIGNAL_NAMES = [
     ''SIGHUP'', ''SIGINT'', ''SIGQUIT'', ''SIGILL'', ''SIGTRAP'', ''SIGABRT'', ''SIGFPE'',
     ''SIGKILL'', ''SIGSEGV'', ''SIGPIPE'', ''SIGALRM'', ''SIGTERM'', ''SIGUSR1'', ''SIGUSR2'',
     ''SIGCHLD'', ''SIGCONT'', ''SIGSTOP'', ''SIGTSTP'', ''SIGTTIN'', ''SIGTTOU'',
     ''SIGBUS'', ''SIGPROF'', ''SIGSYS'', ''SIGURG'', ''SIGVTALRM'', ''SIGXCPU'', ''SIGXFSZ'',
     ''SIGPOLL'', ''SIGWINCH'',
     ''SIGEMT'', ''SIGINFO'', ''SIGPWR'', ''SIGSTKFLT'',
     ''SIGIOT'', ''SIGCLD'', ''SIGIO'']"

type_synonym sig_defs = "string \<Rightarrow> c_int option"

fun signal_entries :: "sig_defs \<Rightarrow> string list \<Rightarrow> signal_entry_t list" where
  "signal_entries defs [] = []"
| "signal_entries defs (m # ms) = (case defs m of
       Some n \<Rightarrow> \<lparr>ename = m, enum = n\<rparr> # signal_entries defs ms
     | None \<Rightarrow> signal_entries defs ms)"

definition SIGNALS :: "sig_defs \<Rightarrow> signal_entry_t list" where
  "SIGNALS defs = signal_entries defs SIGNAL_NAMES"

text \<open>The two platforms whose numbers the comments of the table give.\<close>

definition linux_signals :: sig_defs where
  "linux_signals = map_of [
     (''SIGHUP'', 1), (''SIGINT'', 2), (''SIGQUIT'', 3), (''SIGILL'', 4), (''SIGTRAP'', 5),
     (''SIGABRT'', 6), (''SIGFPE'', 8), (''SIGKILL'', 9), (''SIGSEGV'', 11), (''SIGPIPE'', 13),
     (''SIGALRM'', 14), (''SIGTERM'', 15), (''SIGUSR1'', 10), (''SIGUSR2'', 12), (''SIGCHLD'', 17),
     (''SIGCONT'', 18), (''SIGSTOP'', 19), (''SIGTSTP'', 20), (''SIGTTIN'', 21), (''SIGTTOU'', 22),
     (''SIGBUS'', 7), (''SIGPROF'', 27), (''SIGSYS'', 31), (''SIGURG'', 23), (''SIGVTALRM'', 26),
     (''SIGXCPU'', 24), (''SIGXFSZ'', 25), (''SIGPOLL'', 29), (''SIGWINCH'', 28),
     (''SIGPWR'', 30), (''SIGSTKFLT'', 16), (''SIGIOT'', 6), (''SIGCLD'', 17), (''SIGIO'', 29)]"

definition macos_signals :: sig_defs where
  "macos_signals = map_of [
     (''SIGHUP'', 1), (''SIGINT'', 2), (''SIGQUIT'', 3), (''SIGILL'', 4), (''SIGTRAP'', 5),
     (''SIGABRT'', 6), (''SIGFPE'', 8), (''SIGKILL'', 9), (''SIGSEGV'', 11), (''SIGPIPE'', 13),
     (''SIGALRM'', 14), (''SIGTERM'', 15), (''SIGUSR1'', 30), (''SIGUSR2'', 31), (''SIGCHLD'', 20),
     (''SIGCONT'', 19), (''SIGSTOP'', 17), (''SIGTSTP'', 18), (''SIGTTIN'', 21), (''SIGTTOU'', 22),
     (''SIGBUS'', 10), (''SIGPROF'', 27), (''SIGSYS'', 12), (''SIGURG'', 16), (''SIGVTALRM'', 26),
     (''SIGXCPU'', 24), (''SIGXFSZ'', 25), (''SIGWINCH'', 28),
     (''SIGEMT'', 7), (''SIGINFO'', 29), (''SIGIOT'', 6), (''SIGIO'', 23)]"

section \<open>Lookups\<close>

fun lookup_by_name :: "signal_entry_t list \<Rightarrow> string \<Rightarrow> signal_entry_t option" where
  "lookup_by_name [] s = None"
| "lookup_by_name (e # es) s = (if strcasecmp_eq (ename e) s then Some e else lookup_by_name es s)"

fun lookup_by_num :: "signal_entry_t list \<Rightarrow> c_int \<Rightarrow> signal_entry_t option" where
  "lookup_by_num [] n = None"
| "lookup_by_num (e # es) n = (if enum e = n then Some e else lookup_by_num es n)"

definition get_signal :: "sig_defs \<Rightarrow> int \<Rightarrow> ('u, 'w, c_int) comp" where
  "get_signal defs idx =
     bnd (lua_type idx) (\<lambda>t.
       if t = TNumber then bnd (lua_tointeger idx) (\<lambda>v. ret (narrow v))
       else bnd (luaL_checkstring idx) (\<lambda>s.
         case lookup_by_name (SIGNALS defs) s of
           None \<Rightarrow> luaL_argerror idx ''invalid signal name''
         | Some e \<Rightarrow> ret (enum e)))"

section \<open>The functions\<close>

definition kill_lua :: "sig_defs \<Rightarrow> 'w sig_ops \<Rightarrow> ('u, 'w, nat) comp" where
  "kill_lua defs ops =
     bnd (get_signal defs 1) (\<lambda>sig.
     bnd (luaL_checkinteger 2) (\<lambda>v. let pid = narrow v in
     bnd (sys (k_kill ops pid sig)) (\<lambda>r.
       case r of
         None \<Rightarrow> returning [lua_pushboolean False, push_strerror] 2
       | Some _ \<Rightarrow> returning [lua_pushboolean True] 1)))"

definition raise_lua :: "sig_defs \<Rightarrow> 'w sig_ops \<Rightarrow> ('u, 'w, nat) comp" where
  "raise_lua defs ops =
     bnd (get_signal defs 1) (\<lambda>sig.
     bnd (sys (k_raise ops sig)) (\<lambda>r.
       case r of
         None \<Rightarrow> returning [lua_pushboolean False, push_strerror] 2
       | Some _ \<Rightarrow> returning [lua_pushboolean True] 1))"

definition tosigname_lua :: "sig_defs \<Rightarrow> ('u, 'w, nat) comp" where
  "tosigname_lua defs =
     bnd (luaL_checkinteger 1) (\<lambda>v. let num = narrow v in
       case lookup_by_num (SIGNALS defs) num of
         None \<Rightarrow> returning [lua_pushnil] 1
       | Some e \<Rightarrow> returning [lua_pushstring (ename e)] 1)"

definition tosignum_lua :: "sig_defs \<Rightarrow> ('u, 'w, nat) comp" where
  "tosignum_lua defs =
     bnd (luaL_checkstring 1) (\<lambda>s.
       case lookup_by_name (SIGNALS defs) s of
         None \<Rightarrow> returning [lua_pushnil] 1
       | Some e \<Rightarrow> returning [lua_pushinteger (widen (enum e))] 1)"

definition set_disposition :: "sig_defs \<Rightarrow> 'w sig_ops \<Rightarrow> sighandler \<Rightarrow> ('u, 'w, nat) comp" where
  "set_disposition defs ops h =
     bnd (get_signal defs 1) (\<lambda>sig.
     bnd (sys (k_signal ops sig h)) (\<lambda>r.
       case r of
         None \<Rightarrow> returning [lua_pushboolean False, push_strerror] 2
       | Some _ \<Rightarrow> returning [lua_pushboolean True] 1))"

definition sigignore_lua :: "sig_defs \<Rightarrow> 'w sig_ops \<Rightarrow> ('u, 'w, nat) comp" where
  "sigignore_lua defs ops = set_disposition defs ops SIG_IGN"

definition sigdefault_lua :: "sig_defs \<Rightarrow> 'w sig_ops \<Rightarrow> ('u, 'w, nat) comp" where
  "sigdefault_lua defs ops = set_disposition defs ops SIG_DFL"

text \<open>The argument of \<open>alarm\<close> and its result are unsigned.\<close>

definition alarm_lua :: "'w sig_ops \<Rightarrow> ('u, 'w, nat) comp" where
  "alarm_lua ops =
     bnd (luaL_checkinteger 1) (\<lambda>v. let sec = narrow v in
       (\<lambda>L. case k_alarm ops sec (world L) of
          (w, left) \<Rightarrow> returning [lua_pushinteger (ucast left)] 1 (L\<lparr>world := w\<rparr>)))"

text \<open>The body of the loop of \<open>signames\<close>, with the result table at index 1.\<close>

definition signames_step :: "signal_entry_t \<Rightarrow> ('u, 'w, unit) comp" where
  "signames_step e =
     bnd (seqs [lua_pushstring (ename e), lua_pushinteger (widen (enum e)), lua_rawset 1,
                lua_pushinteger (widen (enum e)), lua_rawget 1]) (\<lambda>_.
     bnd (lua_type (- 1)) (\<lambda>t.
       if t = TNil then
         seqs [lua_pop 1, lua_pushinteger (widen (enum e)), lua_pushstring (ename e), lua_rawset 1]
       else if t = TString then
         seqs [lua_newtable, lua_pushvalue (- 2), lua_rawseti (- 2) 1,
               lua_pushstring (ename e), lua_rawseti (- 2) 2,
               lua_pushinteger (widen (enum e)), lua_pushvalue (- 2), lua_rawset 1, lua_pop 2]
       else if t = TTable then
         bnd (lua_rawlen (- 1)) (\<lambda>n. let len = narrow (of_nat n) in
           seqs [lua_pushstring (ename e), lua_rawseti (- 2) (widen (len + 1)), lua_pop 1])
       else lua_pop 1))"

fun signames_loop :: "signal_entry_t list \<Rightarrow> ('u, 'w, unit) comp" where
  "signames_loop [] = ret ()"
| "signames_loop (e # es) = bnd (signames_step e) (\<lambda>_. signames_loop es)"

definition signames_lua :: "sig_defs \<Rightarrow> ('u, 'w, nat) comp" where
  "signames_lua defs = returning [lua_newtable, signames_loop (SIGNALS defs)] 1"

definition signal_funcs :: "(string \<times> string) list" where
  "signal_funcs = [
     (''kill'', ''kill_lua''), (''raise'', ''raise_lua''), (''tosigname'', ''tosigname_lua''),
     (''tosignum'', ''tosignum_lua''), (''signames'', ''signames_lua''),
     (''sigignore'', ''sigignore_lua''), (''sigdefault'', ''sigdefault_lua''),
     (''alarm'', ''alarm_lua'')]"

definition luaopen_testcase_signal :: "('u, 'w, nat) comp" where
  "luaopen_testcase_signal = returning [lua_newtable, reg_setfield signal_funcs] 1"

section \<open>Arrays of names\<close>

text \<open>The table \<open>{n1, ..., nk}\<close>, as storing the names at 1, 2, ... in turn leaves it.\<close>

definition array_of :: "string list \<Rightarrow> ltable" where
  "array_of ns = map (\<lambda>i. (VInt (of_nat (Suc i)), VStr (ns ! i))) [0..<length ns]"

lemma length_array_of [simp]: "length (array_of ns) = length ns"
  by (simp add: array_of_def)

lemma array_of_Nil [simp]: "array_of [] = []"
  by (simp add: array_of_def)

lemma array_of_snoc:
  "array_of (ns @ [x]) = array_of ns @ [(VInt (of_nat (Suc (length ns))), VStr x)]"
  by (simp add: array_of_def nth_append)

lemma of_nat_i64_inj:
  "i < 2 ^ 63 \<Longrightarrow> j < 2 ^ 63 \<Longrightarrow> (of_nat i :: i64) = of_nat j \<longleftrightarrow> i = j"
  by (simp add: word_of_nat_eq_iff take_bit_nat_eq_self)

lemma update_fresh: "k \<notin> fst ` set al \<Longrightarrow> AList.update k v al = al @ [(k, v)]"
  by (induction al) auto

lemma array_of_fresh:
  assumes "length ns \<le> i" "i < 2 ^ 62"
  shows "VInt (of_nat (Suc i)) \<notin> fst ` set (array_of ns)"
proof
  assume "VInt (of_nat (Suc i)) \<in> fst ` set (array_of ns)"
  then obtain j where "j < length ns" "(of_nat (Suc i) :: i64) = of_nat (Suc j)"
    by (auto simp: array_of_def)
  with assms of_nat_i64_inj [of "Suc i" "Suc j"] show False by simp
qed

lemma array_of_append:
  assumes "length ns < 2 ^ 62"
  shows "tset (array_of ns) (VInt (of_nat (Suc (length ns)))) (VStr x) = array_of (ns @ [x])"
  using update_fresh [OF array_of_fresh [OF order_refl assms]]
  by (simp add: tset_def array_of_snoc)

lemma tget_array_of:
  assumes "length ns < 2 ^ 62" "i < 2 ^ 62"
  shows "tget (array_of ns) (VInt (of_nat (Suc i))) = (if i < length ns then VStr (ns ! i) else VNil)"
  using assms
proof (induction ns rule: rev_induct)
  case Nil
  then show ?case by (simp add: array_of_def)
next
  case (snoc x ns)
  then have "length ns < 2 ^ 62" by simp
  from array_of_append [OF this, of x] snoc of_nat_i64_inj [of "Suc i" "Suc (length ns)"]
  show ?case
    by (simp del: of_nat_Suc flip: array_of_append [OF \<open>length ns < 2 ^ 62\<close>]) (auto simp: nth_append)
qed

lemma border_from_array_of:
  assumes "length ns < 2 ^ 62" "n + fuel = length ns"
  shows "border_from fuel n (array_of ns) = length ns"
  using assms
  by (induction fuel n "array_of ns" rule: border_from.induct)
     (auto simp: tget_array_of simp del: of_nat_Suc)

lemma border_array_of: "length ns < 2 ^ 62 \<Longrightarrow> border (array_of ns) = length ns"
  by (simp add: border_def border_from_array_of)

section \<open>One round of the loop of \<open>signames\<close>\<close>

lemma signames_step_first:
  assumes "stk L = [VTab a]" "a < length (tabs L)"
    and "tget (tabs L ! a) (VInt (widen (enum e))) = VNil"
  shows "signames_step e L = (Val (), L\<lparr>peak := max (peak L) 3, tabs := (tabs L)[a :=
     tset (tset (tabs L ! a) (VStr (ename e)) (VInt (widen (enum e))))
       (VInt (widen (enum e))) (VStr (ename e))]\<rparr>)"
  using assms by (cases L) (simp add: signames_step_def c_step lua_api settop_list_def)

lemma signames_step_second:
  assumes "stk L = [VTab a]" "a < length (tabs L)"
    and "tget (tabs L ! a) (VInt (widen (enum e))) = VStr s"
  shows "signames_step e L = (Val (), L\<lparr>peak := max (peak L) 5, tabs := (tabs L)[a :=
     tset (tset (tabs L ! a) (VStr (ename e)) (VInt (widen (enum e))))
       (VInt (widen (enum e))) (VTab (length (tabs L)))] @ [array_of [s, ename e]]\<rparr>)"
  using assms array_of_append [of "[]" s] array_of_append [of "[s]" "ename e"]
  by (cases L) (simp add: signames_step_def c_step lua_api settop_list_def nth_append list_update_append)

lemma signames_step_more:
  assumes "stk L = [VTab a]" "a < length (tabs L)"
    and "tget (tabs L ! a) (VInt (widen (enum e))) = VTab b"
    and "b < length (tabs L)" "b \<noteq> a" "tabs L ! b = array_of ns" "length ns < 2 ^ 30"
  shows "signames_step e L = (Val (), L\<lparr>peak := max (peak L) 3, tabs := (tabs L)
     [a := tset (tabs L ! a) (VStr (ename e)) (VInt (widen (enum e))), b := array_of (ns @ [ename e])]\<rparr>)"
proof -
  have len: "border (array_of ns) = length ns" using assms(7) by (simp add: border_array_of)
  have idx: "widen (narrow (of_nat (length ns)) + 1) = of_nat (Suc (length ns))"
    using assms(7) by (rule widen_narrow_count)
  show ?thesis
    using assms array_of_append [of ns "ename e"]
    by (cases L) (simp add: signames_step_def c_step lua_api settop_list_def len idx)
qed

section \<open>The table \<open>signames\<close> builds\<close>

definition names_of :: "signal_entry_t list \<Rightarrow> c_int \<Rightarrow> string list" where
  "names_of es n = map ename (filter (\<lambda>e. enum e = n) es)"

definition num_of :: "signal_entry_t list \<Rightarrow> string \<Rightarrow> c_int option" where
  "num_of es s = map_option enum (find (\<lambda>e. ename e = s) es)"

text \<open>
  What the entry of a number must be: nil for an unknown number, the name when there is
  one name, otherwise a table of its own that lists the names in order.
\<close>

definition number_entry :: "nat \<Rightarrow> ltable list \<Rightarrow> string list \<Rightarrow> lval \<Rightarrow> bool" where
  "number_entry a ts ns v = (case ns of
       [] \<Rightarrow> v = VNil
     | [x] \<Rightarrow> v = VStr x
     | _ \<Rightarrow> (case v of VTab b \<Rightarrow> a < b \<and> b < length ts \<and> ts ! b = array_of ns | _ \<Rightarrow> False))"

definition names_table :: "nat \<Rightarrow> ltable list \<Rightarrow> signal_entry_t list \<Rightarrow> bool" where
  "names_table a ts es \<longleftrightarrow> a < length ts
     \<and> (\<forall>s. tget (ts ! a) (VStr s) = (case num_of es s of None \<Rightarrow> VNil | Some n \<Rightarrow> VInt (widen n)))
     \<and> (\<forall>n. number_entry a ts (names_of es n) (tget (ts ! a) (VInt (widen n))))
     \<and> (\<forall>n m b. tget (ts ! a) (VInt (widen n)) = VTab b \<longrightarrow> tget (ts ! a) (VInt (widen m)) = VTab b \<longrightarrow> n = m)"

lemma names_of_snoc: "names_of (es @ [e]) n = names_of es n @ (if enum e = n then [ename e] else [])"
  by (simp add: names_of_def)

lemma find_snoc: "find P (xs @ [x]) = (case find P xs of Some y \<Rightarrow> Some y | None \<Rightarrow> if P x then Some x else None)"
  by (induction xs) auto

lemma num_of_snoc:
  "ename e \<notin> ename ` set es \<Longrightarrow>
   num_of (es @ [e]) s = (if s = ename e then Some (enum e) else num_of es s)"
proof -
  assume "ename e \<notin> ename ` set es"
  then have "find (\<lambda>x. ename x = ename e) es = None" by (force simp: find_None_iff image_iff)
  then show ?thesis by (auto simp: num_of_def find_snoc split: option.splits)
qed

lemma number_entry_cases:
  assumes "number_entry a ts ns v"
  obtains "ns = []" "v = VNil" | x where "ns = [x]" "v = VStr x"
  | b where "2 \<le> length ns" "v = VTab b" "a < b" "b < length ts" "ts ! b = array_of ns"
  using assms by (auto simp: number_entry_def split: list.splits lval.splits)

lemma number_entry_table:
  "2 \<le> length ns \<Longrightarrow> number_entry a ts ns (VTab b) \<longleftrightarrow> a < b \<and> b < length ts \<and> ts ! b = array_of ns"
  by (auto simp: number_entry_def split: list.splits)

lemma number_entry_change:
  assumes "number_entry a ts ns v" and "length ts \<le> length ts'"
    and "\<And>b. v = VTab b \<Longrightarrow> a < b \<Longrightarrow> b < length ts \<Longrightarrow> ts' ! b = ts ! b"
  shows "number_entry a ts' ns v"
  using assms by (auto simp: number_entry_def split: list.splits lval.splits)

text \<open>
  The invariant after one more entry: its name is added, the number's entry lists one name
  more, and the entries of the other numbers and their tables stay.
\<close>

lemma names_table_snoc:
  assumes inv: "names_table a ts es" and fresh: "ename e \<notin> ename ` set es"
    and len: "length ts \<le> length ts'"
    and name: "\<And>s. tget (ts' ! a) (VStr s)
        = (if s = ename e then VInt (widen (enum e)) else tget (ts ! a) (VStr s))"
    and other: "\<And>m. m \<noteq> enum e \<Longrightarrow> tget (ts' ! a) (VInt (widen m)) = tget (ts ! a) (VInt (widen m))"
    and this_one: "number_entry a ts' (names_of es (enum e) @ [ename e]) (tget (ts' ! a) (VInt (widen (enum e))))"
    and apart: "\<And>m b. m \<noteq> enum e \<Longrightarrow> tget (ts ! a) (VInt (widen m)) = VTab b \<Longrightarrow>
        ts' ! b = ts ! b \<and> tget (ts' ! a) (VInt (widen (enum e))) \<noteq> VTab b"
  shows "names_table a ts' (es @ [e])"
proof -
  note I = inv [unfolded names_table_def]
  have "number_entry a ts' (names_of (es @ [e]) n) (tget (ts' ! a) (VInt (widen n)))" for n
  proof (cases "n = enum e")
    case True
    then show ?thesis using this_one by (simp add: names_of_snoc)
  next
    case False
    have "number_entry a ts (names_of es n) (tget (ts ! a) (VInt (widen n)))" using I by blast
    from number_entry_change [OF this len] apart [OF False] False show ?thesis
      by (simp add: names_of_snoc other)
  qed
  moreover have "n = m" if "tget (ts' ! a) (VInt (widen n)) = VTab b" "tget (ts' ! a) (VInt (widen m)) = VTab b"
    for n m b
    using that I other apart by metis
  moreover have "tget (ts' ! a) (VStr s)
      = (case num_of (es @ [e]) s of None \<Rightarrow> VNil | Some n \<Rightarrow> VInt (widen n))" for s
    using I by (simp add: name num_of_snoc [OF fresh])
  ultimately show ?thesis using I len by (simp add: names_table_def)
qed

lemma signames_step_names_table:
  assumes inv: "names_table a (tabs L) es" and top: "stk L = [VTab a]"
    and fresh: "ename e \<notin> ename ` set es" and len: "length es < 2 ^ 30"
  shows "\<exists>k ts. signames_step e L = (Val (), L\<lparr>peak := max (peak L) k, tabs := ts\<rparr>) \<and> k \<le> 5
    \<and> names_table a ts (es @ [e]) \<and> take a ts = take a (tabs L)"
proof -
  let ?ts = "tabs L" and ?n = "enum e"
  let ?T = "tset (tabs L ! a) (VStr (ename e)) (VInt (widen (enum e)))"
  let ?k = "VInt (widen (enum e))"
  from inv have a: "a < length ?ts"
    and nums: "\<And>n. number_entry a ?ts (names_of es n) (tget (?ts ! a) (VInt (widen n)))"
    by (auto simp: names_table_def)
  have inj: "b \<noteq> c" if "m \<noteq> ?n" "tget (?ts ! a) (VInt (widen m)) = VTab c"
    "tget (?ts ! a) ?k = VTab b" for m b c
    using inv that unfolding names_table_def by metis
  have old: "a < c \<and> c < length ?ts" if "tget (?ts ! a) (VInt (widen m)) = VTab c" for m c
    using nums [of m] that by (auto simp: number_entry_def split: list.splits)
  show ?thesis using nums [of ?n]
  proof (cases rule: number_entry_cases)
    case 1
    let ?ts' = "?ts[a := tset ?T ?k (VStr (ename e))]"
    have "names_table a ?ts' (es @ [e])"
      by (rule names_table_snoc [OF inv fresh])
         (use a 1 in \<open>auto simp: number_entry_def nth_list_update dest: old\<close>)
    with signames_step_first [OF top a 1(2)] show ?thesis by (intro exI [of _ 3] exI [of _ ?ts']) simp
  next
    case (2 x)
    let ?ts' = "?ts[a := tset ?T ?k (VTab (length ?ts))] @ [array_of [x, ename e]]"
    have "names_table a ?ts' (es @ [e])"
      by (rule names_table_snoc [OF inv fresh])
         (use a 2 in \<open>auto simp: number_entry_def nth_append dest: old\<close>)
    with signames_step_second [OF top a 2(2)] a show ?thesis by (intro exI [of _ 5] exI [of _ ?ts']) simp
  next
    case (3 b)
    define ts' where "ts' = ?ts[a := ?T, b := array_of (names_of es ?n @ [ename e])]"
    have at: "ts' ! a = ?T" "ts' ! b = array_of (names_of es ?n @ [ename e])"
      "c \<noteq> a \<Longrightarrow> c \<noteq> b \<Longrightarrow> ts' ! c = ?ts ! c" "length ts' = length ?ts" "take a ts' = take a ?ts" for c
      using 3 a by (simp_all add: ts'_def)
    have "names_table a ts' (es @ [e])"
    proof (rule names_table_snoc [OF inv fresh])
      show "ts' ! c = ?ts ! c \<and> tget (ts' ! a) ?k \<noteq> VTab c"
        if "m \<noteq> ?n" "tget (?ts ! a) (VInt (widen m)) = VTab c" for m c
        using inj [OF that 3(2)] old [OF that(2)] 3(2) at(3) [of c] by (auto simp: at)
    qed (use 3 in \<open>auto simp: at number_entry_table\<close>)
    moreover have "length (names_of es ?n) \<le> length es" by (simp add: names_of_def)
    with len have "length (names_of es ?n) < 2 ^ 30" by simp
    ultimately show ?thesis
      using signames_step_more [OF top a 3(2) 3(4) _ 3(5)] 3(3) at(5)
      by (intro exI [of _ 3] exI [of _ ts']) (simp add: ts'_def)
  qed
qed

lemma names_table_loop:
  assumes "names_table a (tabs L) es" and "stk L = [VTab a]"
    and "distinct (map ename (es @ fs))" and "length es + length fs \<le> 2 ^ 30"
  shows "\<exists>k ts. signames_loop fs L = (Val (), L\<lparr>peak := max (peak L) k, tabs := ts\<rparr>) \<and> k \<le> 5
    \<and> names_table a ts (es @ fs) \<and> take a ts = take a (tabs L)"
  using assms
proof (induction fs arbitrary: es L)
  case Nil
  then show ?case by (intro exI [of _ 0] exI [of _ "tabs L"]) (simp add: ret_def)
next
  case (Cons e fs)
  from Cons.prems obtain k ts where
    step: "signames_step e L = (Val (), L\<lparr>peak := max (peak L) k, tabs := ts\<rparr>)" "k \<le> 5"
    and inv: "names_table a ts (es @ [e])" and frame: "take a ts = take a (tabs L)"
    using signames_step_names_table [of a L es e] by auto
  from Cons.IH [of "L\<lparr>peak := max (peak L) k, tabs := ts\<rparr>" "es @ [e]"] inv Cons.prems obtain k' ts' where
    "signames_loop fs (L\<lparr>peak := max (peak L) k, tabs := ts\<rparr>) = (Val (), L\<lparr>peak := max (max (peak L) k) k', tabs := ts'\<rparr>)"
    "k' \<le> 5"
    and "names_table a ts' (es @ e # fs)" and "take a ts' = take a ts"
    by auto
  with step frame show ?case by (intro exI [of _ "max k k'"] exI [of _ ts']) (simp add: bnd_Val max.assoc del: max_chain)
qed

section \<open>Facts about the table of every platform\<close>

lemma signal_entries_names:
  "map ename (signal_entries defs ms) = filter (\<lambda>m. defs m \<noteq> None) ms"
  by (induction ms) (auto split: option.splits)

lemma signal_entries_nums: "e \<in> set (signal_entries defs ms) \<Longrightarrow> defs (ename e) = Some (enum e)"
  by (induction ms) (auto split: option.splits)

lemma SIGNAL_NAMES_distinct: "distinct SIGNAL_NAMES"
  by (simp add: SIGNAL_NAMES_def)

text \<open>\<open>tolower\<close> identifies a capital with its small letter only, and the names have none of these.\<close>

definition lowercase :: "char \<Rightarrow> bool" where
  "lowercase c \<longleftrightarrow> 97 \<le> (of_char c :: nat) \<and> (of_char c :: nat) \<le> 122"

lemma tolower_inj: "inj_on tolower {c. \<not> lowercase c}"
proof (rule inj_onI)
  fix c d :: char
  assume "c \<in> {c. \<not> lowercase c}" "d \<in> {c. \<not> lowercase c}" and eq: "tolower c = tolower d"
  moreover have "(of_char (tolower e) :: nat) =
      (if 65 \<le> (of_char e :: nat) \<and> (of_char e :: nat) \<le> 90 then of_char e + 32 else of_char e)" for e
    by (simp add: tolower_def of_char_of)
  ultimately have "(of_char c :: nat) = of_char d"
    by (auto simp: lowercase_def dest!: arg_cong [of "tolower c" _ "of_char :: char \<Rightarrow> nat"] split: if_splits)
  then show "c = d" by simp
qed

lemma SIGNAL_NAMES_capital: "\<forall>m \<in> set SIGNAL_NAMES. \<forall>c \<in> set m. \<not> lowercase c"
  by (simp add: SIGNAL_NAMES_def lowercase_def)

lemma SIGNAL_NAMES_folded_distinct: "distinct (map (map tolower) SIGNAL_NAMES)"
proof -
  have "inj_on (map tolower) (set SIGNAL_NAMES)"
    using SIGNAL_NAMES_capital by (intro inj_on_mapI inj_on_subset [OF tolower_inj]) auto
  then show ?thesis using SIGNAL_NAMES_distinct by (simp add: distinct_map)
qed

lemma SIGNAL_NAMES_no_nul: "\<forall>m \<in> set SIGNAL_NAMES. no_nul m"
  by (simp add: SIGNAL_NAMES_def no_nul_def)

lemma SIGNALS_distinct: "distinct (map ename (SIGNALS defs))"
  by (simp add: SIGNALS_def signal_entries_names SIGNAL_NAMES_distinct)

lemma SIGNALS_length: "length (SIGNALS defs) \<le> 36"
proof -
  have "length (map ename (SIGNALS defs)) \<le> length SIGNAL_NAMES"
    unfolding SIGNALS_def signal_entries_names by simp
  then show ?thesis by (simp add: SIGNAL_NAMES_def)
qed

lemma SIGNALS_entry:
  "e \<in> set (SIGNALS defs) \<Longrightarrow> defs (ename e) = Some (enum e) \<and> ename e \<in> set SIGNAL_NAMES"
proof -
  assume e: "e \<in> set (SIGNALS defs)"
  then have "ename e \<in> set (map ename (SIGNALS defs))" by simp
  then show ?thesis using e signal_entries_nums [of e defs]
    by (simp add: SIGNALS_def signal_entries_names del: set_map)
qed

lemma lookup_by_num_names_of:
  "map_option ename (lookup_by_num es n) = (case names_of es n of [] \<Rightarrow> None | x # _ \<Rightarrow> Some x)"
  by (induction es) (auto simp: names_of_def)

lemma lookup_by_name_find: "lookup_by_name es s = find (\<lambda>e. strcasecmp_eq (ename e) s) es"
  by (induction es) auto

text \<open>Any spelling of a known name in upper or lower case finds its entry.\<close>

lemma lookup_by_name_entry:
  assumes e: "e \<in> set (SIGNALS defs)" and s: "strcasecmp_eq (ename e) s"
  shows "lookup_by_name (SIGNALS defs) s = Some e"
proof -
  have "f = e" if f: "f \<in> set (SIGNALS defs)" "strcasecmp_eq (ename f) s" for f
  proof -
    note mem = SIGNALS_entry [OF e] SIGNALS_entry [OF f(1)]
    then have "c_str (ename e) = ename e" "c_str (ename f) = ename f"
      using SIGNAL_NAMES_no_nul by auto
    with s f(2) have "map tolower (ename f) = map tolower (ename e)"
      by (simp add: strcasecmp_eq_def)
    with mem have "ename f = ename e"
      using SIGNAL_NAMES_folded_distinct by (auto simp: distinct_map inj_on_def)
    with mem show ?thesis by simp
  qed
  moreover have "find (\<lambda>e. strcasecmp_eq (ename e) s) (SIGNALS defs) \<noteq> None"
    using e s by (simp only: find_None_iff) blast
  ultimately show ?thesis by (auto simp: lookup_by_name_find find_Some_iff in_set_conv_nth)
qed

section \<open>The argument of the functions that take a signal\<close>

text \<open>
  What a signal argument denotes: a number is taken as it is, narrowed to \<open>int\<close> (a float
  without an integer value reads as 0), a string is looked up.
\<close>

definition signal_arg :: "sig_defs \<Rightarrow> lval \<Rightarrow> c_int option" where
  "signal_arg defs v = (case v of
       VInt n \<Rightarrow> Some (narrow n)
     | VNum x \<Rightarrow> Some (narrow (case number_to_integer x of Some n \<Rightarrow> n | None \<Rightarrow> 0))
     | VStr s \<Rightarrow> map_option enum (lookup_by_name (SIGNALS defs) s)
     | _ \<Rightarrow> None)"

lemma get_signal_Some [c_body]:
  "signal_arg defs v = Some sig \<Longrightarrow> stk L = v # args \<Longrightarrow> get_signal defs 1 L = (Val sig, L)"
  by (cases v) (auto simp: signal_arg_def get_signal_def c_step lua_api split: option.splits)

lemma get_signal_None [c_body]:
  "signal_arg defs v = None \<Longrightarrow> stk L = v # args \<Longrightarrow> \<exists>e. get_signal defs 1 L = (Raise e, L)"
  by (cases v) (auto simp: signal_arg_def get_signal_def c_step lua_api split: option.splits)

lemma signal_arg_name:
  "e \<in> set (SIGNALS defs) \<Longrightarrow> strcasecmp_eq (ename e) s \<Longrightarrow> signal_arg defs (VStr s) = Some (enum e)"
  by (simp add: signal_arg_def lookup_by_name_entry)

lemma tosigname_names_of:
  "call (tosigname_lua defs) [VInt v] L
    = (Val [case names_of (SIGNALS defs) (narrow v) of [] \<Rightarrow> VNil | c # _ \<Rightarrow> VStr c], L)"
  using lookup_by_num_names_of [of "SIGNALS defs" "narrow v"]
  by (auto simp: tosigname_lua_def Let_def c_step lua_api split: option.splits list.splits)

lemma tosignum_entry:
  "e \<in> set (SIGNALS defs) \<Longrightarrow> strcasecmp_eq (ename e) s \<Longrightarrow>
   call (tosignum_lua defs) [VStr s] L = (Val [VInt (widen (enum e))], L)"
  by (simp add: tosignum_lua_def c_step lua_api lookup_by_name_entry)

lemma names_of_hd:
  assumes "names_of es n = c # cs"
  obtains e where "e \<in> set es" "ename e = c" "enum e = n"
proof -
  from assms have "c \<in> set (names_of es n)" by simp
  then show ?thesis using that by (auto simp: names_of_def)
qed

section \<open>Dispositions\<close>

context disposition_kernel
begin

text \<open>A call that names a signal sets its handler and no other, or fails and changes none.\<close>

lemma set_disposition_effect:
  assumes "signal_arg defs v = Some sig"
  shows "case k_signal ops sig h (world L) of
      (w, Inr _) \<Rightarrow> call (set_disposition defs ops h) [v] L = (Val [VBool True], L\<lparr>world := w\<rparr>)
        \<and> sa_handler (action w sig) = h \<and> (\<forall>s. s \<noteq> sig \<longrightarrow> action w s = action (world L) s)
    | (w, Inl e) \<Rightarrow> call (set_disposition defs ops h) [v] L
          = (Val [VBool False, VStr (strerror (rt L) e)], L\<lparr>world := w, errno := e\<rparr>)
        \<and> action w = action (world L)"
proof -
  have run: "get_signal defs 1 (L\<lparr>stk := [v], peak := Suc 0\<rparr>) = (Val sig, L\<lparr>stk := [v], peak := Suc 0\<rparr>)"
    using assms by (simp add: get_signal_Some)
  then show ?thesis
    using signal_err [of sig h "world L"] signal_ok [of sig h "world L"]
    by (auto simp: set_disposition_def c_step call_ops stack_ops sys_def split: prod.splits sum.splits)
qed

end

section \<open>Properties\<close>

lemma signames_loop_bad_index:
  assumes "stk L = v # s" "type_of v \<noteq> TTable" "es \<noteq> []"
  shows "signames_loop es L = (Undef ''table expected'',
    hold (stk L @ [VStr (ename (hd es)), VInt (widen (enum (hd es)))]) L)"
proof -
  have bad: "table_at (L\<lparr>stk := v # t, peak := k\<rparr>) 1 = None" for t k
    using assms(2) by (cases v) (simp_all add: table_at_def)
  obtain e fs where "es = e # fs" using assms(3) by (cases es) auto
  then show ?thesis
    using assms(1) by (simp add: signames_step_def c_step stack_ops lua_rawset_def [THEN fun_cong] bad)
qed

lemma signames_run:
  assumes "stk L = []"
  shows "\<exists>k ts. signames_lua defs L = (Val 1, L\<lparr>stk := [VTab (length (tabs L))], peak := max (peak L) k, tabs := ts\<rparr>)
    \<and> k \<le> 5 \<and> names_table (length (tabs L)) ts (SIGNALS defs) \<and> take (length (tabs L)) ts = tabs L"
proof -
  let ?a = "length (tabs L)" and ?L = "L\<lparr>stk := [VTab (length (tabs L))], peak := max (peak L) 1, tabs := tabs L @ [[]]\<rparr>"
  have "names_table ?a (tabs ?L) []"
    by (simp add: names_table_def num_of_def names_of_def number_entry_def)
  moreover have "distinct (map ename ([] @ SIGNALS defs))" using SIGNALS_distinct [of defs] by simp
  moreover have "length ([] :: signal_entry_t list) + length (SIGNALS defs) \<le> 2 ^ 30"
    using SIGNALS_length [of defs] by simp
  ultimately obtain k ts where
    "signames_loop (SIGNALS defs) ?L = (Val (), ?L\<lparr>peak := max (peak ?L) k, tabs := ts\<rparr>)" "k \<le> 5" "names_table ?a ts ([] @ SIGNALS defs)"
    "take ?a ts = take ?a (tabs ?L)"
    using names_table_loop [of ?a ?L "[]" "SIGNALS defs"] by auto
  then show ?thesis
    by (intro exI [of _ "max 1 k"] exI [of _ ts])
       (simp add: signames_lua_def c_step hold_def assms lua_newtable_def [THEN fun_cong] max.assoc del: max_chain)
qed

text \<open>C5. On every platform \<open>signames\<close> returns a new table that gives each known name its
number, each number with one name that name, and each number with several names a table of
its own that lists them in the order of the signal table. No other table changes.\<close>

theorem signames_builds_table:
  "\<exists>ts. call (signames_lua defs) [] L = (Val [VTab (length (tabs L))], L\<lparr>tabs := ts\<rparr>)
    \<and> names_table (length (tabs L)) ts (SIGNALS defs) \<and> take (length (tabs L)) ts = tabs L"
  using signames_run [of "L\<lparr>stk := [], peak := 0\<rparr>" defs] by (auto simp: call_ops)

text \<open>C38. \<open>signames\<close> uses index 1 for its result although it never clears the arguments: called
with an argument that is no table, it runs into undefined behaviour.\<close>

theorem signames_with_argument:
  assumes "type_of v \<noteq> TTable" "SIGNALS defs \<noteq> []"
  shows "\<exists>L'. call (signames_lua defs) (v # args) L = (Undef ''table expected'', L')"
  using signames_loop_bad_index
    [of "L\<lparr>stk := v # args @ [VTab (length (tabs L))], peak := Suc (Suc (length args)), tabs := tabs L @ [[]]\<rparr>" v _ "SIGNALS defs", OF _ assms]
  by (simp add: signames_lua_def c_step call_ops lua_newtable_def [THEN fun_cong])

lemma signames_with_argument_witness:
  "\<exists>L'. call (signames_lua linux_signals) [VInt 5] (lua0 ()) = (Undef ''table expected'', L' :: (unit, unit) lua)"
  by (rule signames_with_argument) (simp_all add: SIGNALS_def SIGNAL_NAMES_def linux_signals_def)

lemma names_of_signal_entries: "names_of (signal_entries defs ms) n = filter (\<lambda>m. defs m = Some n) ms"
  by (induction ms) (auto simp: names_of_def split: option.splits)

lemma find_filter: "find P xs = (case filter P xs of [] \<Rightarrow> None | x # _ \<Rightarrow> Some x)"
  by (induction xs) auto

text \<open>\<open>tosigname\<close> gives the first name of the table that the platform defines with that
number (so never an alias such as SIGIOT, SIGCLD or SIGIO when there is a standard name),
and nil when no name has it; it changes nothing.\<close>

lemma tosigname_first_name:
  "call (tosigname_lua defs) [VInt v] L
    = (Val [case find (\<lambda>m. defs m = Some (narrow v)) SIGNAL_NAMES of Some c \<Rightarrow> VStr c | None \<Rightarrow> VNil], L)"
  by (simp add: tosigname_names_of SIGNALS_def names_of_signal_entries find_filter split: list.splits)



text \<open>C24. \<open>sigignore\<close> and \<open>sigdefault\<close> called with a signal, given by number or by name, ask
the kernel once for \<open>SIG_IGN\<close> or \<open>SIG_DFL\<close>: when it agrees that is the handler of the signal, no
other signal is touched, and they return true; when it refuses they return false with the
text of \<open>errno\<close>, and no action has changed.\<close>

theorem disposition_set:
  assumes "disposition_kernel ops action" and "signal_arg defs v = Some sig"
    and "(m, h) \<in> {(sigignore_lua defs ops, SIG_IGN), (sigdefault_lua defs ops, SIG_DFL)}"
  shows "case k_signal ops sig h (world L) of
      (w, Inr _) \<Rightarrow> call m [v] L = (Val [VBool True], L\<lparr>world := w\<rparr>)
        \<and> sa_handler (action w sig) = h \<and> (\<forall>s. s \<noteq> sig \<longrightarrow> action w s = action (world L) s)
    | (w, Inl e) \<Rightarrow> call m [v] L = (Val [VBool False, VStr (strerror (rt L) e)], L\<lparr>world := w, errno := e\<rparr>)
        \<and> action w = action (world L)"
  using disposition_kernel.set_disposition_effect [OF assms(1,2), of h L] assms(3)
  by (auto simp: sigignore_lua_def sigdefault_lua_def)

lemma disposition_set_witness:
  "\<exists>w. call (sigignore_lua linux_signals ref_sig_ops) [VStr ''sigint''] (lua0 sig_world0)
        = (Val [VBool True], lua0 w :: (unit, sig_world) lua) \<and> sa_handler (actions w 2) = SIG_IGN"
proof -
  have a: "signal_arg linux_signals (VStr ''sigint'') = Some 2" by code_simp
  obtain w where "k_signal ref_sig_ops 2 SIG_IGN sig_world0 = (w, Inr SIG_DFL)"
    by (simp add: ref_sig_ops_def ref_signal_def catchable_def sig_world0_def default_action_def)
  then show ?thesis
    using disposition_set [OF ref_sig.disposition_kernel_axioms a, of "sigignore_lua linux_signals ref_sig_ops" SIG_IGN
        "lua0 sig_world0 :: (unit, sig_world) lua"]
    by auto
qed

lemma get_signal_error:
  "signal_arg defs v = None \<Longrightarrow> stk L = v # args \<Longrightarrow> get_signal defs 1 L
    = (Raise (ArgError 1 (if type_of v = TString then ''invalid signal name''
        else ''string expected, got '' @ type_name (type_of v))), L)"
  by (cases v) (auto simp: signal_arg_def get_signal_def c_step stack_ops arg_ops split: option.splits)

lemma kill_run:
  assumes "signal_arg defs v = Some sig"
  shows "call (kill_lua defs ops) [v, VInt pid] L = (case k_kill ops (narrow pid) sig (world L) of
          (w, Inr _) \<Rightarrow> (Val [VBool True], L\<lparr>world := w\<rparr>)
        | (w, Inl e) \<Rightarrow> (Val [VBool False, VStr (strerror (rt L) e)], L\<lparr>world := w, errno := e\<rparr>))"
proof -
  have "get_signal defs 1 (L\<lparr>stk := [v, VInt pid], peak := Suc (Suc 0)\<rparr>) = (Val sig, L\<lparr>stk := [v, VInt pid], peak := Suc (Suc 0)\<rparr>)"
    using assms by (simp add: get_signal_Some)
  then show ?thesis
    by (auto simp: kill_lua_def c_step call_ops stack_ops arg_ops sys_def Let_def split: prod.splits sum.splits)
qed

lemma raise_run:
  assumes "signal_arg defs v = Some sig"
  shows "call (raise_lua defs ops) [v] L = (case k_raise ops sig (world L) of
          (w, Inr _) \<Rightarrow> (Val [VBool True], L\<lparr>world := w\<rparr>)
        | (w, Inl e) \<Rightarrow> (Val [VBool False, VStr (strerror (rt L) e)], L\<lparr>world := w, errno := e\<rparr>))"
proof -
  have "get_signal defs 1 (L\<lparr>stk := [v], peak := Suc 0\<rparr>) = (Val sig, L\<lparr>stk := [v], peak := Suc 0\<rparr>)"
    using assms by (simp add: get_signal_Some)
  then show ?thesis
    by (auto simp: raise_lua_def c_step call_ops stack_ops sys_def split: prod.splits sum.splits)
qed

text \<open>C30. \<open>kill\<close> and \<open>raise\<close> with a valid signal (a number, or a known name) make exactly one
call, \<open>kill\<close> for the pid narrowed to \<open>int\<close>, and report its result; an argument that names no
signal raises an argument error before anything is sent.\<close>

theorem kill_sends_once:
  "call (kill_lua defs ops) [v, VInt pid] L = (case signal_arg defs v of
      Some sig \<Rightarrow> (case k_kill ops (narrow pid) sig (world L) of
          (w, Inr _) \<Rightarrow> (Val [VBool True], L\<lparr>world := w\<rparr>)
        | (w, Inl e) \<Rightarrow> (Val [VBool False, VStr (strerror (rt L) e)], L\<lparr>world := w, errno := e\<rparr>))
    | None \<Rightarrow> (Raise (ArgError 1 (if type_of v = TString then ''invalid signal name''
        else ''string expected, got '' @ type_name (type_of v))), L))
   \<and> call (raise_lua defs ops) [v] L = (case signal_arg defs v of
      Some sig \<Rightarrow> (case k_raise ops sig (world L) of
          (w, Inr _) \<Rightarrow> (Val [VBool True], L\<lparr>world := w\<rparr>)
        | (w, Inl e) \<Rightarrow> (Val [VBool False, VStr (strerror (rt L) e)], L\<lparr>world := w, errno := e\<rparr>))
    | None \<Rightarrow> (Raise (ArgError 1 (if type_of v = TString then ''invalid signal name''
        else ''string expected, got '' @ type_name (type_of v))), L))"
proof (cases "signal_arg defs v")
  case None
  then show ?thesis
    using get_signal_error [OF None, of "L\<lparr>stk := [v, VInt pid], peak := Suc (Suc 0)\<rparr>"] get_signal_error [OF None, of "L\<lparr>stk := [v], peak := Suc 0\<rparr>"]
    by (simp add: kill_lua_def raise_lua_def c_step call_ops)
next
  case (Some sig)
  then show ?thesis by (simp add: kill_run raise_run)
qed

text \<open>A float without an exact integer value counts as signal 0.\<close>

lemma signal_arg_fraction: "number_to_integer x = None \<Longrightarrow> signal_arg defs (VNum x) = Some 0"
  by (simp add: signal_arg_def)

text \<open>Opening the module gives a new table with each of its eight functions under its name.\<close>

theorem signal_module_table:
  "\<exists>t. call luaopen_testcase_signal [] L = (Val [VTab (length (tabs L))], L\<lparr>tabs := tabs L @ [t]\<rparr>)
    \<and> (\<forall>k. tget t k = (case k of
         VStr name \<Rightarrow> (if name \<in> {''kill'', ''raise'', ''tosigname'', ''tosignum'', ''signames'',
                           ''sigignore'', ''sigdefault'', ''alarm''}
                      then VCFun (name @ ''_lua'') [] else VNil)
       | _ \<Rightarrow> VNil))"
proof (intro exI conjI allI)
  let ?L = "L\<lparr>stk := [VTab (length (tabs L))], peak := Suc 0, tabs := tabs L @ [[]]\<rparr>"
  have "reg_setfield signal_funcs ?L = (Val (), ?L\<lparr>peak := 2, tabs := tabs L @ [reg_table signal_funcs []]\<rparr>)"
    by (subst reg_setfield_run [of _ "[]" "length (tabs L)"]) (simp_all add: list_update_append signal_funcs_def)
  then show "call luaopen_testcase_signal [] L
      = (Val [VTab (length (tabs L))], L\<lparr>tabs := tabs L @ [reg_table signal_funcs []]\<rparr>)"
    by (simp add: luaopen_testcase_signal_def c_step call_ops lua_newtable_def [THEN fun_cong])
  show "tget (reg_table signal_funcs []) k = (case k of
         VStr name \<Rightarrow> (if name \<in> {''kill'', ''raise'', ''tosigname'', ''tosignum'', ''signames'',
                           ''sigignore'', ''sigdefault'', ''alarm''}
                      then VCFun (name @ ''_lua'') [] else VNil)
       | _ \<Rightarrow> VNil)" for k
    by (auto simp: tget_reg_table signal_funcs_def split: lval.splits)
qed

end
