(* ===== verification/Sig_Child.thy ===== *)
theory Sig_Child
  imports Sig_Kernel
begin

text \<open>
  The modules \<open>testcase.nosigchld\<close> and \<open>testcase.nosigpipe\<close> (src/nosigchld.c,
  src/nosigpipe.c). Whether <signal.h> defines the signal, and its number, is the
  parameter \<open>sigchld\<close> or \<open>sigpipe\<close>.
\<close>

section \<open>nosigchld\<close>

record nosigchld_t =
  noop :: sigaction_t
  saved :: sigaction_t
  enabled :: bool

text \<open>
  The state is the first upvalue of the closure. \<open>sigaction(SIGCHLD, &s->noop, &s->saved)\<close>
  stores the old action only when it succeeds.
\<close>

definition nosigchld_lua :: "c_int option \<Rightarrow> 'w sig_ops \<Rightarrow> (nosigchld_t, 'w, nat) comp" where
  "nosigchld_lua sigchld ops = (case sigchld of
       None \<Rightarrow> returning [lua_pushboolean True] 1
     | Some SIGCHLD \<Rightarrow>
         bnd (upvalue_touserdata 1) (\<lambda>q. case q of
           None \<Rightarrow> undef ''NULL dereference''
         | Some p \<Rightarrow>
             bnd (lua_toboolean 1) (\<lambda>want.
             bnd (load p) (\<lambda>s.
             bnd (if enabled s \<noteq> want then
                    if want then
                      bnd (sys (k_sigaction ops SIGCHLD (noop s))) (\<lambda>r. case r of
                        Some old \<Rightarrow> store p (s\<lparr>saved := old, enabled := True\<rparr>)
                      | None \<Rightarrow> store p (s\<lparr>enabled := False\<rparr>))
                    else
                      bnd (sys (k_sigaction ops SIGCHLD (saved s))) (\<lambda>r.
                        if r \<noteq> None then store p (s\<lparr>enabled := False\<rparr>) else ret ())
                  else ret ()) (\<lambda>_.
             bnd (load p) (\<lambda>s.
               if enabled s = want then returning [lua_pushboolean True] 1
               else returning [lua_pushboolean False, push_strerror] 2))))))"

definition noop_action :: sigaction_t where
  "noop_action = \<lparr>sa_handler = CHandler ''noop_handler'', sa_mask = [], sa_flags = 0\<rparr>"

definition zero_action :: sigaction_t where
  "zero_action = \<lparr>sa_handler = SIG_DFL, sa_mask = [], sa_flags = 0\<rparr>"

definition luaopen_testcase_nosigchld :: "c_int option \<Rightarrow> (nosigchld_t, 'w, nat) comp" where
  "luaopen_testcase_nosigchld sigchld = (case sigchld of
       None \<Rightarrow> returning [lua_pushcfunction ''nosigchld_lua''] 1
     | Some _ \<Rightarrow>
         bnd lua_newuserdata (\<lambda>p.
           returning [store p \<lparr>noop = noop_action, saved = zero_action, enabled = False\<rparr>,
                      lua_pushcclosure ''nosigchld_lua'' 1] 1))"

section \<open>nosigpipe\<close>

text \<open>The module is the boolean itself; the result of \<open>signal\<close> is ignored.\<close>

definition luaopen_testcase_nosigpipe :: "c_int option \<Rightarrow> 'w sig_ops \<Rightarrow> ('u, 'w, nat) comp" where
  "luaopen_testcase_nosigpipe sigpipe ops = (case sigpipe of
       Some SIGPIPE \<Rightarrow>
         bnd (sys (k_signal ops SIGPIPE SIG_IGN)) (\<lambda>_. returning [lua_pushboolean True] 1)
     | None \<Rightarrow> returning [lua_pushboolean False] 1)"

section \<open>One call of nosigchld\<close>

definition state_at :: "('u, 'w) lua \<Rightarrow> nat \<Rightarrow> 'u \<Rightarrow> bool" where
  "state_at L p s \<longleftrightarrow> p < length (uds L) \<and> block (uds L ! p) = Some s"

lemma state_at_frame [simp]:
  "state_at (L\<lparr>stk := x\<rparr>) p s \<longleftrightarrow> state_at L p s" "state_at (L\<lparr>upvals := u\<rparr>) p s \<longleftrightarrow> state_at L p s"
  "state_at (L\<lparr>world := w\<rparr>) p s \<longleftrightarrow> state_at L p s" "state_at (L\<lparr>errno := e\<rparr>) p s \<longleftrightarrow> state_at L p s"
  "state_at (L\<lparr>peak := k\<rparr>) p s \<longleftrightarrow> state_at L p s"
  by (simp_all add: state_at_def)

lemma state_at_set [simp]: "state_at L p s \<Longrightarrow> state_at (set_object p s' L) p s'"
  by (simp add: state_at_def set_object_def)

lemma state_at_unique: "state_at L p s \<Longrightarrow> state_at L p s' \<Longrightarrow> s = s'"
  by (simp add: state_at_def)

lemma load_state [c_body]: "state_at L p s \<Longrightarrow> load p L = (Val s, L)"
  by (simp add: state_at_def userdata_ops)

lemma store_state [c_body]: "state_at L p s \<Longrightarrow> store p s' L = (Val (), set_object p s' L)"
  by (simp add: state_at_def userdata_ops set_object_def)

text \<open>What a call does, as a function of the object, the request and the system.\<close>

definition transition :: "'w sig_ops \<Rightarrow> c_int \<Rightarrow> bool \<Rightarrow> nosigchld_t \<Rightarrow> 'w \<Rightarrow> nosigchld_t \<times> 'w" where
  "transition ops sig want s w =
     (if enabled s = want then (s, w)
      else if want then (case k_sigaction ops sig (noop s) w of
          (w', Inr old) \<Rightarrow> (s\<lparr>saved := old, enabled := True\<rparr>, w')
        | (w', Inl _) \<Rightarrow> (s, w'))
      else (case k_sigaction ops sig (saved s) w of
          (w', Inr _) \<Rightarrow> (s\<lparr>enabled := False\<rparr>, w')
        | (w', Inl _) \<Rightarrow> (s, w')))"

lemma set_object_state [simp]: "state_at L p s \<Longrightarrow> set_object p s L = L"
  by (cases L) (simp add: set_object_def state_at_def list_update_same_conv)

lemma load_set_state [c_body]: "state_at L p s \<Longrightarrow> load p (set_object p x L) = (Val x, set_object p x L)"
  by (auto simp: state_at_def userdata_ops set_object_def)

lemma set_object_upvals [simp]:
  "upvals (set_object p x L) = upvals L"
  "(set_object p x L)\<lparr>upvals := u\<rparr> = set_object p x (L\<lparr>upvals := u\<rparr>)"
  by (simp_all add: set_object_def)

lemma nosigchld_run:
  assumes "state_at L p s" "transition ops sig want s (world L) = (s', w)"
  shows "\<exists>e vs. call_closure (nosigchld_lua (Some sig) ops) (VUd p # us) (VBool want # args) L
     = (Val vs, set_object p s' (L\<lparr>world := w, errno := e\<rparr>))
    \<and> (enabled s' = want \<longrightarrow> vs = [VBool True])
    \<and> (enabled s' \<noteq> want \<longrightarrow> vs = [VBool False, VStr (strerror (rt L) e)])"
proof -
  let ?a = "if want then noop s else saved s"
  obtain w1 r where k: "k_sigaction ops sig ?a (world L) = (w1, r)" by fastforce
  note run = nosigchld_lua_def call_closure_def c_step c_body call_ops stack_ops sys_def truthy_def
    upvalue_touserdata_def [THEN fun_cong] transition_def
  show ?thesis
  proof (cases "enabled s = want")
    case True
    with assms show ?thesis by (intro exI [of _ "errno L"]) (simp add: run)
  next
    case False
    show ?thesis
    proof (cases r)
      case (Inl e)
      show ?thesis
      proof (cases want)
        case True
        with False have "s = s\<lparr>enabled := False\<rparr>" by (cases s) simp
        then have "load p (set_object p (s\<lparr>enabled := False\<rparr>) M) = (Val s, M)"
          "set_object p (s\<lparr>enabled := False\<rparr>) M = M" if "state_at M p s" for M :: "(nosigchld_t, 'a) lua"
          using that by (metis load_state set_object_state)+
        with True Inl False assms k show ?thesis by (intro exI [of _ e]) (simp add: run)
      next
        case no: False
        with Inl False assms k show ?thesis by (intro exI [of _ e]) (simp add: run)
      qed
    next
      case (Inr old)
      with False assms k show ?thesis by (intro exI [of _ "errno L"]) (cases want; simp add: run)
    qed
  qed
qed

section \<open>Any number of calls\<close>

text \<open>Calls with the given requests, one after the other, and whether each returned true.\<close>

fun toggles :: "'w sig_ops \<Rightarrow> c_int \<Rightarrow> nat \<Rightarrow> bool list \<Rightarrow> (nosigchld_t, 'w, bool list) comp" where
  "toggles ops sig p [] = ret []"
| "toggles ops sig p (b # bs) =
     bnd (call_closure (nosigchld_lua (Some sig) ops) [VUd p] [VBool b]) (\<lambda>vs.
     bnd (toggles ops sig p bs) (\<lambda>rs. ret ((hd vs = VBool True) # rs)))"

text \<open>A kernel that lets the action of a signal be changed at any time.\<close>

definition accepting :: "'w sig_ops \<Rightarrow> c_int \<Rightarrow> bool" where
  "accepting ops sig \<longleftrightarrow> (\<forall>a w. \<exists>w' old. k_sigaction ops sig a w = (w', Inr old))"

context sigaction_kernel
begin

text \<open>
  The handler is in force exactly when the object says so, and then the object keeps the
  action that was in force before; the actions of the other signals never change.
\<close>

definition guarded :: "c_int \<Rightarrow> (c_int \<Rightarrow> sigaction_t) \<Rightarrow> 'a \<Rightarrow> nosigchld_t \<Rightarrow> bool" where
  "guarded sig orig w s \<longleftrightarrow> noop s = noop_action
     \<and> action w = (if enabled s then orig(sig := noop_action) else orig)
     \<and> (enabled s \<longrightarrow> saved s = orig sig)"

lemma transition_guarded:
  assumes "guarded sig orig w s" "transition ops sig want s w = (s', w')"
  shows "guarded sig orig w' s'"
proof -
  obtain w1 r where k: "k_sigaction ops sig (if want then noop s else saved s) w = (w1, r)" by fastforce
  show ?thesis
  proof (cases r)
    case (Inl e)
    with k assms sigaction_err show ?thesis
      by (auto simp: transition_def guarded_def split: if_splits)
  next
    case (Inr old)
    with k assms sigaction_ok show ?thesis
      by (fastforce simp: transition_def guarded_def split: if_splits)
  qed
qed

lemma toggles_guarded:
  assumes "state_at L p s" "guarded sig orig (world L) s" "bs \<noteq> []"
  shows "\<exists>rs s' L'. toggles ops sig p bs L = (Val rs, L') \<and> state_at L' p s'
    \<and> guarded sig orig (world L') s' \<and> length rs = length bs \<and> (last rs \<longrightarrow> enabled s' = last bs)
    \<and> (accepting ops sig \<longrightarrow> (\<forall>r \<in> set rs. r))"
  using assms
proof (induction bs arbitrary: L s)
  case Nil
  then show ?case by simp
next
  case (Cons b bs)
  obtain s1 w where tr: "transition ops sig b s (world L) = (s1, w)" by fastforce
  from nosigchld_run [OF Cons.prems(1) tr, of "[]" "[]"] obtain e vs where
    c: "call_closure (nosigchld_lua (Some sig) ops) [VUd p] [VBool b] L
      = (Val vs, set_object p s1 (L\<lparr>world := w, errno := e\<rparr>))"
    and v: "enabled s1 \<noteq> b \<longrightarrow> vs = [VBool False, VStr (strerror (rt L) e)]"
      "enabled s1 = b \<longrightarrow> vs = [VBool True]" by auto
  have ok: "enabled s1 = b" if always: "accepting ops sig"
  proof -
    from always [unfolded accepting_def] obtain w' old where
      "k_sigaction ops sig (if b then noop s else saved s) (world L) = (w', Inr old)" by blast
    with tr show ?thesis by (auto simp: transition_def split: if_splits)
  qed
  let ?L1 = "set_object p s1 (L\<lparr>world := w, errno := e\<rparr>)"
  have 1: "state_at ?L1 p s1" "guarded sig orig (world ?L1) s1"
    using Cons.prems(1) transition_guarded [OF Cons.prems(2) tr] by auto
  show ?case
  proof (cases "bs = []")
    case True
    with c v 1 ok show ?thesis by (auto simp: bnd_run ret_def)
  next
    case False
    from Cons.IH [OF 1 False] obtain rs s' L' where
      "toggles ops sig p bs ?L1 = (Val rs, L')" "state_at L' p s'" "guarded sig orig (world L') s'"
      "length rs = length bs" "last rs \<longrightarrow> enabled s' = last bs"
      "accepting ops sig \<longrightarrow> (\<forall>r \<in> set rs. r)" by auto
    with c v ok False show ?thesis by (auto simp: bnd_run ret_def)
  qed
qed

end

context disposition_kernel
begin

lemma nosigpipe_effect:
  "case k_signal ops sig SIG_IGN (world L) of
      (w, Inr _) \<Rightarrow> call (luaopen_testcase_nosigpipe (Some sig) ops) [] L = (Val [VBool True], L\<lparr>world := w\<rparr>)
        \<and> sa_handler (action w sig) = SIG_IGN \<and> (\<forall>s. s \<noteq> sig \<longrightarrow> action w s = action (world L) s)
    | (w, Inl e) \<Rightarrow> call (luaopen_testcase_nosigpipe (Some sig) ops) [] L
          = (Val [VBool True], L\<lparr>world := w, errno := e\<rparr>)
        \<and> action w = action (world L)"
  using signal_err [of sig SIG_IGN "world L"] signal_ok [of sig SIG_IGN "world L"]
  by (auto simp: luaopen_testcase_nosigpipe_def c_step call_ops stack_ops sys_def split: prod.splits sum.splits)

end

section \<open>Properties\<close>

text \<open>C6. Opening the module gives a closure over a fresh state: disabled, with the handler that
does nothing (no flags, so that \<open>poll\<close> is interrupted) ready to be installed. After any calls of
it, whichever of them failed, if the last one returned true then the handler in force for
SIGCHLD is the one asked for: the no-op handler, or exactly the action from before the module
was opened; and the actions of all other signals are as they were. When the kernel accepts
every change, every call returns true.\<close>

theorem nosigchld_restores:
  assumes "sigaction_kernel ops action" and "bs \<noteq> []"
  shows "\<exists>L1 rs L2. luaopen_testcase_nosigchld (Some sig) (L\<lparr>stk := []\<rparr>) = (Val 1, L1)
    \<and> stk L1 = [VCFun ''nosigchld_lua'' [VUd (length (uds L))]] \<and> world L1 = world L
    \<and> toggles ops sig (length (uds L)) bs L1 = (Val rs, L2) \<and> length rs = length bs
    \<and> (last rs \<longrightarrow> action (world L2) =
        (if last bs then (action (world L))(sig := noop_action) else action (world L)))
    \<and> (accepting ops sig \<longrightarrow> (\<forall>r \<in> set rs. r))"
proof -
  let ?s = "\<lparr>noop = noop_action, saved = zero_action, enabled = False\<rparr>" and ?p = "length (uds L)"
  let ?L1 = "L\<lparr>stk := [VCFun ''nosigchld_lua'' [VUd ?p]], peak := max (peak L) 1, uds := uds L @ [\<lparr>meta = None, block = Some ?s\<rparr>]\<rparr>"
  have open_: "luaopen_testcase_nosigchld (Some sig) (L\<lparr>stk := []\<rparr>) = (Val 1, ?L1)"
    by (simp add: luaopen_testcase_nosigchld_def c_step userdata_ops nth_append list_update_append)
  have "state_at ?L1 ?p ?s" by (simp add: state_at_def)
  moreover have "sigaction_kernel.guarded action sig (action (world L)) (world ?L1) ?s"
    by (simp add: sigaction_kernel.guarded_def [OF assms(1)])
  ultimately obtain rs s' L2 where
    "toggles ops sig ?p bs ?L1 = (Val rs, L2)" "length rs = length bs"
    "sigaction_kernel.guarded action sig (action (world L)) (world L2) s'" "last rs \<longrightarrow> enabled s' = last bs"
    "accepting ops sig \<longrightarrow> (\<forall>r \<in> set rs. r)"
    using sigaction_kernel.toggles_guarded [OF assms(1), of ?L1 ?p ?s sig "action (world L)" bs] assms(2) by auto
  with open_ show ?thesis
    by (intro exI [of _ ?L1] exI [of _ rs] exI [of _ L2]) (simp add: sigaction_kernel.guarded_def [OF assms(1)])
qed

lemma nosigchld_restores_witness:
  "\<exists>L1 rs L2. luaopen_testcase_nosigchld (Some 17) (lua0 sig_world0) = (Val 1, L1)
    \<and> toggles ref_sig_ops 17 0 [True, True, False] L1 = (Val rs, L2)
    \<and> (\<forall>r \<in> set rs. r) \<and> actions (world L2) = (\<lambda>_. default_action)"
proof -
  have s: "(lua0 sig_world0 :: (nosigchld_t, sig_world) lua)\<lparr>stk := []\<rparr> = lua0 sig_world0" by (simp add: lua0_def)
  have a: "actions sig_world0 = (\<lambda>_. default_action)" by (simp add: sig_world0_def)
  have ok: "accepting ref_sig_ops 17"
    by (simp add: accepting_def ref_sig_ops_def ref_sigaction_def catchable_def)
  obtain L1 rs L2 where r: "luaopen_testcase_nosigchld (Some 17) (lua0 sig_world0) = (Val 1, L1)"
    "toggles ref_sig_ops 17 0 [True, True, False] L1 = (Val rs, L2)" "length rs = 3"
    "last rs \<longrightarrow> actions (world L2) = (\<lambda>_. default_action)" "\<forall>r \<in> set rs. r"
    using nosigchld_restores [OF ref_sig.sigaction_kernel_axioms, of "[True, True, False]" 17 "lua0 sig_world0"] ok
    by (auto simp: a s simp del: toggles.simps)
  then have "last rs" by (cases rs rule: rev_cases) auto
  with r show ?thesis by blast
qed

text \<open>C35. Loading \<open>nosigpipe\<close> asks the kernel once to ignore SIGPIPE: when it agrees SIGPIPE is
ignored and no other signal is touched, when it refuses no action has changed; the module is
true in both cases.\<close>

theorem nosigpipe_ignores:
  assumes "disposition_kernel ops action"
  shows "case k_signal ops sig SIG_IGN (world L) of
      (w, Inr _) \<Rightarrow> call (luaopen_testcase_nosigpipe (Some sig) ops) [] L = (Val [VBool True], L\<lparr>world := w\<rparr>)
        \<and> sa_handler (action w sig) = SIG_IGN \<and> (\<forall>s. s \<noteq> sig \<longrightarrow> action w s = action (world L) s)
    | (w, Inl e) \<Rightarrow> call (luaopen_testcase_nosigpipe (Some sig) ops) [] L
          = (Val [VBool True], L\<lparr>world := w, errno := e\<rparr>)
        \<and> action w = action (world L)"
  using assms by (rule disposition_kernel.nosigpipe_effect)

lemma nosigpipe_ignores_witness:
  "\<exists>w. call (luaopen_testcase_nosigpipe (Some 13) ref_sig_ops) [] (lua0 sig_world0 :: (unit, sig_world) lua)
      = (Val [VBool True], lua0 w) \<and> sa_handler (actions w 13) = SIG_IGN"
proof -
  obtain w where "k_signal ref_sig_ops 13 SIG_IGN sig_world0 = (w, Inr SIG_DFL)"
    by (simp add: ref_sig_ops_def ref_signal_def catchable_def sig_world0_def default_action_def)
  then show ?thesis
    using nosigpipe_ignores [OF ref_sig.disposition_kernel_axioms, of 13 "lua0 sig_world0 :: (unit, sig_world) lua"]
    by auto
qed

end
