(* ===== verification/Float_Round.thy ===== *)
theory Float_Round
  imports Prelude "HOL-Library.Log_Nat"
begin

text \<open>
  Binary floating-point rounding to nearest, ties to even, with \<open>p\<close> bits of precision, as
  an executable function on the rationals: what an assignment, a conversion or a division
  of the C program does in \<open>double\<close> (\<open>p = 53\<close>) and \<open>long double\<close> (\<open>p\<close> is the platform's
  \<open>LDBL_MANT_DIG\<close>: 53, 64 or 113). The timers work with values between \<open>2 ^ - 84\<close> and
  \<open>2 ^ 64\<close>, far from overflow and from the subnormal range of every one of these formats,
  so the exponent is not bounded here.
\<close>

section \<open>Rounding to an integer\<close>

definition round_half_even :: "rat \<Rightarrow> int" where
  "round_half_even x =
     (let f = \<lfloor>x\<rfloor>; d = x - of_int f
      in if d < 1 / 2 then f else if 1 / 2 < d then f + 1
         else if even f then f else f + 1)"

lemma round_half_even_of_int [simp]: "round_half_even (of_int n) = n"
  by (simp add: round_half_even_def)

lemma round_half_even_floor: "\<lfloor>x\<rfloor> \<le> round_half_even x" "round_half_even x \<le> \<lfloor>x\<rfloor> + 1"
  by (simp_all add: round_half_even_def Let_def)

lemma round_half_even_error: "\<bar>of_int (round_half_even x) - x\<bar> \<le> 1 / 2"
proof -
  define d where "d = x - of_int \<lfloor>x\<rfloor>"
  have "0 \<le> d" "d < 1" unfolding d_def by linarith+
  moreover have "round_half_even x = \<lfloor>x\<rfloor> \<and> d \<le> 1 / 2 \<or> round_half_even x = \<lfloor>x\<rfloor> + 1 \<and> 1 / 2 \<le> d"
    by (auto simp: round_half_even_def Let_def d_def)
  ultimately show ?thesis by (auto simp: d_def)
qed

lemma round_half_even_mono:
  assumes "x \<le> y"
  shows "round_half_even x \<le> round_half_even y"
proof (cases "\<lfloor>x\<rfloor> = \<lfloor>y\<rfloor>")
  case True
  with assms show ?thesis by (auto simp: round_half_even_def Let_def)
next
  case False
  with assms have "\<lfloor>x\<rfloor> + 1 \<le> \<lfloor>y\<rfloor>" using floor_mono [OF assms] by linarith
  then show ?thesis using round_half_even_floor [of x] round_half_even_floor [of y] by linarith
qed

section \<open>The binary exponent\<close>

definition exp2 :: "rat \<Rightarrow> int" where
  "exp2 x = (case quotient_of x of (a, b) \<Rightarrow>
     let e = bitlen a - bitlen b in if 2 powi e \<le> x then e else e - 1)"

lemma bitlen_powi:
  assumes "0 < a"
  shows "2 powi (bitlen a - 1) \<le> (of_int a :: rat)" and "(of_int a :: rat) < 2 powi bitlen a"
proof -
  from assms have l: "0 < bitlen a" by (simp add: bitlen_def floorlog_eq_zero_iff zero_less_iff_neq_zero)
  from bitlen_bounds [OF assms]
  have "(of_int (2 ^ nat (bitlen a - 1)) :: rat) \<le> of_int a"
    and "(of_int a :: rat) < of_int (2 ^ nat (bitlen a))" by (simp_all only: of_int_le_iff of_int_less_iff)
  with l show "2 powi (bitlen a - 1) \<le> (of_int a :: rat)" and "(of_int a :: rat) < 2 powi bitlen a"
    by (simp_all add: power_int_def)
qed

lemma powi2_less: "(2 :: rat) powi a < 2 powi b \<Longrightarrow> a < b"
  using power_int_increasing [of b a "2 :: rat"] by (rule_tac ccontr) auto

lemma exp2_bounds:
  assumes "0 < x"
  shows "2 powi exp2 x \<le> x" and "x < 2 powi (exp2 x + 1)"
proof -
  obtain a b where q: "quotient_of x = (a, b)" by fastforce
  then have x: "x = of_int a / of_int b" and b: "0 < b"
    by (simp_all add: quotient_of_div quotient_of_denom_pos)
  with assms have a: "0 < a" by (simp add: zero_less_divide_iff)
  let ?e = "bitlen a - bitlen b"
  have "x < 2 powi bitlen a / 2 powi (bitlen b - 1)"
    unfolding x by (rule frac_less) (use a b bitlen_powi [OF a] bitlen_powi [OF b] in auto)
  then have up: "x < 2 powi (?e + 1)" by (simp add: power_int_diff power_int_add field_simps)
  have "2 powi (bitlen a - 1) / 2 powi bitlen b \<le> x"
    unfolding x by (rule frac_le) (use a b bitlen_powi [OF a] bitlen_powi [OF b] in auto)
  then have lo: "2 powi (?e - 1) \<le> x" by (simp add: power_int_diff power_int_add field_simps)
  show "2 powi exp2 x \<le> x" and "x < 2 powi (exp2 x + 1)"
    using up lo by (simp_all add: exp2_def q Let_def not_le)
qed

lemma exp2_mono:
  assumes "0 < x" "x \<le> y"
  shows "exp2 x \<le> exp2 y"
proof (rule ccontr)
  assume "\<not> exp2 x \<le> exp2 y"
  then have "2 powi (exp2 y + 1) \<le> (2 powi exp2 x :: rat)" by (intro power_int_increasing) auto
  with exp2_bounds [of x] exp2_bounds [of y] assms show False by linarith
qed

section \<open>Rounding to \<open>p\<close> bits\<close>

definition fl_pos :: "nat \<Rightarrow> rat \<Rightarrow> rat" where
  "fl_pos p x = (let u = 2 powi (exp2 x + 1 - int p) in of_int (round_half_even (x / u)) * u)"

definition fl :: "nat \<Rightarrow> rat \<Rightarrow> rat" where
  "fl p x = (if x = 0 then 0 else if 0 < x then fl_pos p x else - fl_pos p (- x))"

definition representable :: "nat \<Rightarrow> rat \<Rightarrow> bool" where
  "representable p x \<longleftrightarrow> (\<exists>m e. x = of_int m * 2 powi e \<and> \<bar>m\<bar> < 2 ^ p)"

lemma fl_pos_exp_bounds:
  assumes "0 < p" "0 < x"
  shows "2 powi exp2 x \<le> fl_pos p x" and "fl_pos p x \<le> 2 powi (exp2 x + 1)"
proof -
  define u where "u = (2 :: rat) powi (exp2 x + 1 - int p)"
  have u: "0 < u" by (simp add: u_def)
  have lo: "2 powi exp2 x = of_int (2 ^ (p - 1)) * u"
    using assms by (simp add: u_def power_int_diff power_int_add of_nat_diff flip: power_int_of_nat)
  have hi: "2 powi (exp2 x + 1) = of_int (2 ^ p) * u"
    by (simp add: u_def power_int_diff flip: power_int_of_nat)
  have "of_int (2 ^ (p - 1)) \<le> x / u" "x / u \<le> of_int (2 ^ p)"
    using exp2_bounds [OF assms(2)] u lo hi by (simp_all add: field_simps)
  then have "2 ^ (p - 1) \<le> round_half_even (x / u)" "round_half_even (x / u) \<le> 2 ^ p"
    using round_half_even_mono [of "of_int (2 ^ (p - 1))" "x / u"]
      round_half_even_mono [of "x / u" "of_int (2 ^ p)"] round_half_even_of_int by metis+
  then have "of_int (2 ^ (p - 1)) * u \<le> of_int (round_half_even (x / u)) * u"
    "of_int (round_half_even (x / u)) * u \<le> of_int (2 ^ p) * u"
    using u by (simp_all only: mult_le_cancel_right_pos of_int_le_iff)
  with lo hi show "2 powi exp2 x \<le> fl_pos p x" and "fl_pos p x \<le> 2 powi (exp2 x + 1)"
    by (simp_all add: fl_pos_def Let_def u_def)
qed

lemma fl_pos_mono:
  assumes "0 < p" "0 < x" "x \<le> y"
  shows "fl_pos p x \<le> fl_pos p y"
proof (cases "exp2 x = exp2 y")
  case True
  have "x / 2 powi (exp2 x + 1 - int p) \<le> y / 2 powi (exp2 x + 1 - int p)"
    using assms(3) by (simp add: divide_right_mono)
  from round_half_even_mono [OF this] True show ?thesis
    by (simp add: fl_pos_def Let_def)
next
  case False
  with exp2_mono [OF assms(2,3)] have "2 powi (exp2 x + 1) \<le> (2 powi exp2 y :: rat)"
    by (intro power_int_increasing) auto
  with fl_pos_exp_bounds(2) [OF assms(1,2)] fl_pos_exp_bounds(1) [of p y] assms show ?thesis
    by linarith
qed

lemma fl_pos_error:
  assumes "0 < x"
  shows "\<bar>fl_pos p x - x\<bar> \<le> x / 2 ^ p"
proof -
  define u where "u = (2 :: rat) powi (exp2 x + 1 - int p)"
  have u: "0 < u" by (simp add: u_def)
  have "fl_pos p x - x = (of_int (round_half_even (x / u)) - x / u) * u"
    using u by (simp add: fl_pos_def Let_def u_def field_simps)
  then have "\<bar>fl_pos p x - x\<bar> \<le> 1 / 2 * u"
    using round_half_even_error [of "x / u"] u by (simp add: abs_mult mult_right_mono)
  also have "1 / 2 * u = 2 powi exp2 x / 2 ^ p"
    by (simp add: u_def power_int_diff power_int_add)
  also have "\<dots> \<le> x / 2 ^ p"
    using exp2_bounds(1) [OF assms] by (simp add: divide_right_mono)
  finally show ?thesis .
qed


lemma fl_pos_exact:
  assumes "0 < x" and "representable p x"
  shows "fl_pos p x = x"
proof -
  from assms(2) obtain m e where x: "x = of_int m * 2 powi e" and m: "\<bar>m\<bar> < 2 ^ p"
    by (auto simp: representable_def)
  have "(of_int m :: rat) < of_int (2 ^ p)" using m by (simp only: of_int_less_iff)
  then have "x < 2 powi (int p + e)"
    using x by (simp add: power_int_add)
  with exp2_bounds(1) [OF assms(1)] have "2 powi exp2 x < (2 powi (int p + e) :: rat)"
    by linarith
  then have k: "0 \<le> e - (exp2 x + 1 - int p)" by (drule_tac powi2_less) simp
  have "x / 2 powi (exp2 x + 1 - int p) = of_int m * 2 powi (e - (exp2 x + 1 - int p))"
    using x by (simp add: power_int_diff)
  also have "\<dots> = of_int (m * 2 ^ nat (e - (exp2 x + 1 - int p)))"
    using k by (simp add: power_int_def)
  finally have "of_int (round_half_even (x / 2 powi (exp2 x + 1 - int p))) = x / 2 powi (exp2 x + 1 - int p)"
    by (simp only: round_half_even_of_int)
  then show ?thesis by (simp add: fl_pos_def Let_def)
qed

lemma fl_pos_positive: "0 < p \<Longrightarrow> 0 < x \<Longrightarrow> 0 < fl_pos p x"
  using fl_pos_exp_bounds(1) [of p x] zero_less_power_int [of "2 :: rat" "exp2 x"] by linarith

lemma fl_mono:
  assumes "0 < p" "x \<le> y"
  shows "fl p x \<le> fl p y"
  using assms fl_pos_mono [of p x y] fl_pos_mono [of p "- y" "- x"]
    fl_pos_positive [of p y] fl_pos_positive [of p "- x"]
  by (fastforce simp: fl_def)

lemma representable_minus: "representable p x \<Longrightarrow> representable p (- x)"
  unfolding representable_def
  by (elim exE conjE, rule_tac x = "- m" in exI, rule_tac x = e in exI) simp

lemma fl_exact: "representable p x \<Longrightarrow> fl p x = x"
  using fl_pos_exact [of x p] fl_pos_exact [of "- x" p] by (auto simp: fl_def representable_minus)

lemma fl_error: "\<bar>fl p x - x\<bar> \<le> \<bar>x\<bar> / 2 ^ p"
proof (cases "x < 0")
  case True
  have "\<bar>- fl_pos p (- x) - x\<bar> = \<bar>fl_pos p (- x) - - x\<bar>" by linarith
  with True fl_pos_error [of "- x" p] show ?thesis by (simp add: fl_def)
next
  case False
  then show ?thesis using fl_pos_error [of x p] by (auto simp: fl_def)
qed

lemma representable_int: "\<bar>n\<bar> < 2 ^ p \<Longrightarrow> representable p (of_int n)"
  unfolding representable_def by (rule exI [of _ n], rule exI [of _ 0]) simp

section \<open>What the code relies on of a floating-point format\<close>

text \<open>
  The interface between the timers and the formats: a rounding is monotone, exact on the
  numbers of the format, and off by at most half a unit in the last place.
\<close>

locale rounding =
  fixes p :: nat and rnd :: "rat \<Rightarrow> rat"
  assumes rnd_mono: "x \<le> y \<Longrightarrow> rnd x \<le> rnd y"
    and rnd_exact: "representable p x \<Longrightarrow> rnd x = x"
    and rnd_error: "\<bar>rnd x - x\<bar> \<le> \<bar>x\<bar> / 2 ^ p"
begin

lemma rnd_int: "\<bar>n\<bar> < 2 ^ p \<Longrightarrow> rnd (of_int n) = of_int n"
  by (simp add: rnd_exact representable_int)

lemma rnd_0: "rnd 0 = 0"
  using rnd_int [of 0] by simp

lemma rnd_ge: "\<bar>n\<bar> < 2 ^ p \<Longrightarrow> of_int n \<le> x \<Longrightarrow> of_int n \<le> rnd x"
  using rnd_mono [of "of_int n" x] rnd_int by simp

lemma rnd_le: "\<bar>n\<bar> < 2 ^ p \<Longrightarrow> x \<le> of_int n \<Longrightarrow> rnd x \<le> of_int n"
  using rnd_mono [of x "of_int n"] rnd_int by simp

text \<open>Comparing a rounded integer with an integer of the format gives the exact answer.\<close>

lemma rnd_int_ge_iff:
  assumes "\<bar>n\<bar> < 2 ^ p" "\<bar>n - 1\<bar> < 2 ^ p"
  shows "of_int n \<le> rnd (of_int k) \<longleftrightarrow> n \<le> k"
proof
  assume "n \<le> k"
  with rnd_ge [OF assms(1), of "of_int k"] show "of_int n \<le> rnd (of_int k)" by simp
next
  assume *: "of_int n \<le> rnd (of_int k)"
  show "n \<le> k"
  proof (rule ccontr)
    assume "\<not> n \<le> k"
    then have "(of_int k :: rat) \<le> of_int (n - 1)" by (simp only: of_int_le_iff)
    from rnd_le [OF assms(2) this] * show False by simp
  qed
qed

lemma rnd_upper: "0 \<le> x \<Longrightarrow> rnd x \<le> x * (1 + 1 / 2 ^ p)"
  using rnd_error [of x] by (simp add: abs_le_iff algebra_simps)

lemma rnd_lower: "0 \<le> x \<Longrightarrow> x * (1 - 1 / 2 ^ p) \<le> rnd x"
  using rnd_error [of x] by (simp add: abs_le_iff algebra_simps)

lemma rnd_nonneg: "0 \<le> x \<Longrightarrow> 0 \<le> rnd x"
  using rnd_ge [of 0 x] by simp

end

lemma fl_rounding: "0 < p \<Longrightarrow> rounding p (fl p)"
  by unfold_locales (simp_all add: fl_mono fl_exact fl_error)

interpretation dbl: rounding 53 "fl 53"
  by (rule fl_rounding) simp

interpretation x87: rounding 64 "fl 64"
  by (rule fl_rounding) simp

interpretation quad: rounding 113 "fl 113"
  by (rule fl_rounding) simp

end
