(* ===== verification/Timer.thy ===== *)
theory Timer
  imports Lua_Api Float_Round
begin

text \<open>
  The module \<open>testcase.timer\<close> (src/timer.c): timer objects over a monotonic clock, the
  choice of a display unit, and the sleeping functions.
\<close>

section \<open>The clock\<close>

record timespec =
  tv_sec :: i64
  tv_nsec :: i64

text \<open>
  What the module uses of the system: \<open>clock_gettime(CLOCK_MONOTONIC)\<close>, on macOS instead
  \<open>mach_absolute_time\<close> with its timebase \<open>numer/denom\<close>, \<open>usleep\<close> and \<open>nanosleep\<close>. The
  field \<open>mach\<close> says which of the two clocks the module is compiled for.
\<close>

record 'w timer_ops =
  mach :: "(c_int \<times> c_int) option"
  k_mach_absolute_time :: "'w \<Rightarrow> 'w \<times> u64"
  k_clock_gettime :: "('w, timespec) syscall"
  k_usleep :: "c_int \<Rightarrow> ('w, unit) syscall"
  k_nanosleep :: "timespec \<Rightarrow> ('w, unit) syscall"

definition NSEC_IN_SEC :: int where
  "NSEC_IN_SEC = 1000000000"

text \<open>\<open>ts.tv_sec * NSEC_IN_SEC\<close> is signed; it stays far below \<open>2 ^ 63\<close>, as \<open>ns / NSEC_IN_SEC < 2 ^ 35\<close>.\<close>

definition getnsec_ex_mach :: "c_int \<Rightarrow> c_int \<Rightarrow> 'w timer_ops \<Rightarrow> ('u, 'w, timespec option) comp" where
  "getnsec_ex_mach numer denom ops = (\<lambda>L. case k_mach_absolute_time ops (world L) of
     (w, t) \<Rightarrow>
       if denom = 0 then undef ''division by zero'' (L\<lparr>world := w\<rparr>)
       else let ns = t * ucast numer div ucast denom;
           sec = ns div of_int NSEC_IN_SEC;
           nsec = ns - sec * of_int NSEC_IN_SEC
       in (Val (Some \<lparr>tv_sec = sec, tv_nsec = nsec\<rparr>), L\<lparr>world := w\<rparr>))"

definition getnsec_ex_posix :: "'w timer_ops \<Rightarrow> ('u, 'w, timespec option) comp" where
  "getnsec_ex_posix ops = sys (k_clock_gettime ops)"

definition getnsec_ex :: "'w timer_ops \<Rightarrow> ('u, 'w, timespec option) comp" where
  "getnsec_ex ops = (case mach ops of
       Some (numer, denom) \<Rightarrow> getnsec_ex_mach numer denom ops
     | None \<Rightarrow> getnsec_ex_posix ops)"

definition nsec_of :: "timespec \<Rightarrow> u64" where
  "nsec_of ts = tv_sec ts * of_int NSEC_IN_SEC + tv_nsec ts"

definition getnsec :: "'w timer_ops \<Rightarrow> ('u, 'w, u64 option) comp" where
  "getnsec ops = bnd (getnsec_ex ops) (\<lambda>r. case r of
       None \<Rightarrow> ret None
     | Some ts \<Rightarrow> ret (Some (nsec_of ts)))"

section \<open>Timer objects\<close>

definition TESTCASE_TIMER_MT :: string where
  "TESTCASE_TIMER_MT = ''testcase.timer''"

record testcase_timer_t =
  total :: u64
  start :: u64

text \<open>
  \<open>nsec2utime\<close> compares and divides in \<open>long double\<close>, which has \<open>ldm\<close> bits
  (\<open>LDBL_MANT_DIG\<close>), and hands the quotient to Lua as a \<open>double\<close>.
\<close>

definition to_ld :: "nat \<Rightarrow> u64 \<Rightarrow> rat" where
  "to_ld ldm ns = fl ldm (of_int (uint ns))"

definition to_double :: "rat \<Rightarrow> lua_number" where
  "to_double x = Fin (fl 53 x)"

definition nsec2utime :: "nat \<Rightarrow> u64 \<Rightarrow> ('u, 'w, nat) comp" where
  "nsec2utime ldm ns =
     (let us = 1000; ms = us * 1000; sec = ms * 1000; min = sec * 60; x = to_ld ldm ns
      in if min \<le> x then
           returning [lua_pushnumber (to_double (fl ldm (x / min))),
                      lua_pushstring ''%.3f m'', lua_pushstring ''m''] 3
         else if sec \<le> x then
           returning [lua_pushnumber (to_double (fl ldm (x / sec))),
                      lua_pushstring ''%.3f s'', lua_pushstring ''s''] 3
         else if ms \<le> x then
           returning [lua_pushnumber (to_double (fl ldm (x / ms))),
                      lua_pushstring ''%.3f ms'', lua_pushstring ''ms''] 3
         else if us \<le> x then
           returning [lua_pushnumber (to_double (fl ldm (x / us))),
                      lua_pushstring ''%.3f us'', lua_pushstring ''us''] 3
         else
           returning [lua_pushnumber (to_double x),
                      lua_pushstring ''%d ns'', lua_pushstring ''ns''] 3)"

definition get_elapsed_lua :: "nat \<Rightarrow> 'w timer_ops \<Rightarrow> bool \<Rightarrow> (testcase_timer_t, 'w, nat) comp" where
  "get_elapsed_lua ldm ops in_sec =
     bnd (luaL_checkudata 1 TESTCASE_TIMER_MT) (\<lambda>p.
     bnd (getnsec ops) (\<lambda>r. case r of
       None \<Rightarrow> returning [lua_pushnil, push_strerror] 2
     | Some ns \<Rightarrow>
         bnd (load p) (\<lambda>t.
           if in_sec then
             returning [lua_pushnumber (Fin (fl 53 (fl 53 (of_int (uint (ns - start t))) / of_int NSEC_IN_SEC)))] 1
           else nsec2utime ldm (ns - start t))))"

definition elapsed_lua :: "nat \<Rightarrow> 'w timer_ops \<Rightarrow> (testcase_timer_t, 'w, nat) comp" where
  "elapsed_lua ldm ops = get_elapsed_lua ldm ops False"

definition elapsed_sec_lua :: "nat \<Rightarrow> 'w timer_ops \<Rightarrow> (testcase_timer_t, 'w, nat) comp" where
  "elapsed_sec_lua ldm ops = get_elapsed_lua ldm ops True"

definition stop_lua :: "nat \<Rightarrow> 'w timer_ops \<Rightarrow> (testcase_timer_t, 'w, nat) comp" where
  "stop_lua ldm ops =
     bnd (luaL_checkudata 1 TESTCASE_TIMER_MT) (\<lambda>p.
     bnd (getnsec ops) (\<lambda>r. case r of
       None \<Rightarrow> returning [lua_pushnil, push_strerror] 2
     | Some ns \<Rightarrow>
         bnd (load p) (\<lambda>t. let elapsed = ns - start t in
         bnd (store p (t\<lparr>total := total t + elapsed, start := ns\<rparr>)) (\<lambda>_.
           nsec2utime ldm elapsed))))"

definition start_lua :: "'w timer_ops \<Rightarrow> (testcase_timer_t, 'w, nat) comp" where
  "start_lua ops =
     bnd (luaL_checkudata 1 TESTCASE_TIMER_MT) (\<lambda>p.
     bnd (getnsec ops) (\<lambda>r. case r of
       None \<Rightarrow> returning [lua_pushboolean False, push_strerror] 2
     | Some ns \<Rightarrow>
         bnd (load p) (\<lambda>t. returning [store p (t\<lparr>start := ns\<rparr>), lua_pushboolean True] 1)))"

definition total_lua :: "nat \<Rightarrow> (testcase_timer_t, 'w, nat) comp" where
  "total_lua ldm =
     bnd (luaL_checkudata 1 TESTCASE_TIMER_MT) (\<lambda>p.
     bnd (load p) (\<lambda>t. nsec2utime ldm (total t)))"

definition reset_lua :: "(testcase_timer_t, 'w, nat) comp" where
  "reset_lua =
     bnd (luaL_checkudata 1 TESTCASE_TIMER_MT) (\<lambda>p.
       returning [store p \<lparr>total = 0, start = 0\<rparr>] 0)"

definition timer_tostring_lua :: "(testcase_timer_t, 'w, nat) comp" where
  "timer_tostring_lua = returning [push_udname TESTCASE_TIMER_MT 1] 1"

definition timer_new_lua :: "(testcase_timer_t, 'w, nat) comp" where
  "timer_new_lua =
     bnd lua_newuserdata (\<lambda>p.
       returning [store p \<lparr>total = 0, start = 0\<rparr>, luaL_getmetatable TESTCASE_TIMER_MT,
                  lua_setmetatable] 1)"

section \<open>Sleeping and the time of day\<close>

definition usleep_lua :: "'w timer_ops \<Rightarrow> ('u, 'w, nat) comp" where
  "usleep_lua ops =
     bnd (luaL_checkinteger 1) (\<lambda>v. let usec = narrow v in
     bnd (sys (k_usleep ops usec)) (\<lambda>_. ret 0))"

text \<open>The conversion of a double to an integer type truncates towards zero.\<close>

definition trunc :: "rat \<Rightarrow> int" where
  "trunc x = (if 0 \<le> x then \<lfloor>x\<rfloor> else \<lceil>x\<rceil>)"

text \<open>
  The conversion to \<open>time_t\<close> is undefined outside its range and for an infinity or NaN.
  \<open>sec - ts.tv_sec\<close> converts \<open>tv_sec\<close> back to \<open>double\<close>.
\<close>

definition sleep_spec :: "rat \<Rightarrow> timespec" where
  "sleep_spec q = (let s = trunc q in
     \<lparr>tv_sec = of_int s,
      tv_nsec = of_int (trunc (fl 53 (fl 53 (q - fl 53 (of_int s)) * of_int NSEC_IN_SEC)))\<rparr>)"

definition sleep_lua :: "'w timer_ops \<Rightarrow> ('u, 'w, nat) comp" where
  "sleep_lua ops =
     bnd (luaL_checknumber (fl 53) 1) (\<lambda>sec. case sec of
       Fin q \<Rightarrow>
         if - (2 ^ 63) \<le> trunc q \<and> trunc q < 2 ^ 63
         then bnd (sys (k_nanosleep ops (sleep_spec q))) (\<lambda>_. ret 0)
         else undef ''conversion out of the range of time_t''
     | _ \<Rightarrow> undef ''conversion out of the range of time_t'')"

definition nanotime_lua :: "'w timer_ops \<Rightarrow> ('u, 'w, nat) comp" where
  "nanotime_lua ops =
     bnd (getnsec_ex ops) (\<lambda>r. case r of
       None \<Rightarrow> returning [lua_pushnil, push_strerror] 2
     | Some ts \<Rightarrow> returning [lua_pushnumber (Fin (fl 53 (fl 53 (of_int (sint (tv_sec ts)))
           + fl 53 (fl 53 (of_int (sint (tv_nsec ts))) / of_int NSEC_IN_SEC))))] 1)"

definition timer_mmethods :: "(string \<times> string) list" where
  "timer_mmethods = [(''__tostring'', ''tostring_lua'')]"

definition timer_methods :: "(string \<times> string) list" where
  "timer_methods = [(''reset'', ''reset_lua''), (''total'', ''total_lua''), (''start'', ''start_lua''),
     (''stop'', ''stop_lua''), (''elapsed'', ''elapsed_lua''), (''elapsed_sec'', ''elapsed_sec_lua'')]"

definition luaopen_testcase_timer :: "('u, 'w, nat) comp" where
  "luaopen_testcase_timer =
     bnd (luaL_newmetatable TESTCASE_TIMER_MT) (\<lambda>created.
     bnd (if created then
            seqs [reg_rawset timer_mmethods,
                  lua_pushstring ''__index'', lua_newtable, reg_rawset timer_methods,
                  lua_rawset (- 3)]
          else ret ()) (\<lambda>_.
       returning [lua_settop 0, lua_newtable,
         lua_pushstring ''new'', lua_pushcfunction ''new_lua'', lua_rawset (- 3),
         lua_pushstring ''usleep'', lua_pushcfunction ''usleep_lua'', lua_rawset (- 3),
         lua_pushstring ''sleep'', lua_pushcfunction ''sleep_lua'', lua_rawset (- 3),
         lua_pushstring ''nanotime'', lua_pushcfunction ''nanotime_lua'', lua_rawset (- 3)] 1))"

section \<open>Reading the clock\<close>

text \<open>Whichever clock is compiled in, \<open>getnsec\<close> is one reading in nanoseconds.\<close>

definition read_ns :: "'w timer_ops \<Rightarrow> ('w, u64) syscall" where
  "read_ns ops w = (case mach ops of
       Some (numer, denom) \<Rightarrow> (case k_mach_absolute_time ops w of
           (w', t) \<Rightarrow> (w', Inr (t * ucast numer div ucast denom)))
     | None \<Rightarrow> (case k_clock_gettime ops w of
           (w', Inl e) \<Rightarrow> (w', Inl e)
         | (w', Inr ts) \<Rightarrow> (w', Inr (nsec_of ts))))"

text \<open>The timebase of a Mac has a denominator; \<open>mach_timebase_info\<close> fills it in.\<close>

definition timebase_ok :: "'w timer_ops \<Rightarrow> bool" where
  "timebase_ok ops \<longleftrightarrow> (\<forall>numer denom. mach ops = Some (numer, denom) \<longrightarrow> denom \<noteq> 0)"

lemma getnsec_read: "timebase_ok ops \<Longrightarrow> getnsec ops L = sys (read_ns ops) L"
  by (auto simp: getnsec_def getnsec_ex_def getnsec_ex_mach_def getnsec_ex_posix_def sys_def timebase_ok_def
      read_ns_def nsec_of_def Let_def c_step split: option.splits prod.splits sum.splits)

lemma read_ns_failed: "read_ns ops w = (w', Inl e) \<Longrightarrow> timebase_ok ops"
  by (auto simp: read_ns_def timebase_ok_def split: option.splits prod.splits)

lemma getnsec_no_timebase: "\<not> timebase_ok ops \<Longrightarrow> \<exists>L'. getnsec ops L = (Undef ''division by zero'', L')"
  by (auto simp: timebase_ok_def getnsec_def getnsec_ex_def getnsec_ex_mach_def c_step split: prod.splits)

section \<open>The choice of the unit\<close>

definition unit_of :: "nat \<Rightarrow> int \<times> string \<times> string" where
  "unit_of n =
     (if 60000000000 \<le> n then (60000000000, ''%.3f m'', ''m'')
      else if 1000000000 \<le> n then (1000000000, ''%.3f s'', ''s'')
      else if 1000000 \<le> n then (1000000, ''%.3f ms'', ''ms'')
      else if 1000 \<le> n then (1000, ''%.3f us'', ''us'')
      else (1, ''%d ns'', ''ns''))"

definition shown :: "nat \<Rightarrow> u64 \<Rightarrow> rat" where
  "shown ldm ns = (let d = fst (unit_of (unat ns)) in
     if d = 1 then fl 53 (to_ld ldm ns) else fl 53 (fl ldm (to_ld ldm ns / of_int d)))"

lemma to_ld_ge:
  assumes "53 \<le> ldm" "0 < d" "d < 2 ^ 53"
  shows "of_int d \<le> to_ld ldm ns \<longleftrightarrow> nat d \<le> unat ns"
proof -
  have "(2 :: int) ^ 53 \<le> 2 ^ ldm" using assms(1) by (intro power_increasing) auto
  then have bound: "\<bar>d\<bar> < 2 ^ ldm" "\<bar>d - 1\<bar> < 2 ^ ldm" using assms(2,3) by linarith+
  have "rounding ldm (fl ldm)" using assms(1) by (intro fl_rounding) simp
  then have "of_int d \<le> to_ld ldm ns \<longleftrightarrow> d \<le> uint ns"
    unfolding to_ld_def using bound by (rule rounding.rnd_int_ge_iff)
  moreover have "uint ns = int (unat ns)" by simp
  ultimately show ?thesis by linarith
qed

lemma nsec2utime_run:
  assumes "53 \<le> ldm"
  shows "nsec2utime ldm ns L = (case unit_of (unat ns) of (d, fmt, unit) \<Rightarrow>
    (Val 3, hold (stk L @ [VNum (Fin (shown ldm ns)), VStr fmt, VStr unit]) L))"
proof -
  have ge: "60000000000 \<le> to_ld ldm ns \<longleftrightarrow> 60000000000 \<le> unat ns"
    "1000000000 \<le> to_ld ldm ns \<longleftrightarrow> 1000000000 \<le> unat ns"
    "1000000 \<le> to_ld ldm ns \<longleftrightarrow> 1000000 \<le> unat ns"
    "1000 \<le> to_ld ldm ns \<longleftrightarrow> 1000 \<le> unat ns"
    using to_ld_ge [OF assms, of 60000000000 ns] to_ld_ge [OF assms, of 1000000000 ns]
      to_ld_ge [OF assms, of 1000000 ns] to_ld_ge [OF assms, of 1000 ns] by simp_all
  consider "60000000000 \<le> unat ns" | "1000000000 \<le> unat ns" "\<not> 60000000000 \<le> unat ns"
    | "1000000 \<le> unat ns" "\<not> 1000000000 \<le> unat ns" | "1000 \<le> unat ns" "\<not> 1000000 \<le> unat ns"
    | "\<not> 1000 \<le> unat ns" by linarith
  then show ?thesis
    by cases (simp_all add: nsec2utime_def shown_def unit_of_def to_double_def Let_def ge c_step lua_api)
qed

text \<open>Three roundings move a value by less than one part in \<open>2 ^ 51\<close>.\<close>

lemma fl_close:
  assumes "53 \<le> p" "0 \<le> x"
  shows "x - x / 2 ^ 53 \<le> fl p x" and "fl p x \<le> x + x / 2 ^ 53" and "0 \<le> fl p x"
proof -
  have "(2 :: rat) ^ 53 \<le> 2 ^ p" using assms(1) by (intro power_increasing) auto
  then have "x / 2 ^ p \<le> x / 2 ^ 53" using assms(2) by (intro divide_left_mono) auto
  moreover have "\<bar>fl p x - x\<bar> \<le> x / 2 ^ p" using fl_error [of p x] assms(2) by simp
  ultimately have "\<bar>fl p x - x\<bar> \<le> x / 2 ^ 53" by linarith
  then show "x - x / 2 ^ 53 \<le> fl p x" and "fl p x \<le> x + x / 2 ^ 53"
    by (auto simp only: abs_le_iff)
  show "0 \<le> fl p x" using assms fl_mono [of p 0 x] by (simp add: fl_def)
qed

lemma three_roundings:
  assumes "53 \<le> p" "53 \<le> q" "53 \<le> r" "0 \<le> x" "0 < d"
  shows "\<bar>fl r (fl q (fl p x / d)) - x / d\<bar> \<le> x / d / 2 ^ 51"
proof -
  define a b c y where "a = fl p x / d" and "b = fl q a" and "c = fl r b" and "y = x / d"
  have y: "0 \<le> y" using assms by (simp add: y_def)
  have a: "y - y / 2 ^ 53 \<le> a" "a \<le> y + y / 2 ^ 53" "0 \<le> a"
    using fl_close [OF assms(1,4), THEN divide_right_mono, of d] assms(5)
    by (simp_all add: a_def y_def add_divide_distrib diff_divide_distrib)
  have b: "a - a / 2 ^ 53 \<le> b" "b \<le> a + a / 2 ^ 53" "0 \<le> b"
    using fl_close [OF assms(2) a(3)] by (simp_all add: b_def)
  have c: "b - b / 2 ^ 53 \<le> c" "c \<le> b + b / 2 ^ 53"
    using fl_close [OF assms(3) b(3)] by (simp_all add: c_def)
  have "\<bar>c - y\<bar> \<le> y / 2 ^ 51"
    unfolding abs_le_iff using a b c y by (simp add: field_simps)
  then show ?thesis by (simp only: a_def b_def c_def y_def)
qed

lemma shown_close:
  assumes "53 \<le> ldm"
  shows "\<bar>shown ldm ns - of_int (uint ns) / of_int (fst (unit_of (unat ns)))\<bar>
    \<le> of_int (uint ns) / of_int (fst (unit_of (unat ns))) / 2 ^ 51"
proof -
  have d: "0 < fst (unit_of (unat ns))" by (simp add: unit_of_def)
  have "fl ldm (fl ldm (of_int (uint ns)) / 1) = to_ld ldm ns" if "uint ns < 1000"
  proof -
    have "(2 :: int) ^ 53 \<le> 2 ^ ldm" using assms by (intro power_increasing) auto
    then have "\<bar>uint ns\<bar> < 2 ^ ldm" using that by simp
    from fl_exact [OF representable_int [OF this]] show ?thesis
      unfolding to_ld_def by (simp only: div_by_1)
  qed
  moreover have "uint ns < 1000" if "fst (unit_of (unat ns)) = 1"
  proof -
    from that have "unat ns < 1000" by (auto simp: unit_of_def split: if_splits)
    moreover have "uint ns = int (unat ns)" by simp
    ultimately show ?thesis by linarith
  qed
  ultimately have "shown ldm ns = fl 53 (fl ldm (fl ldm (of_int (uint ns)) / of_int (fst (unit_of (unat ns)))))"
    by (auto simp: shown_def Let_def to_ld_def)
  moreover have "(0 :: rat) \<le> of_int (uint ns)" "(0 :: rat) < of_int (fst (unit_of (unat ns)))"
    using d by (simp_all only: of_int_0_le_iff of_int_0_less_iff unsigned_greater_eq)
  ultimately show ?thesis
    using three_roundings [OF assms assms order_refl] by (simp only:)
qed

text \<open>The value shown is at least 1 and less than the number of units in the next larger unit.\<close>

definition unit_limit :: "nat \<Rightarrow> rat" where
  "unit_limit n = (if 60000000000 \<le> n then 2 ^ 64 else if 1000000000 \<le> n then 60 else 1000)"

lemma shown_range:
  assumes "53 \<le> ldm"
  shows "shown ldm ns < unit_limit (unat ns)"
proof -
  have u: "(of_int (uint ns) :: rat) = of_nat (unat ns)"
    by (metis of_int_of_nat_eq uint_nat)
  have lt: "(of_nat (unat ns) :: rat) < 2 ^ 64"
    using unsigned_less [of ns, where ?'a = nat] by (simp only: of_nat_less_numeral_power_cancel_iff) simp
  note close = shown_close [OF assms, of ns, unfolded u abs_le_iff, THEN conjunct1]
  consider "60000000000 \<le> unat ns" | "1000000000 \<le> unat ns" "unat ns \<le> 59999999999"
    | "1000000 \<le> unat ns" "unat ns \<le> 999999999" | "1000 \<le> unat ns" "unat ns \<le> 999999"
    | "unat ns \<le> 999" by linarith
  then show ?thesis
  proof cases
    case 1
    then show ?thesis using close lt by (simp add: unit_of_def unit_limit_def)
  next
    case 2
    then have "(of_nat (unat ns) :: rat) \<le> of_nat 59999999999" by (simp only: of_nat_le_iff)
    then show ?thesis using 2 close by (simp add: unit_of_def unit_limit_def)
  next
    case 3
    then have "(of_nat (unat ns) :: rat) \<le> of_nat 999999999" by (simp only: of_nat_le_iff)
    then show ?thesis using 3 close by (simp add: unit_of_def unit_limit_def)
  next
    case 4
    then have "(of_nat (unat ns) :: rat) \<le> of_nat 999999" by (simp only: of_nat_le_iff)
    then show ?thesis using 4 close by (simp add: unit_of_def unit_limit_def)
  next
    case 5
    then have "(of_nat (unat ns) :: rat) \<le> of_nat 999" by (simp only: of_nat_le_iff)
    then show ?thesis using 5 close by (simp add: unit_of_def unit_limit_def)
  qed
qed

section \<open>The fraction handed to \<open>nanosleep\<close>\<close>

lemma quotient_fraction:
  assumes "0 < n"
  shows "of_int m / of_int n - of_int (m div n) = (of_int (m mod n) / of_int n :: rat)"
proof -
  have "(of_int m :: rat) = of_int (m div n) * of_int n + of_int (m mod n)"
    by (metis div_mult_mod_eq of_int_add of_int_mult)
  then show ?thesis using assms by (simp add: field_simps)
qed

lemma representable_nonneg:
  assumes "representable p q" "0 \<le> q"
  obtains m e where "q = of_int m * 2 powi e" "0 \<le> m" "m < 2 ^ p"
proof -
  from assms(1) obtain m e where q: "q = of_int m * 2 powi e" and m: "\<bar>m\<bar> < 2 ^ p"
    by (auto simp: representable_def)
  have "(0 :: rat) < 2 powi e" by simp
  with assms(2) have "0 \<le> m" by (auto simp: q zero_le_mult_iff)
  with q m show ?thesis by (intro that) auto
qed

text \<open>A non-negative double minus its integer part is exact, and at most \<open>1 - 2 ^ - 53\<close>.\<close>

lemma representable_fraction:
  assumes "representable 53 q" "0 \<le> q"
  shows "representable 53 (q - of_int \<lfloor>q\<rfloor>)" and "q - of_int \<lfloor>q\<rfloor> \<le> 1 - 1 / 2 ^ 53"
proof -
  from assms obtain m e where q: "q = of_int m * 2 powi e" and m0: "0 \<le> m" and m: "m < 2 ^ 53"
    by (rule representable_nonneg)
  have "representable 53 (q - of_int \<lfloor>q\<rfloor>) \<and> q - of_int \<lfloor>q\<rfloor> \<le> 1 - 1 / 2 ^ 53"
  proof (cases "0 \<le> e")
    case True
    then have "q = of_int (m * 2 ^ nat e)" by (simp add: q power_int_def)
    then show ?thesis using representable_int [of 0 53] by simp
  next
    case False
    define k where "k = nat (- e)"
    define r where "r = m mod 2 ^ k"
    have e: "e = - int k" using False by (simp add: k_def)
    have "q = of_int m / of_int (2 ^ k)"
      by (simp add: q e power_int_minus divide_inverse)
    then have fr: "q - of_int \<lfloor>q\<rfloor> = of_int r / of_int (2 ^ k)"
      by (simp only: floor_divide_of_int_eq quotient_fraction [of "2 ^ k" m] r_def zero_less_power
          zero_less_numeral)
    have r: "0 \<le> r" "r < 2 ^ k" by (simp_all add: r_def)
    have r53: "r < 2 ^ 53" using m m0 zmod_le_nonneg_dividend [of m "2 ^ k"] by (simp add: r_def)
    have "q - of_int \<lfloor>q\<rfloor> = of_int r * 2 powi e"
      by (simp add: fr e power_int_minus divide_inverse)
    then have rep: "representable 53 (q - of_int \<lfloor>q\<rfloor>)"
      unfolding representable_def using r r53 by (intro exI [of _ r] exI [of _ e]) simp
    have "(of_int r :: rat) \<le> (1 - 1 / 2 ^ 53) * of_int (2 ^ k)"
    proof (cases "k \<le> 53")
      case True
      have "(2 :: rat) ^ k \<le> 2 ^ 53" using True by (intro power_increasing) auto
      moreover have "(of_int r :: rat) \<le> of_int (2 ^ k - 1)" using r by (simp only: of_int_le_iff)
      ultimately show ?thesis by simp
    next
      case False
      then have "(2 :: rat) ^ 54 \<le> 2 ^ k" by (intro power_increasing) auto
      moreover have "(of_int r :: rat) \<le> of_int (2 ^ 53)" using r53 by (simp only: of_int_le_iff)
      ultimately show ?thesis by simp
    qed
    then have "q - of_int \<lfloor>q\<rfloor> \<le> 1 - 1 / 2 ^ 53"
      unfolding fr by (simp only: pos_divide_le_eq of_int_0_less_iff zero_less_power zero_less_numeral)
    with rep show ?thesis by simp
  qed
  then show "representable 53 (q - of_int \<lfloor>q\<rfloor>)" and "q - of_int \<lfloor>q\<rfloor> \<le> 1 - 1 / 2 ^ 53" by auto
qed

lemma representable_floor:
  assumes "representable 53 q" "0 \<le> q"
  shows "representable 53 (of_int \<lfloor>q\<rfloor>)"
proof -
  from assms obtain m e where q: "q = of_int m * 2 powi e" and m0: "0 \<le> m" and m: "m < 2 ^ 53"
    by (rule representable_nonneg)
  show ?thesis
  proof (cases "0 \<le> e")
    case True
    then have "q = of_int (m * 2 ^ nat e)" by (simp add: q power_int_def)
    then show ?thesis using assms(1) by simp
  next
    case False
    have "q \<le> of_int m" 
      using m0 False power_int_increasing [of e 0 "2 :: rat"] by (simp add: q mult_left_le)
    then have "\<lfloor>q\<rfloor> \<le> m" "0 \<le> \<lfloor>q\<rfloor>" using assms(2) by (simp_all add: floor_le_iff)
    with m have "\<bar>\<lfloor>q\<rfloor>\<bar> < 2 ^ 53" by linarith
    then show ?thesis by (rule representable_int)
  qed
qed

lemma fl_nsec_max: "fl 53 ((1 - 1 / 2 ^ 53) * 1000000000) < 1000000000"
  by code_simp

lemma sint_of_int_i64: "- (2 ^ 63) \<le> k \<Longrightarrow> k < 2 ^ 63 \<Longrightarrow> sint (of_int k :: i64) = k"
  by (simp add: signed_of_int signed_take_bit_int_eq_self)

lemma sleep_spec_fields:
  assumes "representable 53 q" "0 \<le> q" "q < 2 ^ 63"
  defines "x \<equiv> fl 53 ((q - of_int \<lfloor>q\<rfloor>) * 1000000000)"
  shows "sint (tv_sec (sleep_spec q)) = \<lfloor>q\<rfloor>" and "sint (tv_nsec (sleep_spec q)) = \<lfloor>x\<rfloor>"
    and "0 \<le> x" and "x < 1000000000"
proof -
  have "\<lfloor>q\<rfloor> < 2 ^ 63" "0 \<le> \<lfloor>q\<rfloor>" using assms(2,3) by (simp_all add: floor_less_iff)
  then show "sint (tv_sec (sleep_spec q)) = \<lfloor>q\<rfloor>"
    using assms(2) by (simp add: sleep_spec_def trunc_def Let_def sint_of_int_i64)
  note f = representable_fraction [OF assms(1,2)]
  have "0 \<le> q - of_int \<lfloor>q\<rfloor>" by simp
  then show x0: "0 \<le> x" unfolding x_def using fl_mono [of 53 0 "(q - of_int \<lfloor>q\<rfloor>) * 1000000000"]
    by (simp add: fl_def)
  have "x \<le> fl 53 ((1 - 1 / 2 ^ 53) * 1000000000)"
    unfolding x_def using f(2) by (intro fl_mono) auto
  with fl_nsec_max show x1: "x < 1000000000" by linarith
  have "fl 53 (fl 53 (q - fl 53 (of_int (trunc q))) * of_int NSEC_IN_SEC) = x"
    using assms(2) by (simp add: trunc_def fl_exact f representable_floor [OF assms(1,2)] x_def NSEC_IN_SEC_def)
  moreover have "\<lfloor>x\<rfloor> < 1000000000" "0 \<le> \<lfloor>x\<rfloor>" using x0 x1 by (simp_all add: floor_less_iff)
  ultimately show "sint (tv_nsec (sleep_spec q)) = \<lfloor>x\<rfloor>"
    using x0 by (simp add: sleep_spec_def Let_def trunc_def sint_of_int_i64)
qed

section \<open>Timer objects\<close>

text \<open>\<open>timer_at L p t\<close>: the userdata at \<open>p\<close> is a timer object that holds \<open>t\<close>.\<close>

abbreviation timer_at :: "(testcase_timer_t, 'w) lua \<Rightarrow> nat \<Rightarrow> testcase_timer_t \<Rightarrow> bool" where
  "timer_at L p t \<equiv> object_at L p TESTCASE_TIMER_MT t"

text \<open>\<open>stop\<close>, on a timer object, for a clock that can be read and for one that cannot.\<close>

definition shown_values :: "nat \<Rightarrow> u64 \<Rightarrow> lval list" where
  "shown_values ldm ns = (case unit_of (unat ns) of (d, fmt, unit) \<Rightarrow>
     [VNum (Fin (shown ldm ns)), VStr fmt, VStr unit])"

lemma length_shown_values [simp]: "length (shown_values ldm ns) = 3"
  by (simp add: shown_values_def split: prod.splits)

lemma nsec2utime_shown [c_body]:
  "53 \<le> ldm \<Longrightarrow> nsec2utime ldm ns L = (Val 3, hold (stk L @ shown_values ldm ns) L)"
  by (simp add: nsec2utime_run shown_values_def split: prod.splits)

lemma stop_read:
  assumes "timebase_ok ops" "53 \<le> ldm" "timer_at L p t" "read_ns ops (world L) = (w, Inr ns)"
  shows "call (stop_lua ldm ops) [VUd p] L
    = (Val (shown_values ldm (ns - start t)),
       set_object p (t\<lparr>total := total t + (ns - start t), start := ns\<rparr>) (L\<lparr>world := w\<rparr>))"
  using assms
  by (simp add: stop_lua_def c_step c_body call_ops getnsec_read sys_def Let_def)

lemma stop_unreadable:
  assumes "timer_at L p t" "read_ns ops (world L) = (w, Inl e)"
  shows "call (stop_lua ldm ops) [VUd p] L
    = (Val [VNil, VStr (strerror (rt L) e)], L\<lparr>world := w, errno := e\<rparr>)"
  using assms read_ns_failed [OF assms(2)]
  by (simp add: stop_lua_def c_step c_body call_ops stack_ops getnsec_read sys_def)

lemma start_read:
  assumes "timebase_ok ops" "timer_at L p t" "read_ns ops (world L) = (w, Inr ns)"
  shows "call (start_lua ops) [VUd p] L
    = (Val [VBool True], set_object p (t\<lparr>start := ns\<rparr>) (L\<lparr>world := w\<rparr>))"
  using assms
  by (simp add: start_lua_def c_step c_body call_ops stack_ops getnsec_read sys_def)

lemma start_unreadable:
  assumes "timer_at L p t" "read_ns ops (world L) = (w, Inl e)"
  shows "call (start_lua ops) [VUd p] L
    = (Val [VBool False, VStr (strerror (rt L) e)], L\<lparr>world := w, errno := e\<rparr>)"
  using assms read_ns_failed [OF assms(2)]
  by (simp add: start_lua_def c_step c_body call_ops stack_ops getnsec_read sys_def)

lemma total_read:
  assumes "53 \<le> ldm" "timer_at L p t"
  shows "call (total_lua ldm) [VUd p] L = (Val (shown_values ldm (total t)), L)"
  using assms by (simp add: total_lua_def c_step c_body call_ops)

lemma reset_clears:
  assumes "timer_at L p t"
  shows "\<exists>L4. call reset_lua [VUd p] L = (Val [], L4) \<and> timer_at L4 p \<lparr>total = 0, start = 0\<rparr>"
  using assms by (simp add: reset_lua_def c_step c_body call_ops)

lemma nanotime_unreadable:
  assumes "read_ns ops (world L) = (w, Inl e)"
  shows "call (nanotime_lua ops) [] L = (Val [VNil, VStr (strerror (rt L) e)], L\<lparr>world := w, errno := e\<rparr>)"
  using assms
  by (auto simp: nanotime_lua_def read_ns_def getnsec_ex_def getnsec_ex_posix_def c_step call_ops stack_ops sys_def
      split: option.splits prod.splits sum.splits)

section \<open>The law of a monotonic clock\<close>

text \<open>
  \<open>now w\<close> is the true time in nanoseconds. A reading is the time at which the call returns,
  as an unsigned 64-bit number, and no call turns the time back.
\<close>

locale monotone_clock =
  fixes ops :: "'w timer_ops" and now :: "'w \<Rightarrow> nat"
  assumes read_ok: "read_ns ops w = (w', Inr ns) \<Longrightarrow> ns = of_nat (now w') \<and> now w \<le> now w'"
    and read_err: "read_ns ops w = (w', Inl e) \<Longrightarrow> now w \<le> now w'"

text \<open>\<open>n\<close> calls of \<open>stop\<close> in a row, whatever they return.\<close>

fun stops :: "nat \<Rightarrow> 'w timer_ops \<Rightarrow> nat \<Rightarrow> nat \<Rightarrow> (testcase_timer_t, 'w, unit) comp" where
  "stops ldm ops p 0 = ret ()"
| "stops ldm ops p (Suc n) = bnd (call (stop_lua ldm ops) [VUd p]) (\<lambda>_. stops ldm ops p n)"

context monotone_clock
begin

text \<open>\<open>total - start\<close> is what a stop keeps, whether the clock could be read or not.\<close>

lemma stop_once:
  assumes "timebase_ok ops" "53 \<le> ldm" "timer_at L p t"
  obtains vs L' t' where "call (stop_lua ldm ops) [VUd p] L = (Val vs, L')" "timer_at L' p t'"
    "total t' - start t' = total t - start t" "now (world L) \<le> now (world L')"
    "hd vs = VNil \<or> start t' = of_nat (now (world L'))"
proof (cases "read_ns ops (world L)")
  case (Pair w r)
  show ?thesis
  proof (cases r)
    case (Inl e)
    show ?thesis
      by (rule that [OF stop_unreadable [OF assms(3) Pair [unfolded Inl]]])
         (use assms(3) read_err [OF Pair [unfolded Inl]] in auto)
  next
    case (Inr ns)
    show ?thesis
      by (rule that [OF stop_read [OF assms Pair [unfolded Inr]],
            of "t\<lparr>total := total t + (ns - start t), start := ns\<rparr>"])
         (use assms(3) read_ok [OF Pair [unfolded Inr]] in auto)
  qed
qed

lemma stops_many:
  assumes "timebase_ok ops" "53 \<le> ldm" "timer_at L p t" "stops ldm ops p n L = (r, L')"
  shows "\<exists>t'. timer_at L' p t' \<and> total t' - start t' = total t - start t
    \<and> now (world L) \<le> now (world L')"
  using assms
proof (induction n arbitrary: L t)
  case 0
  then show ?case by (auto simp: ret_def)
next
  case (Suc n)
  from Suc.prems(1,2,3) obtain vs L1 t1 where
    1: "call (stop_lua ldm ops) [VUd p] L = (Val vs, L1)" "timer_at L1 p t1"
      "total t1 - start t1 = total t - start t" "now (world L) \<le> now (world L1)"
    by (rule stop_once)
  from Suc.prems(4) 1(1) have "stops ldm ops p n L1 = (r, L')" by (simp add: bnd_run)
  from Suc.IH [OF Suc.prems(1,2) 1(2) this] 1 show ?case by auto
qed

text \<open>From a start to the last successful stop, the timer gains exactly the time that passed.\<close>

lemma start_to_stop:
  assumes ldm: "53 \<le> ldm" and t: "timer_at L p t"
    and go: "call (start_lua ops) [VUd p] L = (Val [VBool True], L1)"
    and mid: "stops ldm ops p n L1 = (r, L2)"
    and last: "call (stop_lua ldm ops) [VUd p] L2 = (Val (VNum v # vs), L3)"
  shows "now (world L1) \<le> now (world L3) \<and>
    (\<exists>t3. timer_at L3 p t3 \<and> total t3 = total t + of_nat (now (world L3) - now (world L1)))"
proof -
  obtain w r1 where rd: "read_ns ops (world L) = (w, r1)" by fastforce
  have base: "timebase_ok ops"
  proof (rule ccontr)
    assume "\<not> timebase_ok ops"
    from getnsec_no_timebase [OF this, of "L\<lparr>stk := [VUd p], peak := Suc 0\<rparr>"] go t show False
      by (auto simp: start_lua_def c_step c_body call_ops)
  qed
  have "timer_at L1 p (t\<lparr>start := of_nat (now (world L1))\<rparr>)"
  proof (cases r1)
    case (Inl e)
    from go start_unreadable [OF t rd [unfolded Inl]] show ?thesis by simp
  next
    case (Inr ns)
    from go start_read [OF base t rd [unfolded Inr]] read_ok [OF rd [unfolded Inr]] t show ?thesis by auto
  qed
  from stops_many [OF base ldm this mid] obtain t2 where
    t2: "timer_at L2 p t2" "total t2 - start t2 = total t - of_nat (now (world L1))"
      "now (world L1) \<le> now (world L2)" by auto
  from base ldm t2(1) obtain vs' L' t' where
    t': "call (stop_lua ldm ops) [VUd p] L2 = (Val vs', L')" "timer_at L' p t'"
    "total t' - start t' = total t2 - start t2" "now (world L2) \<le> now (world L')"
    "hd vs' = VNil \<or> start t' = of_nat (now (world L'))" by (rule stop_once)
  have "total t' = total t2 - start t2 + start t'" using t'(3) by (simp add: algebra_simps)
  then have e: "timer_at L3 p t'" "now (world L1) \<le> now (world L3)"
    "total t' = total t + (of_nat (now (world L3)) - of_nat (now (world L1)))"
    using last t2 t' by auto
  then show ?thesis by (auto simp: of_nat_diff)
qed

end
section \<open>A reference clock\<close>

text \<open>
  A clock that advances by \<open>tick\<close> nanoseconds at every reading, fails where its plan says
  so, and is advanced by sleeping.
\<close>

record clock_world =
  ticks :: nat
  tick :: nat
  faults :: "bool list"

definition ref_gettime :: "(clock_world, timespec) syscall" where
  "ref_gettime w = (case faults w of
       True # fs \<Rightarrow> (w\<lparr>faults := fs\<rparr>, Inl 22)
     | _ \<Rightarrow> (let t = ticks w + tick w in
         (w\<lparr>ticks := t, faults := tl (faults w)\<rparr>,
          Inr \<lparr>tv_sec = of_nat (t div 1000000000), tv_nsec = of_nat (t mod 1000000000)\<rparr>)))"

definition ref_nanosleep :: "timespec \<Rightarrow> (clock_world, unit) syscall" where
  "ref_nanosleep ts w =
     (if sint (tv_sec ts) < 0 \<or> sint (tv_nsec ts) < 0 \<or> 999999999 < sint (tv_nsec ts) then (w, Inl 22)
      else (w\<lparr>ticks := ticks w + unat (tv_sec ts) * 1000000000 + unat (tv_nsec ts)\<rparr>, Inr ()))"

definition ref_timer_ops :: "clock_world timer_ops" where
  "ref_timer_ops = \<lparr>
     mach = None,
     k_mach_absolute_time = (\<lambda>w. (w, of_nat (ticks w))),
     k_clock_gettime = ref_gettime,
     k_usleep = (\<lambda>us w. (w\<lparr>ticks := ticks w + unat us * 1000\<rparr>, Inr ())),
     k_nanosleep = ref_nanosleep\<rparr>"

lemma nsec_of_split:
  "nsec_of \<lparr>tv_sec = of_nat (t div 1000000000), tv_nsec = of_nat (t mod 1000000000)\<rparr> = of_nat t"
proof -
  have "(of_nat t :: u64) = of_nat (t div 1000000000 * 1000000000 + t mod 1000000000)" by simp
  then show ?thesis by (simp only: nsec_of_def NSEC_IN_SEC_def of_nat_add of_nat_mult) simp
qed

interpretation ref_clock: monotone_clock ref_timer_ops ticks
  by unfold_locales
     (auto simp: read_ns_def ref_timer_ops_def ref_gettime_def Let_def nsec_of_split
        split: list.splits bool.splits)

section \<open>Properties\<close>

text \<open>C8. On a monotonic clock, from a \<open>start\<close> that returned true to a later \<open>stop\<close> that could
read the clock, with any number of stops in between whether they failed or not, the total of
the timer grows by exactly the time that passed; \<open>total\<close> then shows it, and \<open>reset\<close> clears it.\<close>

theorem start_stop_measures_time:
  assumes "monotone_clock ops now" and "53 \<le> ldm" and "timer_at L p t"
    and "call (start_lua ops) [VUd p] L = (Val [VBool True], L1)"
    and "stops ldm ops p n L1 = (r, L2)"
    and "call (stop_lua ldm ops) [VUd p] L2 = (Val (VNum v # vs), L3)"
  shows "now (world L1) \<le> now (world L3) \<and>
    (\<exists>t3. timer_at L3 p t3 \<and> total t3 = total t + of_nat (now (world L3) - now (world L1))
      \<and> call (total_lua ldm) [VUd p] L3 = (Val (shown_values ldm (total t3)), L3)
      \<and> (\<exists>L4. call reset_lua [VUd p] L3 = (Val [], L4) \<and> timer_at L4 p \<lparr>total = 0, start = 0\<rparr>))"
  using monotone_clock.start_to_stop [OF assms] total_read [OF assms(2)] reset_clears by blast

definition clock_world0 :: clock_world where
  "clock_world0 = \<lparr>ticks = 100, tick = 7, faults = [False, True, False]\<rparr>"

lemma read_ref_clock:
  "read_ns ref_timer_ops \<lparr>ticks = a, tick = b, faults = True # fs\<rparr>
     = (\<lparr>ticks = a, tick = b, faults = fs\<rparr>, Inl EINVAL)"
  "read_ns ref_timer_ops \<lparr>ticks = a, tick = b, faults = False # fs\<rparr>
     = (\<lparr>ticks = a + b, tick = b, faults = fs\<rparr>, Inr (of_nat (a + b)))"
  by (simp_all add: read_ns_def ref_timer_ops_def ref_gettime_def Let_def nsec_of_split EINVAL_def)

lemma start_stop_measures_time_witness:
  "\<exists>L1 L2 L3 t3.
     call (start_lua ref_timer_ops) [VUd 0] (lua_with TESTCASE_TIMER_MT \<lparr>total = 5, start = 0\<rparr> clock_world0)
       = (Val [VBool True], L1)
   \<and> stops 64 ref_timer_ops 0 1 L1 = (Val (), L2)
   \<and> call (stop_lua 64 ref_timer_ops) [VUd 0] L2 = (Val (shown_values 64 7), L3)
   \<and> timer_at L3 0 t3 \<and> total t3 = 12"
proof -
  let ?L = "lua_with TESTCASE_TIMER_MT \<lparr>total = 5, start = 0\<rparr> clock_world0"
  define L1 where "L1 = set_object 0 \<lparr>total = 5, start = 107\<rparr>
    (?L\<lparr>world := \<lparr>ticks = 107, tick = 7, faults = [True, False]\<rparr>\<rparr>)"
  define L2 where "L2 = L1\<lparr>world := \<lparr>ticks = 107, tick = 7, faults = [False]\<rparr>, errno := EINVAL\<rparr>"
  define L3 where "L3 = set_object 0 \<lparr>total = 12, start = 114\<rparr>
    (L2\<lparr>world := \<lparr>ticks = 114, tick = 7, faults = []\<rparr>\<rparr>)"
  have 0: "timer_at ?L 0 \<lparr>total = 5, start = 0\<rparr>" by simp
  have b: "timebase_ok ref_timer_ops" by (simp add: timebase_ok_def ref_timer_ops_def)
  have 1: "call (start_lua ref_timer_ops) [VUd 0] ?L = (Val [VBool True], L1)"
    using start_read [OF b 0] by (simp add: clock_world0_def read_ref_clock L1_def)
  have o1: "timer_at L1 0 \<lparr>total = 5, start = 107\<rparr>"
    unfolding L1_def by (rule object_at_set [of _ _ _ "\<lparr>total = 5, start = 0\<rparr>"]) simp
  have 2: "stops 64 ref_timer_ops 0 1 L1 = (Val (), L2)"
    using stop_unreadable [OF o1, of ref_timer_ops] by (simp add: bnd_run ret_def read_ref_clock L2_def L1_def)
  have o2: "timer_at L2 0 \<lparr>total = 5, start = 107\<rparr>" using o1 by (simp add: L2_def)
  have 3: "call (stop_lua 64 ref_timer_ops) [VUd 0] L2 = (Val (shown_values 64 7), L3)"
    using stop_read [OF b _ o2, of 64] by (simp add: read_ref_clock L3_def L2_def)
  have 4: "call (stop_lua 64 ref_timer_ops) [VUd 0] L2
      = (Val (VNum (Fin (shown 64 7)) # tl (shown_values 64 7)), L3)"
    using 3 by (simp add: shown_values_def split: prod.splits)
  have w: "ticks (world L3) - ticks (world L1) = 7" by (simp add: L3_def L1_def)
  have "53 \<le> (64 :: nat)" by simp
  from start_stop_measures_time [OF ref_clock.monotone_clock_axioms this 0 1 2 4] w 1 2 3
  show ?thesis by auto
qed

lemma elapsed_unreadable:
  assumes "timer_at L p t" "read_ns ops (world L) = (w, Inl e)"
  shows "call (get_elapsed_lua ldm ops in_sec) [VUd p] L
    = (Val [VNil, VStr (strerror (rt L) e)], L\<lparr>world := w, errno := e\<rparr>)"
  using assms read_ns_failed [OF assms(2)]
  by (simp add: get_elapsed_lua_def c_step c_body call_ops stack_ops getnsec_read sys_def)

text \<open>C27. When the clock cannot be read, \<open>start\<close>, \<open>stop\<close>, \<open>elapsed\<close>, \<open>elapsed_sec\<close> and
\<open>nanotime\<close> report the error, and the timer stays as it was.\<close>

theorem clock_failure_keeps_timer:
  assumes "timer_at L p t" and "read_ns ops (world L) = (w, Inl e)"
  shows "call (start_lua ops) [VUd p] L = (Val [VBool False, VStr (strerror (rt L) e)], L\<lparr>world := w, errno := e\<rparr>)
    \<and> call (stop_lua ldm ops) [VUd p] L = (Val [VNil, VStr (strerror (rt L) e)], L\<lparr>world := w, errno := e\<rparr>)
    \<and> call (elapsed_lua ldm ops) [VUd p] L = (Val [VNil, VStr (strerror (rt L) e)], L\<lparr>world := w, errno := e\<rparr>)
    \<and> call (elapsed_sec_lua ldm ops) [VUd p] L = (Val [VNil, VStr (strerror (rt L) e)], L\<lparr>world := w, errno := e\<rparr>)
    \<and> call (nanotime_lua ops) [] L = (Val [VNil, VStr (strerror (rt L) e)], L\<lparr>world := w, errno := e\<rparr>)"
  using nanotime_unreadable [OF assms(2)] start_unreadable [OF assms] stop_unreadable [OF assms] elapsed_unreadable [OF assms]
  unfolding elapsed_lua_def elapsed_sec_lua_def by simp

lemma clock_failure_keeps_timer_witness:
  "fst (call (stop_lua 64 ref_timer_ops) [VUd 0] (lua_with TESTCASE_TIMER_MT \<lparr>total = 5, start = 0\<rparr>
     \<lparr>ticks = 100, tick = 7, faults = [True]\<rparr>)) = Val [VNil, VStr ''error 22'']"
proof -
  let ?L = "lua_with TESTCASE_TIMER_MT \<lparr>total = 5, start = 0\<rparr> \<lparr>ticks = 100, tick = 7, faults = [True]\<rparr>"
  have s: "show_int 22 = ''22''" by code_simp
  have r: "read_ns ref_timer_ops (world ?L) = (\<lparr>ticks = 100, tick = 7, faults = []\<rparr>, Inl EINVAL)"
    by (simp add: read_ref_clock)
  show ?thesis
    using clock_failure_keeps_timer [OF lua_with_object r, of 64] s by (simp add: runtime0_def EINVAL_def)
qed

text \<open>C16. A duration is shown in the largest unit of which it has at least one (minutes, seconds,
milliseconds, microseconds, else nanoseconds), with the format and name of that unit; the
number is off by less than one part in \<open>2 ^ 51\<close> for any \<open>long double\<close> of at least 53 bits, and
never reaches the next unit (1000, or 60 for seconds).\<close>

theorem duration_shown:
  assumes "53 \<le> ldm"
  shows "\<exists>x. nsec2utime ldm ns L = (case unit_of (unat ns) of (d, fmt, unit) \<Rightarrow>
      (Val 3, hold (stk L @ [VNum (Fin x), VStr fmt, VStr unit]) L))
    \<and> \<bar>x - of_int (uint ns) / of_int (fst (unit_of (unat ns)))\<bar>
        \<le> of_int (uint ns) / of_int (fst (unit_of (unat ns))) / 2 ^ 51
    \<and> x < unit_limit (unat ns)"
  using nsec2utime_run [OF assms] shown_close [OF assms] shown_range [OF assms] by blast

lemma duration_shown_witness:
  "\<exists>x. nsec2utime 64 90000000000 (lua0 ()) = (Val 3,
      hold [VNum (Fin x), VStr ''%.3f m'', VStr ''m''] (lua0 () :: (unit, unit) lua)) \<and> \<bar>x - 3 / 2\<bar> \<le> 3 / 2 / 2 ^ 51"
proof -
  have "53 \<le> (64 :: nat)" by simp
  from duration_shown [OF this, of 90000000000 "lua0 ()"]
  show ?thesis by (auto simp: unit_of_def)
qed



end
