(* ===== verification/Rlimit.thy ===== *)
theory Rlimit
  imports Lua_Api
begin

text \<open>
  The module \<open>testcase.rlimit\<close> (src/rlimit.c): reading and setting resource limits, with
  -1 standing for \<open>RLIM_INFINITY\<close> on the Lua side.
\<close>

section \<open>The platform and the system\<close>

record rlimit =
  rlim_cur :: u64
  rlim_max :: u64

text \<open>
  The headers give the \<open>RLIMIT_\<close> constants that exist (\<open>rlimit_defs\<close>), \<open>RLIM_INFINITY\<close> and
  \<open>ENOSYS\<close>; the kernel reads and sets limits.
\<close>

record 'w rlimit_ops =
  rlimit_defs :: "string \<Rightarrow> c_int option"
  RLIM_INFINITY :: u64
  ENOSYS :: c_int
  k_getrlimit :: "c_int \<Rightarrow> ('w, rlimit) syscall"
  k_setrlimit :: "c_int \<Rightarrow> rlimit \<Rightarrow> ('w, unit) syscall"

definition RESOURCE_NAMES :: "string list" where
  "RESOURCE_NAMES = [
     ''as'', ''core'', ''cpu'', ''data'', ''fsize'', ''locks'',
     ''memlock'', ''msgqueue'', ''nice'', ''nofile'', ''nproc'', ''rss'',
     ''rtprio'', ''rttime'', ''sigpending'', ''stack'']"

text \<open>The macro that each case of the switch on the option tests and reads.\<close>

definition RESOURCE_MACROS :: "string list" where
  "RESOURCE_MACROS = [
     ''RLIMIT_AS'', ''RLIMIT_CORE'', ''RLIMIT_CPU'', ''RLIMIT_DATA'', ''RLIMIT_FSIZE'', ''RLIMIT_LOCKS'',
     ''RLIMIT_MEMLOCK'', ''RLIMIT_MSGQUEUE'', ''RLIMIT_NICE'', ''RLIMIT_NOFILE'', ''RLIMIT_NPROC'', ''RLIMIT_RSS'',
     ''RLIMIT_RTPRIO'', ''RLIMIT_RTTIME'', ''RLIMIT_SIGPENDING'', ''RLIMIT_STACK'']"

definition resource_of :: "(string \<Rightarrow> c_int option) \<Rightarrow> nat \<Rightarrow> c_int" where
  "resource_of defs opt =
     (if opt < length RESOURCE_MACROS
      then (case defs (RESOURCE_MACROS ! opt) of Some r \<Rightarrow> r | None \<Rightarrow> - 1)
      else - 1)"

section \<open>The functions\<close>

definition check_rtype :: "'w rlimit_ops \<Rightarrow> ('u, 'w, c_int \<times> string) comp" where
  "check_rtype ops =
     bnd (luaL_checkoption 1 None RESOURCE_NAMES) (\<lambda>opt.
       let resource = resource_of (rlimit_defs ops) opt; resname = RESOURCE_NAMES ! opt in
       bnd (if resource = - 1 then set_errno (ENOSYS ops) else ret ()) (\<lambda>_.
         ret (resource, resname)))"

text \<open>
  The functions that may push an error return the number of pushed values (0 when there
  is no error) and what they store through their pointer argument.
\<close>

definition getlimit ::
  "'w rlimit_ops \<Rightarrow> c_int \<Rightarrow> string \<Rightarrow> rlimit \<Rightarrow> ('u, 'w, nat \<times> rlimit) comp" where
  "getlimit ops resource resname rl =
     bnd (sys (k_getrlimit ops resource)) (\<lambda>r. case r of
       None \<Rightarrow>
         let msg = snprintf 256 (''failed to getrlimit for resource '' @ [CHR 0x27] @ resname @ [CHR 0x27]) in
         bnd lua_pushnil (\<lambda>_. bnd get_errno (\<lambda>e.
         bnd (lua_errno_new_with_message e ''getrlimit'' msg) (\<lambda>_. ret (2, rl))))
     | Some rl' \<Rightarrow> ret (0, rl'))"

definition limit_message :: "string \<Rightarrow> string \<Rightarrow> i64 \<Rightarrow> string" where
  "limit_message field resname v = snprintf 128
     (''invalid '' @ field @ '' for resource '' @ [CHR 0x27] @ resname @ [CHR 0x27]
      @ '': expected -1 (infinity) or a non-negative integer, got '' @ show_int (sint v))"

definition check_limit ::
  "'w rlimit_ops \<Rightarrow> int \<Rightarrow> string \<Rightarrow> string \<Rightarrow> u64 \<Rightarrow> ('u, 'w, nat \<times> u64) comp" where
  "check_limit ops idx resname field limit =
     bnd (lua_isnoneornil idx) (\<lambda>absent.
       if absent then ret (0, limit)
       else bnd (luaL_checkinteger idx) (\<lambda>v.
         if sint v < - 1 then luaL_argerror idx (limit_message field resname v)
         else if sint v = - 1 then ret (1, RLIM_INFINITY ops)
         else ret (1, v)))"

text \<open>
  C leaves open which of the two calls of \<open>check_limit\<close> runs first; they are independent
  but for which of two invalid arguments is reported. The model takes the left one.
\<close>

definition setlimit ::
  "'w rlimit_ops \<Rightarrow> c_int \<Rightarrow> string \<Rightarrow> rlimit \<Rightarrow> ('u, 'w, nat \<times> rlimit) comp" where
  "setlimit ops resource resname rl =
     bnd (check_limit ops 2 resname ''cur'' (rlim_cur rl)) (\<lambda>(n1, cur).
     bnd (check_limit ops 3 resname ''max'' (rlim_max rl)) (\<lambda>(n2, max).
       let newrl = \<lparr>rlim_cur = cur, rlim_max = max\<rparr> in
       if n1 + n2 = 0 then luaL_error ''either cur or max must be specified''
       else
         bnd (if rlim_cur newrl \<noteq> rlim_cur rl \<or> rlim_max newrl \<noteq> rlim_max rl
              then sys (k_setrlimit ops resource newrl) else ret (Some ())) (\<lambda>r.
         case r of
           None \<Rightarrow>
             let msg = snprintf 256 (''failed to setrlimit for resource '' @ [CHR 0x27] @ resname @ [CHR 0x27]) in
             bnd lua_pushnil (\<lambda>_. bnd get_errno (\<lambda>e.
             bnd (lua_errno_new_with_message e ''setrlimit'' msg) (\<lambda>_. ret (2, rl))))
         | Some _ \<Rightarrow> getlimit ops resource resname rl)))"

definition limit_value :: "'w rlimit_ops \<Rightarrow> u64 \<Rightarrow> i64" where
  "limit_value ops l = (if l = RLIM_INFINITY ops then - 1 else l)"

definition push_limits :: "'w rlimit_ops \<Rightarrow> string \<Rightarrow> rlimit \<Rightarrow> ('u, 'w, nat) comp" where
  "push_limits ops resname rl = returning [lua_createtable 0 3,
     lua_pushstring resname, lua_setfield (- 2) ''resource'',
     lua_pushinteger (limit_value ops (rlim_cur rl)), lua_setfield (- 2) ''cur'',
     lua_pushinteger (limit_value ops (rlim_max rl)), lua_setfield (- 2) ''max''] 1"

definition rlimit_lua :: "'w rlimit_ops \<Rightarrow> ('u, 'w, nat) comp" where
  "rlimit_lua ops =
     bnd (check_rtype ops) (\<lambda>(resource, resname).
       if resource = - 1 then
         let msg = snprintf 256 (''resource '' @ [CHR 0x27] @ resname @ [CHR 0x27]
                     @ '' is not supported on this platform'') in
         returning [lua_pushnil, lua_errno_new_with_message (ENOSYS ops) ''getrlimit'' msg] 2
       else
         bnd (getlimit ops resource resname \<lparr>rlim_cur = 0, rlim_max = 0\<rparr>) (\<lambda>(rv, rl).
           if rv \<noteq> 0 then ret rv
           else
             bnd lua_gettop (\<lambda>top.
             bnd (if 1 < top then setlimit ops resource resname rl else ret (0, rl)) (\<lambda>(rv, rl).
               if rv \<noteq> 0 then ret rv
               else push_limits ops resname rl))))"

definition luaopen_testcase_rlimit :: "('u, 'w, nat) comp" where
  "luaopen_testcase_rlimit = returning [lua_pushcfunction ''rlimit_lua''] 1"

section \<open>The law of the kernel\<close>

text \<open>
  \<open>limits w r\<close> are the limits in force. Reading reports them and changes nothing; a
  successful \<open>setrlimit\<close> touches only the resource it names, and may clamp the values; a
  failed one changes nothing. A kernel that does not clamp is exact.
\<close>

locale limit_kernel =
  fixes ops :: "'w rlimit_ops" and limits :: "'w \<Rightarrow> c_int \<Rightarrow> rlimit"
  assumes get_ok: "k_getrlimit ops r w = (w', Inr l) \<Longrightarrow> w' = w \<and> l = limits w r"
    and get_err: "k_getrlimit ops r w = (w', Inl e) \<Longrightarrow> w' = w"
    and set_ok: "k_setrlimit ops r l w = (w', Inr u) \<Longrightarrow> s \<noteq> r \<Longrightarrow> limits w' s = limits w s"
    and set_err: "k_setrlimit ops r l w = (w', Inl e) \<Longrightarrow> limits w' = limits w"

locale exact_limit_kernel = limit_kernel +
  assumes set_exact: "k_setrlimit ops r l w = (w', Inr u) \<Longrightarrow> limits w' r = l"

section \<open>What a call reports\<close>

text \<open>The table a successful call returns.\<close>

definition limit_table :: "'w rlimit_ops \<Rightarrow> ltable \<Rightarrow> string \<Rightarrow> rlimit \<Rightarrow> bool" where
  "limit_table ops t name l \<longleftrightarrow>
     tget t (VStr ''resource'') = VStr name
   \<and> tget t (VStr ''cur'') = VInt (limit_value ops (rlim_cur l))
   \<and> tget t (VStr ''max'') = VInt (limit_value ops (rlim_max l))"

definition supported :: "'w rlimit_ops \<Rightarrow> string \<Rightarrow> c_int \<Rightarrow> bool" where
  "supported ops name r \<longleftrightarrow> r \<noteq> - 1 \<and>
     (case index_of name RESOURCE_NAMES of Some k \<Rightarrow> resource_of (rlimit_defs ops) k = r | None \<Rightarrow> False)"

lemma index_of_Some: "index_of s xs = Some k \<Longrightarrow> k < length xs \<and> xs ! k = s"
  by (induction xs arbitrary: k) (auto split: if_splits)

lemma RESOURCE_NAMES_no_nul: "\<forall>m \<in> set RESOURCE_NAMES. no_nul m"
  by code_simp

lemma index_of_c_str: "index_of s RESOURCE_NAMES = Some k \<Longrightarrow> c_str s = s"
  using index_of_Some [of s RESOURCE_NAMES k] RESOURCE_NAMES_no_nul nth_mem [of k RESOURCE_NAMES] by auto

lemma check_rtype_supported [c_body]:
  "supported ops name r \<Longrightarrow> stk L = VStr name # args \<Longrightarrow> check_rtype ops L = (Val (r, name), L)"
  by (auto simp: index_of_c_str supported_def check_rtype_def c_step lua_api Let_def split: option.splits dest: index_of_Some)

lemma getlimit_cases:
  "getlimit ops r name rl L = (case k_getrlimit ops r (world L) of
     (w, Inr l) \<Rightarrow> (Val (0, l), L\<lparr>world := w\<rparr>)
   | (w, Inl e) \<Rightarrow> (Val (2, rl), L\<lparr>world := w, errno := e, peak := max (peak L) (length (stk L) + 2),
       stk := stk L @ [VNil, VErrno e ''getrlimit''
         (Some (snprintf 256 (''failed to getrlimit for resource '' @ [CHR 0x27] @ name @ [CHR 0x27])))]\<rparr>))"
  by (auto simp: getlimit_def c_step lua_api sys_def Let_def split: prod.splits sum.splits)

text \<open>The value an argument asks for: the old one when it is nil or absent.\<close>

definition requested :: "'w rlimit_ops \<Rightarrow> lval option \<Rightarrow> u64 \<Rightarrow> (nat \<times> u64) option" where
  "requested ops v old = (case v of
       None \<Rightarrow> Some (0, old)
     | Some VNil \<Rightarrow> Some (0, old)
     | Some (VInt n) \<Rightarrow> (if sint n < - 1 then None
         else if sint n = - 1 then Some (1, RLIM_INFINITY ops) else Some (1, n))
     | _ \<Rightarrow> None)"

lemma check_limit_requested [c_body]:
  "requested ops (slot i (stk L)) old = Some (k, l) \<Longrightarrow> check_limit ops i name field old L = (Val (k, l), L)"
  by (auto simp: requested_def check_limit_def c_step lua_api split: option.splits lval.splits if_splits)

lemma check_limit_keeps:
  assumes "check_limit ops i name field old L = (r, L')"
  shows "L' = L"
  using assms
  by (auto simp: check_limit_def c_step lua_api split: option.splits lval.splits if_splits lua_number.splits)

text \<open>The table of a successful call is new.\<close>

lemma push_limits_run:
  "push_limits ops name l L = (Val 1, L\<lparr>stk := stk L @ [VTab (length (tabs L))], peak := max (peak L) (length (stk L) + 2),
     tabs := tabs L @ [[(VStr ''resource'', VStr name), (VStr ''cur'', VInt (limit_value ops (rlim_cur l))),
       (VStr ''max'', VInt (limit_value ops (rlim_max l)))]]\<rparr>)"
  by (simp add: push_limits_def c_step lua_api nth_append list_update_append tset_def)

text \<open>What \<open>setlimit\<close> does once the arguments are checked.\<close>

definition apply_limit :: "'w rlimit_ops \<Rightarrow> c_int \<Rightarrow> string \<Rightarrow> rlimit \<Rightarrow> rlimit \<Rightarrow> ('u, 'w, nat \<times> rlimit) comp" where
  "apply_limit ops r name rl newrl L =
     (if newrl = rl then getlimit ops r name rl L
      else case k_setrlimit ops r newrl (world L) of
        (w, Inr _) \<Rightarrow> getlimit ops r name rl (L\<lparr>world := w\<rparr>)
      | (w, Inl e) \<Rightarrow> (Val (2, rl), L\<lparr>world := w, errno := e, peak := max (peak L) (length (stk L) + 2),
          stk := stk L @ [VNil, VErrno e ''setrlimit''
            (Some (snprintf 256 (''failed to setrlimit for resource '' @ [CHR 0x27] @ name @ [CHR 0x27])))]\<rparr>))"

lemma rlimit_eq_iff: "\<lparr>rlim_cur = c, rlim_max = m\<rparr> = rl \<longleftrightarrow> c = rlim_cur rl \<and> m = rlim_max rl"
  by (cases rl) simp

lemma setlimit_run:
  assumes "check_limit ops 2 name ''cur'' (rlim_cur rl) L = (Val (n1, c), L)"
    and "check_limit ops 3 name ''max'' (rlim_max rl) L = (Val (n2, m), L)"
    and "n1 + n2 \<noteq> 0"
  shows "setlimit ops r name rl L = apply_limit ops r name rl \<lparr>rlim_cur = c, rlim_max = m\<rparr> L"
  using assms
  by (auto simp: setlimit_def c_step apply_limit_def rlimit_eq_iff sys_def lua_api Let_def
      split: prod.splits sum.splits)

lemma setlimit_Val:
  assumes "setlimit ops r name rl L = (Val x, L')"
  obtains n1 c n2 m where
    "check_limit ops 2 name ''cur'' (rlim_cur rl) L = (Val (n1, c), L)"
    "check_limit ops 3 name ''max'' (rlim_max rl) L = (Val (n2, m), L)"
    "n1 + n2 \<noteq> 0"
    "apply_limit ops r name rl \<lparr>rlim_cur = c, rlim_max = m\<rparr> L = (Val x, L')"
proof -
  from assms obtain n1 c L1 n2 m L2 where
    1: "check_limit ops 2 name ''cur'' (rlim_cur rl) L = (Val (n1, c), L1)"
       "check_limit ops 3 name ''max'' (rlim_max rl) L1 = (Val (n2, m), L2)"
    unfolding setlimit_def by (elim bnd_ValE) (auto elim!: bnd_ValE)
  from check_limit_keeps [OF 1(1)] check_limit_keeps [OF 1(2)] have L: "L1 = L" "L2 = L" by auto
  with 1 assms show ?thesis
    by (intro that [of n1 c n2 m])
       (cases rl; auto simp: setlimit_def apply_limit_def luaL_error_def c_step lua_api sys_def Let_def
          split: if_splits prod.splits sum.splits)+
qed

definition changed_only :: "('w \<Rightarrow> c_int \<Rightarrow> rlimit) \<Rightarrow> c_int \<Rightarrow> 'w \<Rightarrow> 'w \<Rightarrow> bool" where
  "changed_only limits r w w' \<longleftrightarrow> (\<forall>s. s \<noteq> r \<longrightarrow> limits w' s = limits w s)"

context limit_kernel
begin

lemma getlimit_success:
  assumes "getlimit ops r name rl L = (Val (0, l), L')"
  shows "l = limits (world L) r \<and> L' = L"
  using assms get_ok [of r "world L"]
  by (auto simp: getlimit_cases split: prod.splits sum.splits)

lemma apply_limit_success:
  assumes "apply_limit ops r name rl newrl L = (Val (0, l), L')"
  shows "l = limits (world L') r \<and> changed_only limits r (world L) (world L') \<and> tabs L' = tabs L"
  using assms set_ok [of r newrl "world L"]
  by (auto simp: apply_limit_def changed_only_def split: if_splits prod.splits sum.splits
        dest!: getlimit_success)

lemma not_one_of_two: "2 \<le> length s \<Longrightarrow> drop (length s - 2) s \<noteq> [x]"
  by (auto dest: arg_cong [where f = length])

lemma apply_limit_result:
  assumes "apply_limit ops r name rl newrl L = (Val (n, l), L')"
  shows "n = 0 \<or> n = 2 \<and> 2 \<le> length (stk L')"
  using assms by (auto simp: apply_limit_def getlimit_cases split: if_splits prod.splits sum.splits)

text \<open>
  Whatever the arguments: when a call answers with a table, the table reports the limits
  the kernel has at that moment, and no other resource has changed.
\<close>

lemma rlimit_reports:
  assumes sup: "supported ops name r"
    and run: "call (rlimit_lua ops) (VStr name # args) L = (Val [VTab t], L')"
  shows "limit_table ops (tabs L' ! t) name (limits (world L') r)"
    and "changed_only limits r (world L) (world L')"
proof -
  let ?L = "L\<lparr>stk := VStr name # args, peak := length (VStr name # args)\<rparr>"
  note ct = check_rtype_supported [OF sup, of ?L args, simplified]
  have r: "r \<noteq> - 1" using sup by (simp add: supported_def)
  obtain w x where k: "k_getrlimit ops r (world L) = (w, x)" by fastforce
  from run r obtain l where x: "x = Inr l"
    by (cases x) (auto simp: rlimit_lua_def c_step call_ops ct getlimit_cases k)
  with get_ok k have w: "w = world L" and l: "l = limits (world L) r" by auto
  let ?next = "if args = [] then ret (0, l) else setlimit ops r name l"
  have unfold: "call (rlimit_lua ops) (VStr name # args) L
      = call (bnd ?next (\<lambda>(rv, rl). if rv \<noteq> 0 then ret rv else push_limits ops name rl)) (VStr name # args) L"
    using r by (simp add: rlimit_lua_def c_step call_ops ct getlimit_cases k x w stack_ops)
  obtain n rl L1 where nx: "?next ?L = (Val (n, rl), L1)"
    using run unfolding unfold by (auto simp: call_ops c_step split: prod.splits outcome.splits)
  have res: "n \<noteq> 0 \<longrightarrow> n = 2 \<and> 2 \<le> length (stk L1)"
    using nx by (auto simp: ret_def split: if_splits elim!: setlimit_Val dest: apply_limit_result)
  with run nx have n: "n = 0" unfolding unfold
    by (auto simp: call_ops c_step not_one_of_two split: if_splits)
  have ok: "rl = limits (world L1) r \<and> changed_only limits r (world L) (world L1) \<and> tabs L1 = tabs L"
    using nx n l
    by (auto simp: ret_def split: if_splits elim!: setlimit_Val dest!: apply_limit_success)
       (simp_all add: changed_only_def)
  with run nx n show "limit_table ops (tabs L' ! t) name (limits (world L') r)"
    and "changed_only limits r (world L) (world L')"
    unfolding unfold by (auto simp: call_ops c_step push_limits_run limit_table_def tget_def nth_append)
qed

text \<open>The limits a call with arguments \<open>a\<close> and \<open>b\<close> asks for, when it asks for any.\<close>

lemma rlimit_two_args:
  assumes sup: "supported ops name r"
    and c: "requested ops (Some a) (rlim_cur (limits (world L) r)) = Some (n1, c)"
    and m: "requested ops (Some b) (rlim_max (limits (world L) r)) = Some (n2, m)"
    and n: "n1 + n2 \<noteq> 0"
    and k: "k_getrlimit ops r (world L) = (world L, Inr (limits (world L) r))"
  shows "call (rlimit_lua ops) [VStr name, a, b] L
    = call (bnd (apply_limit ops r name (limits (world L) r) \<lparr>rlim_cur = c, rlim_max = m\<rparr>)
        (\<lambda>(rv, rl). if rv \<noteq> 0 then ret rv else push_limits ops name rl)) [VStr name, a, b] L"
proof -
  let ?L = "L\<lparr>stk := [VStr name, a, b], peak := Suc (Suc (Suc 0))\<rparr>"
  note ct = check_rtype_supported [OF sup, of ?L "[a, b]", simplified]
  have r: "r \<noteq> - 1" using sup by (simp add: supported_def)
  have ch: "check_limit ops 2 name ''cur'' (rlim_cur (limits (world L) r)) ?L = (Val (n1, c), ?L)"
    "check_limit ops 3 name ''max'' (rlim_max (limits (world L) r)) ?L = (Val (n2, m), ?L)"
    using c m by (simp_all add: check_limit_requested)
  have "setlimit ops r name (limits (world L) r) ?L
      = apply_limit ops r name (limits (world L) r) \<lparr>rlim_cur = c, rlim_max = m\<rparr> ?L"
    using ch n by (rule setlimit_run)
  then show ?thesis
    using r by (simp add: rlimit_lua_def c_step call_ops ct getlimit_cases k stack_ops)
qed

text \<open>Giving a resource the limits it already has never reaches \<open>setrlimit\<close>.\<close>

lemma rlimit_same:
  assumes "supported ops name r"
    and "requested ops (Some a) (rlim_cur (limits (world L) r)) = Some (n1, rlim_cur (limits (world L) r))"
    and "requested ops (Some b) (rlim_max (limits (world L) r)) = Some (n2, rlim_max (limits (world L) r))"
    and "n1 + n2 \<noteq> 0"
    and k: "k_getrlimit ops r (world L) = (world L, Inr (limits (world L) r))"
  shows "\<exists>t. call (rlimit_lua ops) [VStr name, a, b] L
    = (Val [VTab (length (tabs L))], L\<lparr>tabs := tabs L @ [t]\<rparr>) \<and> limit_table ops t name (limits (world L) r)"
  unfolding rlimit_two_args [OF assms]
  by (intro exI [of _ "[(VStr ''resource'', VStr name),
        (VStr ''cur'', VInt (limit_value ops (rlim_cur (limits (world L) r)))),
        (VStr ''max'', VInt (limit_value ops (rlim_max (limits (world L) r))))]"])
     (simp add: call_ops c_step apply_limit_def rlimit_eq_iff getlimit_cases k push_limits_run
        limit_table_def tget_def)

end

context exact_limit_kernel
begin

lemma rlimit_sets:
  assumes "supported ops name r"
    and "requested ops (Some a) (rlim_cur (limits (world L) r)) = Some (n1, c)"
    and "requested ops (Some b) (rlim_max (limits (world L) r)) = Some (n2, m)"
    and "n1 + n2 \<noteq> 0"
    and run: "call (rlimit_lua ops) [VStr name, a, b] L = (Val [VTab t], L')"
  shows "limits (world L') r = \<lparr>rlim_cur = c, rlim_max = m\<rparr>"
proof -
  obtain w x where k: "k_getrlimit ops r (world L) = (w, x)" by fastforce
  note ct = check_rtype_supported [OF assms(1), of "L\<lparr>stk := [VStr name, a, b], peak := Suc (Suc (Suc 0))\<rparr>" "[a, b]", simplified]
  have "r \<noteq> - 1" using assms(1) by (simp add: supported_def)
  with run obtain l where "x = Inr l"
    by (cases x) (auto simp: rlimit_lua_def c_step call_ops ct getlimit_cases k)
  with get_ok k have k: "k_getrlimit ops r (world L) = (world L, Inr (limits (world L) r))" by auto
  from run obtain rl L1 where
    "apply_limit ops r name (limits (world L) r) \<lparr>rlim_cur = c, rlim_max = m\<rparr>
      (L\<lparr>stk := [VStr name, a, b], peak := Suc (Suc (Suc 0))\<rparr>) = (Val (0, rl), L1)" "world L' = world L1"
    unfolding rlimit_two_args [OF assms(1-4) k]
    by (auto simp: call_ops c_step push_limits_run not_one_of_two
          split: prod.splits outcome.splits if_splits dest: apply_limit_result)
  then show ?thesis
    using set_exact [of r "\<lparr>rlim_cur = c, rlim_max = m\<rparr>" "world L"]
    by (auto simp: apply_limit_def split: if_splits prod.splits sum.splits dest!: getlimit_success)
qed

end

section \<open>Values back and forth\<close>

text \<open>
  A reported limit is accepted back and means the same limit, as long as it is
  \<open>RLIM_INFINITY\<close> or fits a non-negative \<open>lua_Integer\<close>.
\<close>

lemma requested_limit_value:
  assumes "l = RLIM_INFINITY ops \<or> 0 \<le> sint l"
  shows "requested ops (Some (VInt (limit_value ops l))) old = Some (1, l)"
  using assms by (auto simp: requested_def limit_value_def)

lemma length_show_base_10: "n < 10 ^ 20 \<Longrightarrow> length (show_base 10 n) \<le> 20"
  using length_digits [of 10 n 20 64] by (simp add: show_base_def)

lemma length_show_int_i64: "length (show_int (sint (v :: i64))) \<le> 20"
proof -
  have v: "- (2 ^ 63) \<le> sint v" "sint v < 2 ^ 63"
    using sint_greater_eq [of v] sint_less [of v] by simp_all
  then have d: "nat (- sint v) < 10 ^ 19" "nat (sint v) < 10 ^ 19" by auto
  then show ?thesis
    using length_digits [of 10 "nat (- sint v)" 19 64] length_digits [of 10 "nat (sint v)" 19 64]
    by (simp add: show_int_def show_base_def)
qed

section \<open>Limits that are refused\<close>

text \<open>The integer a value denotes for \<open>luaL_checkinteger\<close>.\<close>

definition integer_of :: "runtime \<Rightarrow> lval \<Rightarrow> i64 option" where
  "integer_of r v = (case to_number r v of
       Some (VInt n) \<Rightarrow> Some n
     | Some (VNum x) \<Rightarrow> number_to_integer x
     | _ \<Rightarrow> None)"

lemma integer_of_VInt [simp]: "integer_of r (VInt n) = Some n"
  by (simp add: integer_of_def to_number_def)

text \<open>A limit that is reported as what means the same limit when it is given.\<close>

definition returnable :: "'w rlimit_ops \<Rightarrow> u64 \<Rightarrow> bool" where
  "returnable ops l \<longleftrightarrow> l = RLIM_INFINITY ops \<or> 0 \<le> sint l"

lemma limit_message_complete:
  assumes "supported ops name r" "field \<in> {''cur'', ''max''}"
  shows "limit_message field name v = ''invalid '' @ field @ '' for resource '' @ [CHR 0x27] @ name @ [CHR 0x27]
    @ '': expected -1 (infinity) or a non-negative integer, got '' @ show_int (sint v)"
proof -
  have "\<forall>m \<in> set RESOURCE_NAMES. length m \<le> 10" by (simp add: RESOURCE_NAMES_def)
  moreover have "name \<in> set RESOURCE_NAMES"
    using assms(1) index_of_Some [of name RESOURCE_NAMES] by (auto simp: supported_def split: option.splits)
  ultimately have "length name \<le> 10" by simp
  then show ?thesis
    using length_show_int_i64 [of v] assms(2) by (auto simp: limit_message_def snprintf_def)
qed

text \<open>An argument is refused, or accepted.\<close>

lemma check_limit_negative:
  assumes "slot i (stk L) = Some x" "integer_of (rt L) x = Some v" "sint v < - 1"
  shows "check_limit ops i name field old L = (Raise (ArgError i (limit_message field name v)), L)"
proof -
  have "type_of x \<noteq> TNil" using assms(2) by (cases x) (auto simp: integer_of_def to_number_def)
  then show ?thesis
    using assms by (auto simp: check_limit_def integer_of_def c_step lua_api split: option.splits lval.splits)
qed

lemma check_limit_accepted:
  assumes "slot i (stk L) = Some a" "a = VNil \<or> (\<exists>k. integer_of (rt L) a = Some k \<and> - 1 \<le> sint k)"
  shows "\<exists>k l. check_limit ops i name field old L = (Val (k, l), L)"
  using assms
  by (cases "a = VNil") (auto simp: check_limit_def integer_of_def c_step lua_api split: option.splits lval.splits)

lemma rlimit_setting:
  assumes "supported ops name r" "k_getrlimit ops r (world L) = (w, Inr l)" "args \<noteq> []"
    and "setlimit ops r name l (L\<lparr>stk := VStr name # args, peak := Suc (length args), world := w\<rparr>) = (Raise e, L1)"
  shows "call (rlimit_lua ops) (VStr name # args) L = (Raise e, L1\<lparr>stk := stk L, peak := peak L\<rparr>)"
proof -
  note ct = check_rtype_supported [OF assms(1), of "L\<lparr>stk := VStr name # args, peak := Suc (length args)\<rparr>" args, simplified]
  have "r \<noteq> - 1" using assms(1) by (simp add: supported_def)
  with assms(2-4) show ?thesis
    by (simp add: rlimit_lua_def c_step call_ops ct getlimit_cases stack_ops)
qed

lemma negative_limit:
  assumes "supported ops name r" "k_getrlimit ops r (world L) = (w, Inr l)"
    and "integer_of (rt L) x = Some v" "sint v < - 1"
  shows "call (rlimit_lua ops) (VStr name # x # args) L
    = (Raise (ArgError 2 (limit_message ''cur'' name v)), L\<lparr>world := w\<rparr>)"
proof -
  let ?L = "L\<lparr>stk := VStr name # x # args, peak := Suc (length (x # args)), world := w\<rparr>"
  have "setlimit ops r name l ?L = (Raise (ArgError 2 (limit_message ''cur'' name v)), ?L)"
    using check_limit_negative [of 2 ?L x v] assms(3,4) by (simp add: setlimit_def c_step)
  from rlimit_setting [OF assms(1,2) _ this] show ?thesis by simp
qed

lemma negative_limit_max:
  assumes "supported ops name r" "k_getrlimit ops r (world L) = (w, Inr l)"
    and "integer_of (rt L) x = Some v" "sint v < - 1"
    and "a = VNil \<or> (\<exists>k. integer_of (rt L) a = Some k \<and> - 1 \<le> sint k)"
  shows "call (rlimit_lua ops) (VStr name # a # x # args) L
    = (Raise (ArgError 3 (limit_message ''max'' name v)), L\<lparr>world := w\<rparr>)"
proof -
  let ?L = "L\<lparr>stk := VStr name # a # x # args, peak := Suc (length (a # x # args)), world := w\<rparr>"
  obtain k c where "check_limit ops 2 name ''cur'' (rlim_cur l) ?L = (Val (k, c), ?L)"
    using check_limit_accepted [of 2 ?L a ops name "''cur''" "rlim_cur l"] assms(5) by auto
  then have "setlimit ops r name l ?L = (Raise (ArgError 3 (limit_message ''max'' name v)), ?L)"
    using check_limit_negative [of 3 ?L x v] assms(3,4) by (simp add: setlimit_def c_step)
  from rlimit_setting [OF assms(1,2) _ this] show ?thesis by simp
qed

section \<open>A reference kernel\<close>

text \<open>Linux's numbers; an unprivileged process cannot raise a hard limit (\<open>EPERM\<close>).\<close>

record limit_world =
  lims :: "c_int \<Rightarrow> rlimit"
  privileged :: bool

definition linux_rlimits :: "string \<Rightarrow> c_int option" where
  "linux_rlimits = map_of [
     (''RLIMIT_CPU'', 0), (''RLIMIT_FSIZE'', 1), (''RLIMIT_DATA'', 2), (''RLIMIT_STACK'', 3),
     (''RLIMIT_CORE'', 4), (''RLIMIT_RSS'', 5), (''RLIMIT_NPROC'', 6), (''RLIMIT_NOFILE'', 7),
     (''RLIMIT_MEMLOCK'', 8), (''RLIMIT_AS'', 9), (''RLIMIT_LOCKS'', 10), (''RLIMIT_SIGPENDING'', 11),
     (''RLIMIT_MSGQUEUE'', 12), (''RLIMIT_NICE'', 13), (''RLIMIT_RTPRIO'', 14), (''RLIMIT_RTTIME'', 15)]"

definition ref_setrlimit :: "c_int \<Rightarrow> rlimit \<Rightarrow> (limit_world, unit) syscall" where
  "ref_setrlimit r l w =
     (if rlim_max l < rlim_cur l then (w, Inl 22)
      else if \<not> privileged w \<and> rlim_max (lims w r) < rlim_max l then (w, Inl 1)
      else (w\<lparr>lims := (lims w)(r := l)\<rparr>, Inr ()))"

definition ref_rlimit_ops :: "limit_world rlimit_ops" where
  "ref_rlimit_ops = \<lparr>
     rlimit_defs = linux_rlimits,
     RLIM_INFINITY = - 1,
     ENOSYS = 38,
     k_getrlimit = (\<lambda>r w. (w, Inr (lims w r))),
     k_setrlimit = ref_setrlimit\<rparr>"

interpretation ref_limits: exact_limit_kernel ref_rlimit_ops lims
  by unfold_locales (auto simp: ref_rlimit_ops_def ref_setrlimit_def split: if_splits)

section \<open>Properties\<close>

definition limit_world0 :: limit_world where
  "limit_world0 = \<lparr>lims = (\<lambda>_. \<lparr>rlim_cur = 1024, rlim_max = 4096\<rparr>), privileged = False\<rparr>"

definition limit_world1 :: limit_world where
  "limit_world1 = \<lparr>lims = (\<lambda>_. \<lparr>rlim_cur = 1024, rlim_max = 9223372036854775809\<rparr>), privileged = True\<rparr>"

lemma supported_nofile: "supported ref_rlimit_ops ''nofile'' 7"
  by (simp add: supported_def ref_rlimit_ops_def RESOURCE_NAMES_def RESOURCE_MACROS_def resource_of_def
      linux_rlimits_def)

lemma limit_world0_get:
  "k_getrlimit ref_rlimit_ops 7 (world L) = (world L, Inr (lims (world L) 7))"
  by (simp add: ref_rlimit_ops_def)

lemma limit_get:
  "k_getrlimit ref_rlimit_ops r w = (w, Inr (lims w r))"
  by (simp add: ref_rlimit_ops_def)





text \<open>C17. The limits a call reports can be given back when they are infinite or fit a non-negative
\<open>lua_Integer\<close>: that is accepted, reports the same table, and does not even call \<open>setrlimit\<close>. A limit
from \<open>2 ^ 63\<close> on that is not infinity is reported as a negative number, and giving one below -1 back
raises an argument error, so that what was read is refused; nothing has changed then.\<close>

theorem rlimit_read_back:
  assumes "limit_kernel ops limits" and "supported ops name r"
    and "k_getrlimit ops r (world L) = (world L, Inr (limits (world L) r))"
  shows "case limits (world L) r of l \<Rightarrow>
    (returnable ops (rlim_cur l) \<and> returnable ops (rlim_max l) \<longrightarrow>
      (\<exists>t. call (rlimit_lua ops) [VStr name, VInt (limit_value ops (rlim_cur l)), VInt (limit_value ops (rlim_max l))] L
          = (Val [VTab (length (tabs L))], L\<lparr>tabs := tabs L @ [t]\<rparr>) \<and> limit_table ops t name l))
    \<and> (sint (limit_value ops (rlim_cur l)) < - 1 \<or> sint (limit_value ops (rlim_max l)) < - 1 \<longrightarrow>
      (\<exists>i msg. call (rlimit_lua ops) [VStr name, VInt (limit_value ops (rlim_cur l)), VInt (limit_value ops (rlim_max l))] L
          = (Raise (ArgError i msg), L)))"
proof -
  let ?l = "limits (world L) r"
  have "\<exists>i msg. call (rlimit_lua ops) [VStr name, VInt (limit_value ops (rlim_cur ?l)), VInt (limit_value ops (rlim_max ?l))] L
      = (Raise (ArgError i msg), L)"
    if "sint (limit_value ops (rlim_cur ?l)) < - 1 \<or> sint (limit_value ops (rlim_max ?l)) < - 1"
  proof (cases "sint (limit_value ops (rlim_cur ?l)) < - 1")
    case True
    from negative_limit [OF assms(2,3) integer_of_VInt this, of "[VInt (limit_value ops (rlim_max ?l))]"]
    show ?thesis by simp
  next
    case False
    with that have "sint (limit_value ops (rlim_max ?l)) < - 1" by simp
    from negative_limit_max [OF assms(2,3) integer_of_VInt this, of "VInt (limit_value ops (rlim_cur ?l))" "[]"] False
    show ?thesis by simp
  qed
  moreover have "\<exists>t. call (rlimit_lua ops) [VStr name, VInt (limit_value ops (rlim_cur ?l)), VInt (limit_value ops (rlim_max ?l))] L
      = (Val [VTab (length (tabs L))], L\<lparr>tabs := tabs L @ [t]\<rparr>) \<and> limit_table ops t name ?l"
    if "returnable ops (rlim_cur ?l)" "returnable ops (rlim_max ?l)"
    by (rule limit_kernel.rlimit_same [OF assms(1,2) requested_limit_value [OF that(1) [unfolded returnable_def]]
        requested_limit_value [OF that(2) [unfolded returnable_def]] _ assms(3)]) simp
  ultimately show ?thesis by simp
qed

text \<open>The limits 1024 and 4096 go round, a hard limit of \<open>2 ^ 63 + 1\<close> does not.\<close>

lemma rlimit_read_back_witness:
  "(\<exists>t. call (rlimit_lua ref_rlimit_ops) [VStr ''nofile'', VInt 1024, VInt 4096] (lua0 limit_world0 :: (unit, limit_world) lua)
      = (Val [VTab 0], (lua0 limit_world0)\<lparr>tabs := [t]\<rparr>))
   \<and> (\<exists>i msg. call (rlimit_lua ref_rlimit_ops) [VStr ''nofile'', VInt 1024, VInt 9223372036854775809] (lua0 limit_world1 :: (unit, limit_world) lua)
      = (Raise (ArgError i msg), lua0 limit_world1))"
proof -
  have l: "lims limit_world0 7 = \<lparr>rlim_cur = 1024, rlim_max = 4096\<rparr>"
    "lims limit_world1 7 = \<lparr>rlim_cur = 1024, rlim_max = 9223372036854775809\<rparr>"
    by (simp_all add: limit_world0_def limit_world1_def)
  have i: "RLIM_INFINITY ref_rlimit_ops = - 1" by (simp add: ref_rlimit_ops_def)
  note read = rlimit_read_back [OF ref_limits.limit_kernel_axioms supported_nofile limit_world0_get]
  from read [of "lua0 limit_world0 :: (unit, limit_world) lua"] read [of "lua0 limit_world1 :: (unit, limit_world) lua"]
  show ?thesis by (auto simp: l i limit_value_def returnable_def)
qed

text \<open>C33. A current or maximum limit below -1, as any value that denotes an integer and whatever
arguments follow, raises an argument error for that argument, whose message is complete (it fits
the 128 bytes it is formatted into for every resource and value), and nothing has been set: only
the limits have been read. For the maximum, the current limit is one that is accepted. (When both
are invalid, C leaves open which one is reported; the model reports the first.)\<close>

theorem rlimit_rejects_negative:
  assumes "supported ops name r" and "k_getrlimit ops r (world L) = (w, Inr l)"
    and "integer_of (rt L) x = Some v" and "sint v < - 1"
  shows "call (rlimit_lua ops) (VStr name # x # args) L = (Raise (ArgError 2
      (''invalid cur for resource '' @ [CHR 0x27] @ name @ [CHR 0x27]
        @ '': expected -1 (infinity) or a non-negative integer, got '' @ show_int (sint v))), L\<lparr>world := w\<rparr>)
   \<and> (a = VNil \<or> (\<exists>k. integer_of (rt L) a = Some k \<and> - 1 \<le> sint k) \<longrightarrow>
      call (rlimit_lua ops) (VStr name # a # x # args) L = (Raise (ArgError 3
      (''invalid max for resource '' @ [CHR 0x27] @ name @ [CHR 0x27]
        @ '': expected -1 (infinity) or a non-negative integer, got '' @ show_int (sint v))), L\<lparr>world := w\<rparr>))"
  using negative_limit [OF assms] negative_limit_max [OF assms] limit_message_complete [OF assms(1)] by simp

lemma rlimit_rejects_negative_witness:
  "call (rlimit_lua ref_rlimit_ops) [VStr ''nofile'', VInt (- 2)] (lua0 limit_world0 :: (unit, limit_world) lua)
    = (Raise (ArgError 2 (''invalid cur for resource '' @ [CHR 0x27] @ ''nofile'' @ [CHR 0x27]
        @ '': expected -1 (infinity) or a non-negative integer, got -2'')), lua0 limit_world0)
   \<and> call (rlimit_lua ref_rlimit_ops) [VStr ''nofile'', VNil, VInt (- 2)] (lua0 limit_world0 :: (unit, limit_world) lua)
    = (Raise (ArgError 3 (''invalid max for resource '' @ [CHR 0x27] @ ''nofile'' @ [CHR 0x27]
        @ '': expected -1 (infinity) or a non-negative integer, got -2'')), lua0 limit_world0)"
proof -
  have s: "show_int (- 2) = ''-2''" by code_simp
  let ?L = "lua0 limit_world0 :: (unit, limit_world) lua"
  have "integer_of (rt ?L) (VInt (- 2)) = Some (- 2)" "sint (- 2 :: i64) < - 1" by simp_all
  from rlimit_rejects_negative [OF supported_nofile limit_world0_get this, where a = VNil and args = "[]"] s
  show ?thesis by simp
qed

end
