(* ===== verification/Process.thy ===== *)
theory Process
  imports Lua_Api
begin

unbundle bit_operations_syntax

text \<open>
  The module \<open>testcase.fork\<close> (src/fork.c): process objects, which hold a pid that is 0 in
  the child, positive in the parent while the child is not reaped, and negative once it is.
\<close>

section \<open>The system\<close>

text \<open>\<open>fork\<close>, \<open>waitpid\<close> (which returns a pid and a status word) and \<open>kill\<close>.\<close>

record 'w proc_ops =
  k_fork :: "('w, c_int) syscall"
  k_waitpid :: "c_int \<Rightarrow> c_int \<Rightarrow> ('w, c_int \<times> c_int) syscall"
  k_proc_kill :: "c_int \<Rightarrow> c_int \<Rightarrow> ('w, unit) syscall"

text \<open>Constants and the status macros of <sys/wait.h>, with the values of Linux and glibc.\<close>

definition WNOHANG :: c_int where "WNOHANG = 1"
definition WUNTRACED :: c_int where "WUNTRACED = 2"
definition WCONTINUED :: c_int where "WCONTINUED = 8"
definition SIGKILL :: c_int where "SIGKILL = 9"

definition WTERMSIG :: "c_int \<Rightarrow> c_int" where
  "WTERMSIG st = st AND 0x7f"

definition WIFEXITED :: "c_int \<Rightarrow> bool" where
  "WIFEXITED st \<longleftrightarrow> WTERMSIG st = 0"

definition WEXITSTATUS :: "c_int \<Rightarrow> c_int" where
  "WEXITSTATUS st = drop_bit 8 (st AND 0xff00)"

text \<open>\<open>((signed char)((st & 0x7f) + 1) >> 1) > 0\<close>\<close>

definition WIFSIGNALED :: "c_int \<Rightarrow> bool" where
  "WIFSIGNALED st \<longleftrightarrow> 0 < sint (ucast (WTERMSIG st + 1) :: 8 word) div 2"

definition WIFSTOPPED :: "c_int \<Rightarrow> bool" where
  "WIFSTOPPED st \<longleftrightarrow> st AND 0xff = 0x7f"

definition WSTOPSIG :: "c_int \<Rightarrow> c_int" where
  "WSTOPSIG st = WEXITSTATUS st"

definition WIFCONTINUED :: "c_int \<Rightarrow> bool" where
  "WIFCONTINUED st \<longleftrightarrow> st = 0xffff"

definition WCOREDUMP :: "c_int \<Rightarrow> bool" where
  "WCOREDUMP st \<longleftrightarrow> st AND 0x80 \<noteq> 0"

section \<open>The functions\<close>

definition PROC_MT :: string where
  "PROC_MT = ''testcase.process''"

text \<open>The three values of a failed \<open>wait\<close>: nil, the text of \<open>errno\<close>, \<open>errno\<close>.\<close>

definition push_wait_error :: "('u, 'w, nat) comp" where
  "push_wait_error = bnd lua_pushnil (\<lambda>_. bnd push_strerror (\<lambda>_. bnd get_errno (\<lambda>e.
     returning [lua_pushinteger (widen e)] 3)))"

definition wait_lua :: "'w proc_ops \<Rightarrow> (c_int, 'w, nat) comp" where
  "wait_lua ops =
     bnd (luaL_checkudata 1 PROC_MT) (\<lambda>p.
     bnd (load p) (\<lambda>pid.
       if pid = 0 then luaL_error ''cannot wait for self-process to terminate''
       else if sint pid < 1 then bnd (set_errno ECHILD) (\<lambda>_. push_wait_error)
       else bnd (sys (k_waitpid ops pid (WUNTRACED OR WCONTINUED))) (\<lambda>r. case r of
         None \<Rightarrow> push_wait_error
       | Some (_, wstatus) \<Rightarrow>
           bnd (seqs [lua_createtable 0 5, lua_pushinteger (widen pid), lua_setfield (- 2) ''pid'']) (\<lambda>_.
             if WIFEXITED wstatus then
               returning [store p (- pid), lua_pushinteger (widen (WEXITSTATUS wstatus)),
                          lua_setfield (- 2) ''exit''] 1
             else if WIFSIGNALED wstatus then
               bnd (seqs [store p (- pid), lua_pushinteger (widen (WTERMSIG wstatus)),
                          lua_setfield (- 2) ''sigterm'']) (\<lambda>_.
                 if WCOREDUMP wstatus
                 then returning [lua_pushboolean True, lua_setfield (- 2) ''coredump''] 1
                 else ret 1)
             else if WIFSTOPPED wstatus then
               returning [lua_pushinteger (widen (WSTOPSIG wstatus)), lua_setfield (- 2) ''sigstop''] 1
             else if WIFCONTINUED wstatus then
               returning [lua_pushboolean True, lua_setfield (- 2) ''sigcont''] 1
             else ret 1))))"

definition is_child_lua :: "(c_int, 'w, nat) comp" where
  "is_child_lua =
     bnd (luaL_checkudata 1 PROC_MT) (\<lambda>p. bnd (load p) (\<lambda>pid. returning [lua_pushboolean (pid = 0)] 1))"

definition pid_lua :: "(c_int, 'w, nat) comp" where
  "pid_lua =
     bnd (luaL_checkudata 1 PROC_MT) (\<lambda>p. bnd (load p) (\<lambda>pid. returning [lua_pushinteger (widen pid)] 1))"

definition proc_gc_lua :: "'w proc_ops \<Rightarrow> (c_int, 'w, nat) comp" where
  "proc_gc_lua ops =
     bnd (luaL_checkudata 1 PROC_MT) (\<lambda>p.
     bnd (load p) (\<lambda>pid.
       if pid = 0 then exit_process 0
       else if 1 < sint pid then
         bnd (sys (k_waitpid ops pid WNOHANG)) (\<lambda>r.
           if map_option fst r = Some 0 then
             bnd (sys (k_proc_kill ops pid SIGKILL)) (\<lambda>r.
               if r = Some () then bnd (sys (k_waitpid ops pid 0)) (\<lambda>_. ret 0)
               else ret 0)
           else ret 0)
       else ret 0))"

definition proc_tostring_lua :: "(c_int, 'w, nat) comp" where
  "proc_tostring_lua = bnd (luaL_checkudata 1 PROC_MT) (\<lambda>_. returning [push_udname PROC_MT 1] 1)"

definition fork_lua :: "'w proc_ops \<Rightarrow> (c_int, 'w, nat) comp" where
  "fork_lua ops =
     bnd lua_newuserdata (\<lambda>p.
     bnd (sys (k_fork ops)) (\<lambda>r. case r of
       None \<Rightarrow>
         bnd lua_pushnil (\<lambda>_. bnd get_errno (\<lambda>e.
           if e = EAGAIN then returning [lua_pushnil, lua_pushboolean True] 3
           else returning [push_strerror, lua_pushinteger (widen e)] 3))
     | Some pid \<Rightarrow>
         returning [store p pid, luaL_getmetatable PROC_MT, lua_setmetatable] 1))"

definition proc_mmethods :: "(string \<times> string) list" where
  "proc_mmethods = [(''__gc'', ''gc_lua''), (''__tostring'', ''tostring_lua'')]"

definition proc_methods :: "(string \<times> string) list" where
  "proc_methods = [(''pid'', ''pid_lua''), (''is_child'', ''is_child_lua''), (''wait'', ''wait_lua'')]"

definition luaopen_testcase_fork :: "('u, 'w, nat) comp" where
  "luaopen_testcase_fork =
     bnd (luaL_newmetatable PROC_MT) (\<lambda>_.
       returning [reg_rawset proc_mmethods,
         lua_pushstring ''__index'', lua_newtable, reg_rawset proc_methods, lua_rawset (- 3),
         lua_pop 1, lua_pushcfunction ''fork_lua''] 1)"

section \<open>Status words\<close>

text \<open>
  What a status word says, and how the kernel writes it: the exit status in the second
  byte, the signal that ended the process in the first with a flag for a core dump, 0x7f
  and the signal in the second byte for a stop.
\<close>

datatype event = Exited "8 word" | Signaled "7 word" bool | Stopped "8 word" | Continued

definition status_of :: "event \<Rightarrow> c_int" where
  "status_of ev = (case ev of
       Exited c \<Rightarrow> push_bit 8 (ucast c)
     | Signaled s core \<Rightarrow> ucast s OR (if core then 0x80 else 0)
     | Stopped s \<Rightarrow> push_bit 8 (ucast s) OR 0x7f
     | Continued \<Rightarrow> 0xffff)"

text \<open>0 and 0x7f are no signals that end a process, and no signal has the number 255.\<close>

fun proper :: "event \<Rightarrow> bool" where
  "proper (Exited c) = True"
| "proper (Signaled s core) = (s \<noteq> 0 \<and> s \<noteq> 0x7f)"
| "proper (Stopped s) = (s \<noteq> 0xff)"
| "proper Continued = True"

fun terminal :: "event \<Rightarrow> bool" where
  "terminal (Exited c) = True"
| "terminal (Signaled s core) = True"
| "terminal _ = False"

lemma WTERMSIG_take_bit: "WTERMSIG st = take_bit 7 st"
proof -
  have "(0x7f :: c_int) = mask 7" by (simp add: mask_eq_exp_minus_1)
  then show ?thesis by (simp only: WTERMSIG_def take_bit_eq_mask)
qed

lemma WIFSTOPPED_take_bit: "WIFSTOPPED st \<longleftrightarrow> take_bit 8 st = 0x7f"
proof -
  have "(0xff :: c_int) = mask 8" by (simp add: mask_eq_exp_minus_1)
  then show ?thesis by (simp only: WIFSTOPPED_def take_bit_eq_mask)
qed

lemma bit_8: "bit (c :: 8 word) n \<Longrightarrow> n < 8"
  by (drule bit_imp_le_length) simp

lemma bit_7: "bit (c :: 7 word) n \<Longrightarrow> n < 7"
  by (drule bit_imp_le_length) simp

lemma WEXITSTATUS_take_bit: "WEXITSTATUS st = take_bit 8 (drop_bit 8 st)"
proof -
  have m: "(0xff00 :: c_int) = push_bit 8 (mask 8)" by (simp add: mask_eq_exp_minus_1 push_bit_eq_mult)
  show ?thesis
    unfolding WEXITSTATUS_def m by (intro bit_word_eqI) (auto simp: bit_simps)
qed

lemma WIFSIGNALED_iff: "WIFSIGNALED st \<longleftrightarrow> WTERMSIG st \<noteq> 0 \<and> WTERMSIG st \<noteq> 0x7f"
proof -
  define k where "k = unat (WTERMSIG st)"
  have t: "WTERMSIG st = of_nat k" by (simp add: k_def)
  have "k = take_bit 7 (unat st)" by (simp add: k_def WTERMSIG_take_bit unsigned_take_bit_eq)
  then have k: "k < 128" by (simp add: take_bit_nat_less_exp [of 7, simplified])
  have "WTERMSIG st + 1 = of_nat (Suc k)" by (simp add: t)
  then have u: "(ucast (WTERMSIG st + 1) :: 8 word) = of_nat (Suc k)"
    using k by (simp only:) (simp add: unsigned_of_nat take_bit_nat_eq_self del: of_nat_Suc)
  have s: "sint (ucast (WTERMSIG st + 1) :: 8 word) = (if k = 127 then - 128 else int k + 1)"
  proof (cases "k = 127")
    case True
    then show ?thesis unfolding u by simp
  next
    case False
    then have "signed_take_bit 7 (int (Suc k)) = int (Suc k)"
      using k by (intro signed_take_bit_int_eq_self) auto
    then show ?thesis unfolding u using False by (simp add: signed_of_nat del: of_nat_Suc)
  qed
  have "WTERMSIG st = 0 \<longleftrightarrow> k = 0" "WTERMSIG st = 0x7f \<longleftrightarrow> k = 127"
    unfolding k_def by (simp_all add: word_unat_eq_iff)
  then show ?thesis unfolding WIFSIGNALED_def s by auto
qed

text \<open>The macros read back what the kernel wrote.\<close>

lemma status_exited [simp]:
  "WTERMSIG (status_of (Exited c)) = 0"
  "WEXITSTATUS (status_of (Exited c)) = ucast c"
proof -
  show "WTERMSIG (status_of (Exited c)) = 0"
    by (simp add: status_of_def WTERMSIG_take_bit take_bit_push_bit)
  show "WEXITSTATUS (status_of (Exited c)) = ucast c"
    by (intro bit_word_eqI) (auto simp: status_of_def WEXITSTATUS_take_bit bit_simps dest: bit_8)
qed

lemma take_bit_ucast_7 [simp]: "take_bit 7 (ucast (s :: 7 word) :: c_int) = ucast s"
  by (intro bit_word_eqI) (auto simp: bit_simps dest: bit_7)

lemma unat_ucast_7 [simp]: "unat (ucast (s :: 7 word) :: c_int) = unat s"
proof -
  have "unat s < 2 ^ LENGTH(7)" by (rule unsigned_less)
  then show ?thesis by (simp add: unsigned_ucast_eq take_bit_nat_eq_self)
qed

lemma ucast_7_eq [simp]:
  "(ucast (s :: 7 word) :: c_int) = 0 \<longleftrightarrow> s = 0"
  "(ucast (s :: 7 word) :: c_int) = 0x7f \<longleftrightarrow> s = 0x7f"
  by (simp_all add: word_unat_eq_iff)

lemma status_signaled [simp]:
  "WTERMSIG (status_of (Signaled s core)) = ucast s"
  "WCOREDUMP (status_of (Signaled s core)) \<longleftrightarrow> core"
proof -
  have m: "(0x80 :: c_int) = push_bit 7 1" by simp
  show "WTERMSIG (status_of (Signaled s core)) = ucast s"
    by (simp add: status_of_def WTERMSIG_take_bit)
  have n: "ucast s AND (0x80 :: c_int) = 0"
    unfolding m by (intro bit_word_eqI) (auto simp only: bit_simps bit_0_eq bot_apply bot_bool_def dest: bit_7)
  show "WCOREDUMP (status_of (Signaled s core)) \<longleftrightarrow> core"
    by (simp add: status_of_def WCOREDUMP_def bit.conj_disj_distrib2 n)
qed

lemma status_stopped [simp]:
  "WTERMSIG (status_of (Stopped s)) = 0x7f"
  "WIFSTOPPED (status_of (Stopped s))"
  "WSTOPSIG (status_of (Stopped s)) = ucast s"
proof -
  show "WTERMSIG (status_of (Stopped s)) = 0x7f"
    by (simp add: status_of_def WTERMSIG_take_bit take_bit_push_bit)
  show "WIFSTOPPED (status_of (Stopped s))"
    by (simp add: status_of_def WIFSTOPPED_take_bit take_bit_push_bit)
  have "drop_bit 8 (0x7f :: c_int) = 0" by simp
  then have "WSTOPSIG (status_of (Stopped s)) = WEXITSTATUS (status_of (Exited s))"
    by (simp add: WSTOPSIG_def WEXITSTATUS_take_bit status_of_def)
  then show "WSTOPSIG (status_of (Stopped s)) = ucast s" by simp
qed

lemma status_continued [simp]:
  "WTERMSIG (status_of Continued) = 0x7f"
  "\<not> WIFSTOPPED (status_of Continued)"
  "WIFCONTINUED (status_of Continued)"
  by (simp_all add: status_of_def WIFCONTINUED_def WTERMSIG_def WIFSTOPPED_def)

section \<open>What \<open>wait\<close> reports\<close>

text \<open>The table \<open>wait\<close> returns for an event of the process \<open>pid\<close>.\<close>

definition event_table :: "c_int \<Rightarrow> event \<Rightarrow> ltable" where
  "event_table pid ev = (VStr ''pid'', VInt (widen pid)) # (case ev of
       Exited c \<Rightarrow> [(VStr ''exit'', VInt (ucast c))]
     | Signaled s core \<Rightarrow> (VStr ''sigterm'', VInt (ucast s)) # (if core then [(VStr ''coredump'', VBool True)] else [])
     | Stopped s \<Rightarrow> [(VStr ''sigstop'', VInt (ucast s))]
     | Continued \<Rightarrow> [(VStr ''sigcont'', VBool True)])"

lemma widen_ucast [simp]:
  "(scast (ucast (c :: 8 word) :: c_int) :: i64) = ucast c"
  "(scast (ucast (s :: 7 word) :: c_int) :: i64) = ucast s"
  by (rule bit_word_eqI; auto simp: bit_simps min_def dest: bit_7 bit_8)+

lemma status_tests [simp]:
  "WIFEXITED (status_of (Exited c))"
  "proper (Signaled s core) \<Longrightarrow> \<not> WIFEXITED (status_of (Signaled s core))"
  "proper (Signaled s core) \<Longrightarrow> WIFSIGNALED (status_of (Signaled s core))"
  "\<not> WIFEXITED (status_of (Stopped t))" "\<not> WIFSIGNALED (status_of (Stopped t))"
  "\<not> WIFEXITED (status_of Continued)" "\<not> WIFSIGNALED (status_of Continued)"
  by (simp_all add: WIFEXITED_def WIFSIGNALED_iff del: proper.simps) simp_all

lemma wait_event:
  assumes "object_at L p PROC_MT pid" "0 < sint pid" "proper ev"
    and "k_waitpid ops pid (WUNTRACED OR WCONTINUED) (world L) = (w, Inr (r, status_of ev))"
  shows "call (wait_lua ops) [VUd p] L = (Val [VTab (length (tabs L))],
    (if terminal ev then set_object p (- pid) else id)
      (L\<lparr>world := w, tabs := tabs L @ [event_table pid ev]\<rparr>))"
  using assms
  by (cases ev) (auto simp: wait_lua_def c_step c_body call_ops stack_ops table_ops sys_def
      event_table_def tset_def nth_append list_update_append)

text \<open>Without assumptions on the status: the object is negated exactly when the process ended.\<close>

definition ended :: "c_int \<Rightarrow> bool" where
  "ended st \<longleftrightarrow> WIFEXITED st \<or> WIFSIGNALED st"

lemma wait_status:
  assumes "object_at L p PROC_MT pid" "0 < sint pid"
    and "k_waitpid ops pid (WUNTRACED OR WCONTINUED) (world L) = (w, Inr (r, st))"
  shows "\<exists>ts. call (wait_lua ops) [VUd p] L = (Val [VTab (length (tabs L))],
    (if ended st then set_object p (- pid) else id) (L\<lparr>world := w, tabs := ts\<rparr>))"
  using assms
  by (auto simp: wait_lua_def ended_def c_step c_body call_ops stack_ops table_ops sys_def
      tset_def nth_append list_update_append)

lemma wait_failed:
  assumes "object_at L p PROC_MT pid" "0 < sint pid"
    and "k_waitpid ops pid (WUNTRACED OR WCONTINUED) (world L) = (w, Inl e)"
  shows "call (wait_lua ops) [VUd p] L
    = (Val [VNil, VStr (strerror (rt L) e), VInt (widen e)], L\<lparr>world := w, errno := e\<rparr>)"
  using assms
  by (auto simp: wait_lua_def push_wait_error_def c_step c_body call_ops stack_ops sys_def)

lemma wait_reaped:
  assumes "object_at L p PROC_MT pid" "sint pid < 0"
  shows "call (wait_lua ops) [VUd p] L
    = (Val [VNil, VStr (strerror (rt L) ECHILD), VInt (widen ECHILD)], L\<lparr>errno := ECHILD\<rparr>)"
  using assms
  by (auto simp: wait_lua_def push_wait_error_def c_step c_body call_ops stack_ops sys_def)

lemma wait_self:
  "object_at L p PROC_MT 0 \<Longrightarrow> call (wait_lua ops) [VUd p] L
    = (Raise (MsgError ''cannot wait for self-process to terminate''), L)"
  by (simp add: wait_lua_def luaL_error_def c_step c_body call_ops)

lemma gc_reaped:
  assumes "object_at L p PROC_MT pid" "sint pid < 0"
  shows "call (proc_gc_lua ops) [VUd p] L = (Val [], L)"
  using assms by (auto simp: proc_gc_lua_def c_step c_body call_ops)

lemma gc_self:
  "object_at L p PROC_MT 0 \<Longrightarrow> call (proc_gc_lua ops) [VUd p] L = (ExitProcess 0, L)"
  by (simp add: proc_gc_lua_def c_step c_body call_ops)

lemma proc_queries:
  assumes "object_at L p PROC_MT pid"
  shows "call is_child_lua [VUd p] L = (Val [VBool (pid = 0)], L)"
    and "call pid_lua [VUd p] L = (Val [VInt (widen pid)], L)"
    and "call proc_tostring_lua [VUd p] L = (Val [VStr (PROC_MT @ '': '' @ fmt_ptr (rt L) (VUd p))], L)"
  using assms
  by (simp_all add: is_child_lua_def pid_lua_def proc_tostring_lua_def push_udname_def c_step c_body call_ops stack_ops)

text \<open>What the collector does to an unreaped process, as a function of the system alone.\<close>

definition collect :: "'w proc_ops \<Rightarrow> c_int \<Rightarrow> 'w \<Rightarrow> 'w" where
  "collect ops pid w = (case k_waitpid ops pid WNOHANG w of
       (w1, Inr (r, st)) \<Rightarrow>
         if r = 0 then (case k_proc_kill ops pid SIGKILL w1 of
             (w2, Inr _) \<Rightarrow> fst (k_waitpid ops pid 0 w2)
           | (w2, Inl _) \<Rightarrow> w2)
         else w1
     | (w1, Inl _) \<Rightarrow> w1)"

lemma gc_collects:
  assumes "object_at L p PROC_MT pid" "1 < sint pid"
  shows "\<exists>e. call (proc_gc_lua ops) [VUd p] L
    = (Val [], L\<lparr>world := collect ops pid (world L), errno := e\<rparr>)"
  using assms
  by (auto simp: proc_gc_lua_def collect_def c_step c_body call_ops sys_def
      intro: exI [of _ "errno L"] split: prod.splits sum.splits)

section \<open>Forking\<close>

lemma fork_object:
  assumes "map_of (registry L) PROC_MT = Some a" "k_fork ops (world L) = (w, Inr pid)"
  shows "call (fork_lua ops) [] L
    = (Val [VUd (length (uds L))], new_object PROC_MT pid (L\<lparr>world := w\<rparr>))"
  using assms
  by (simp add: fork_lua_def c_step call_ops stack_ops userdata_ops sys_def new_object_def nth_append
      list_update_append)

lemma fork_failed:
  assumes "k_fork ops (world L) = (w, Inl e)"
  shows "\<exists>us. call (fork_lua ops) [] L
    = (Val [VNil, if e = EAGAIN then VNil else VStr (strerror (rt L) e),
            if e = EAGAIN then VBool True else VInt (widen e)],
       L\<lparr>world := w, errno := e, uds := us\<rparr>)"
  using assms
  by (auto simp: fork_lua_def c_step call_ops stack_ops userdata_ops sys_def
      intro: exI [of _ "uds L @ [\<lparr>meta = None, block = None\<rparr>]"])

section \<open>The law of child processes\<close>

text \<open>
  \<open>child w\<close> are the pids of the children the process has not waited for, ended or not, and
  \<open>signals w\<close> the signals it has sent. \<open>waitpid\<close> only reports on a child, and the report
  that it ended removes it; without \<open>WUNTRACED\<close> and \<open>WCONTINUED\<close> nothing else is reported.
\<close>

locale child_kernel =
  fixes ops :: "'w proc_ops" and child :: "'w \<Rightarrow> c_int set"
    and signals :: "'w \<Rightarrow> (c_int \<times> c_int) list"
  assumes wait_ok: "0 < sint pid \<Longrightarrow> k_waitpid ops pid opts w = (w', Inr (r, st)) \<Longrightarrow>
      pid \<in> child w \<and> signals w' = signals w \<and>
      (r = 0 \<and> child w' = child w
       \<or> r = pid \<and> child w' = (if ended st then child w - {pid} else child w))"
    and wait_ended: "0 < sint pid \<Longrightarrow> k_waitpid ops pid opts w = (w', Inr (r, st)) \<Longrightarrow>
      opts AND (WUNTRACED OR WCONTINUED) = 0 \<Longrightarrow> r \<noteq> 0 \<Longrightarrow> ended st"
    and wait_blocks: "0 < sint pid \<Longrightarrow> k_waitpid ops pid opts w = (w', Inr (r, st)) \<Longrightarrow>
      opts AND WNOHANG = 0 \<Longrightarrow> r \<noteq> 0"
    and wait_err: "k_waitpid ops pid opts w = (w', Inl e) \<Longrightarrow> child w' = child w \<and> signals w' = signals w"
    and kill_ok: "k_proc_kill ops pid s w = (w', Inr u) \<Longrightarrow>
      child w' = child w \<and> signals w' = signals w @ [(pid, s)]"
    and kill_err: "k_proc_kill ops pid s w = (w', Inl e) \<Longrightarrow> child w' = child w \<and> signals w' = signals w"
    and fork_parent: "k_fork ops w = (w', Inr pid) \<Longrightarrow> pid \<noteq> 0 \<Longrightarrow>
      0 < sint pid \<and> pid \<notin> child w \<and> child w' = insert pid (child w) \<and> signals w' = signals w"
    and fork_child: "k_fork ops w = (w', Inr 0) \<Longrightarrow> child w' = {}"
    and fork_err: "k_fork ops w = (w', Inl e) \<Longrightarrow> child w' = child w \<and> signals w' = signals w"

text \<open>
  The calls of the collector that can fail: the question whether the child has ended, \<open>kill\<close> when
  it has not, and the wait for the killed child.
\<close>

definition collecting_fails :: "'w proc_ops \<Rightarrow> c_int \<Rightarrow> 'w \<Rightarrow> bool" where
  "collecting_fails ops pid w = (case k_waitpid ops pid WNOHANG w of
       (_, Inl _) \<Rightarrow> True
     | (w1, Inr (r, _)) \<Rightarrow> r = 0 \<and> (case k_proc_kill ops pid SIGKILL w1 of
         (_, Inl _) \<Rightarrow> True
       | (w2, Inr _) \<Rightarrow> (case k_waitpid ops pid 0 w2 of (_, Inl _) \<Rightarrow> True | _ \<Rightarrow> False)))"

context child_kernel
begin

text \<open>The collector signals nobody but a child that has not ended, and that at most once.\<close>

lemma wait_any:
  assumes "0 < sint pid" and "k_waitpid ops pid opts w = (w', x)"
  shows "signals w' = signals w" and "child w' = child w \<or> child w' = child w - {pid}"
proof -
  have "signals w' = signals w \<and> (child w' = child w \<or> child w' = child w - {pid})"
  proof (cases x)
    case (Inl e)
    with assms wait_err show ?thesis by blast
  next
    case (Inr q)
    then obtain r st where "x = Inr (r, st)" by (cases q) auto
    with wait_ok [OF assms(1)] assms(2) show ?thesis by (metis (full_types))
  qed
  then show "signals w' = signals w" and "child w' = child w \<or> child w' = child w - {pid}" by auto
qed

lemma collect_effect:
  assumes "1 < sint pid"
  shows "(child (collect ops pid w) = child w \<or> child (collect ops pid w) = child w - {pid})
    \<and> (signals (collect ops pid w) = signals w
      \<or> pid \<in> child w \<and> signals (collect ops pid w) = signals w @ [(pid, SIGKILL)])"
proof -
  have pos: "0 < sint pid" using assms by simp
  obtain w1 x1 where 1: "k_waitpid ops pid WNOHANG w = (w1, x1)" by fastforce
  note a1 = wait_any [OF pos 1]
  show ?thesis
  proof (cases "\<exists>st. x1 = Inr (0, st)")
    case False
    then have "collect ops pid w = w1" using 1 by (auto simp: collect_def split: sum.splits)
    with a1 show ?thesis by simp
  next
    case True
    then obtain st where st: "x1 = Inr (0, st)" ..
    have "0 \<noteq> pid" using pos by auto
    with wait_ok [OF pos 1 [unfolded st]] have c1: "pid \<in> child w" "child w1 = child w" by auto
    obtain w2 x2 where 2: "k_proc_kill ops pid SIGKILL w1 = (w2, x2)" by fastforce
    obtain w3 x3 where 3: "k_waitpid ops pid 0 w2 = (w3, x3)" by fastforce
    show ?thesis
    proof (cases x2)
      case (Inl e)
      with 1 2 st have "collect ops pid w = w2" by (simp add: collect_def)
      with kill_err [OF 2 [unfolded Inl]] a1 c1 show ?thesis by simp
    next
      case (Inr u)
      with 1 2 3 st have "collect ops pid w = w3" by (simp add: collect_def)
      with kill_ok [OF 2 [unfolded Inr]] wait_any [OF pos 3] a1 c1 show ?thesis by simp
    qed
  qed
qed

text \<open>One call of \<open>wait\<close>: what it does to the object and to the system.\<close>

lemma wait_effect:
  assumes "object_at L p PROC_MT pid" "0 < sint pid" "call (wait_lua ops) [VUd p] L = (x, L')"
  shows "signals (world L') = signals (world L)"
    and "object_at L' p PROC_MT pid \<and> child (world L') = child (world L)
       \<or> object_at L' p PROC_MT (- pid) \<and> child (world L') = child (world L) - {pid}"
proof -
  let ?call = "k_waitpid ops pid (WUNTRACED OR WCONTINUED) (world L)"
  have "(WUNTRACED OR WCONTINUED) AND WNOHANG = 0"
    by (simp add: WUNTRACED_def WCONTINUED_def WNOHANG_def)
  then have zero: "r \<noteq> 0" if "?call = (w, Inr (r, st))" for w r st
    using wait_blocks [OF assms(2) that] by blast
  have "signals (world L') = signals (world L) \<and>
      (object_at L' p PROC_MT pid \<and> child (world L') = child (world L)
       \<or> object_at L' p PROC_MT (- pid) \<and> child (world L') = child (world L) - {pid})"
  proof (cases ?call)
    case (Pair w r)
    show ?thesis
    proof (cases r)
      case (Inl e)
      with Pair have c: "?call = (w, Inl e)" by simp
      with wait_failed [OF assms(1,2) c] wait_err [OF c] assms show ?thesis by auto
    next
      case (Inr q)
      with Pair obtain a st where c: "?call = (w, Inr (a, st))" by (cases q) auto
      from wait_status [OF assms(1,2) c] obtain ts where
        "L' = (if ended st then set_object p (- pid) else id) (L\<lparr>world := w, tabs := ts\<rparr>)"
        using assms(3) by auto
      with wait_ok [OF assms(2) c] zero [OF c] assms(1) show ?thesis by auto
    qed
  qed
  then show "signals (world L') = signals (world L)"
    and "object_at L' p PROC_MT pid \<and> child (world L') = child (world L)
       \<or> object_at L' p PROC_MT (- pid) \<and> child (world L') = child (world L) - {pid}" by auto
qed

end

context child_kernel
begin

lemma collect_children:
  assumes "1 < sint pid"
  shows "child (collect ops pid w) = (if collecting_fails ops pid w then child w else child w - {pid})"
proof -
  have pos: "0 < sint pid" and nz: "0 \<noteq> pid" using assms by auto
  have reaped: "child w' = child w - {pid}"
    if "k_waitpid ops pid opts w = (w', Inr (r, st))" "r \<noteq> 0" "opts AND (WUNTRACED OR WCONTINUED) = 0" for opts w w' r st
    using wait_ok [OF pos that(1)] wait_ended [OF pos that(1,3,2)] that(2) by auto
  have hang: "WNOHANG AND (WUNTRACED OR WCONTINUED) = 0"
    by (simp add: WUNTRACED_def WCONTINUED_def WNOHANG_def)
  obtain w1 x1 where 1: "k_waitpid ops pid WNOHANG w = (w1, x1)" by fastforce
  show ?thesis
  proof (cases "\<exists>st. x1 = Inr (0, st)")
    case False
    with 1 wait_err [of pid WNOHANG w w1] reaped [OF _ _ hang] show ?thesis
      by (auto simp: collect_def collecting_fails_def split: sum.splits)
  next
    case True
    then obtain st where st: "x1 = Inr (0, st)" ..
    with wait_ok [OF pos] 1 nz have c1: "child w1 = child w" by blast
    obtain w2 x2 where 2: "k_proc_kill ops pid SIGKILL w1 = (w2, x2)" by fastforce
    obtain w3 x3 where 3: "k_waitpid ops pid 0 w2 = (w3, x3)" by fastforce
    have c2: "child w2 = child w" using 2 kill_ok kill_err c1 by (cases x2) auto
    have "child w3 = (case x3 of Inl _ \<Rightarrow> child w | Inr _ \<Rightarrow> child w - {pid})"
      using 3 c2 wait_err reaped [of 0 w2 w3] wait_blocks [OF pos, of 0 w2 w3]
      by (auto split: sum.split)
    with 1 2 3 st c2 show ?thesis
      by (auto simp: collect_def collecting_fails_def split: sum.splits)
  qed
qed

end

section \<open>The life of a process object\<close>

text \<open>Any calls of the methods and metamethods on the object at \<open>p\<close>, in any order.\<close>

inductive proc_calls :: "'w proc_ops \<Rightarrow> nat \<Rightarrow> (c_int, 'w) lua \<Rightarrow> (c_int, 'w) lua \<Rightarrow> bool"
  for ops p where
  none: "proc_calls ops p L L"
| more: "proc_calls ops p L L1 \<Longrightarrow>
    m \<in> set [wait_lua ops, proc_gc_lua ops, is_child_lua, pid_lua, proc_tostring_lua] \<Longrightarrow>
    call m [VUd p] L1 = (r, L') \<Longrightarrow> proc_calls ops p L L'"

lemma proc_calls_reaped:
  assumes "proc_calls ops p L L'" "object_at L p PROC_MT pid" "sint pid < 0"
  shows "object_at L' p PROC_MT pid \<and> world L' = world L"
  using assms
proof induction
  case (more L L1 m r L')
  then have o: "object_at L1 p PROC_MT pid" "world L1 = world L" by auto
  with more.hyps(2,3) more.prems(2) show ?case
    by (auto simp: wait_reaped [OF o(1)] gc_reaped [OF o(1)] proc_queries [OF o(1)])
qed auto

text \<open>A pid \<open>p\<close> of which a handle was made is only ever signalled by it while it is a child.\<close>

context child_kernel
begin

definition tended :: "c_int \<Rightarrow> 'w \<Rightarrow> (c_int, 'w) lua \<Rightarrow> nat \<Rightarrow> bool" where
  "tended pid w0 L p \<longleftrightarrow>
     (object_at L p PROC_MT pid \<or> object_at L p PROC_MT (- pid) \<and> pid \<notin> child (world L))
   \<and> (\<exists>k. signals (world L) = signals w0 @ replicate k (pid, SIGKILL))
   \<and> (child (world L) = child w0 \<or> child (world L) = child w0 - {pid})"

lemma tended_reaped:
  assumes "tended pid w0 L p" "object_at L p PROC_MT (- pid)" "1 < sint pid"
    and "m \<in> set [wait_lua ops, proc_gc_lua ops, is_child_lua, pid_lua, proc_tostring_lua]"
    and "call m [VUd p] L = (r, L')"
  shows "tended pid w0 L' p"
proof -
  have "proc_calls ops p L L'" using assms(4,5) proc_calls.intros by metis
  moreover have neg: "sint (- pid) < 0" using assms(3) by (simp add: sint_uminus)
  ultimately have "object_at L' p PROC_MT (- pid) \<and> world L' = world L"
    using assms(2) by (intro proc_calls_reaped)
  moreover have "\<not> object_at L p PROC_MT pid"
  proof
    assume "object_at L p PROC_MT pid"
    with assms(2) have "- pid = pid" by (rule object_at_unique)
    with neg assms(3) show False by (simp only:)
  qed
  ultimately show ?thesis using assms(1) by (simp add: tended_def)
qed

lemma tended_live:
  assumes "tended pid w0 L p" "object_at L p PROC_MT pid" "1 < sint pid"
    and "m \<in> set [wait_lua ops, proc_gc_lua ops, is_child_lua, pid_lua, proc_tostring_lua]"
    and "call m [VUd p] L = (r, L')"
  shows "tended pid w0 L' p"
proof -
  obtain k where k: "signals (world L) = signals w0 @ replicate k (pid, SIGKILL)"
    using assms(1) by (auto simp: tended_def)
  then have k': "signals (world L) @ [(pid, SIGKILL)] = signals w0 @ replicate (Suc k) (pid, SIGKILL)"
    by (simp add: replicate_append_same)
  have pos: "0 < sint pid" using assms(3) by simp
  from assms(4) consider "m = wait_lua ops" | "m = proc_gc_lua ops"
    | "m = is_child_lua \<or> m = pid_lua \<or> m = proc_tostring_lua" by auto
  then show ?thesis
  proof cases
    case 1
    from wait_effect [OF assms(2) pos assms(5) [unfolded 1]] assms(1) k
    show ?thesis unfolding tended_def by auto
  next
    case 2
    from gc_collects [OF assms(2,3), of ops] assms(5) 2 obtain e where
      "L' = L\<lparr>world := collect ops pid (world L), errno := e\<rparr>" by auto
    then have w: "world L' = collect ops pid (world L)" and o: "object_at L' p PROC_MT pid"
      using assms(2) by simp_all
    note eff = collect_effect [OF assms(3), of "world L"]
    have "\<exists>k. signals (world L') = signals w0 @ replicate k (pid, SIGKILL)"
      using conjunct2 [OF eff] k k' unfolding w by metis
    moreover have "child (world L') = child w0 \<or> child (world L') = child w0 - {pid}"
      using conjunct1 [OF eff] assms(1) unfolding w tended_def by auto
    ultimately show ?thesis using o by (simp add: tended_def)
  next
    case 3
    with assms(5) have "L' = L" by (auto simp: proc_queries [OF assms(2)])
    with assms(1) show ?thesis by simp
  qed
qed

lemma proc_calls_tended:
  assumes "proc_calls ops p L L'" "object_at L p PROC_MT pid" "1 < sint pid"
  shows "tended pid (world L) L' p"
  using assms
proof induction
  case none
  then show ?case by (auto simp: tended_def intro: exI [of _ 0])
next
  case (more L L1 m r L')
  then have t: "tended pid (world L) L1 p" by simp
  then consider "object_at L1 p PROC_MT pid" | "object_at L1 p PROC_MT (- pid)"
    by (auto simp: tended_def)
  then show ?case
    using tended_live [OF t _ more.prems(2) more.hyps(2,3)]
      tended_reaped [OF t _ more.prems(2) more.hyps(2,3)] by cases auto
qed

end

section \<open>A reference kernel\<close>

text \<open>
  The children with the status words they have yet to report; a call that would wait for
  something that never happens returns with \<open>EINTR\<close>. The next \<open>fork\<close> fails, or returns in
  the child, or makes a child that will report \<open>plan\<close>.
\<close>

record proc_world =
  kids :: "c_int \<Rightarrow> c_int list option"
  sig_log :: "(c_int \<times> c_int) list"
  next_pid :: c_int
  plan :: "c_int list"
  fork_error :: "c_int option"
  as_child :: bool

definition pending :: "c_int \<Rightarrow> c_int list \<Rightarrow> c_int list" where
  "pending opts sts = (if opts AND (WUNTRACED OR WCONTINUED) = 0
     then dropWhile (\<lambda>st. \<not> ended st) sts else sts)"

definition ref_waitpid :: "c_int \<Rightarrow> c_int \<Rightarrow> (proc_world, c_int \<times> c_int) syscall" where
  "ref_waitpid pid opts w = (case kids w pid of
       None \<Rightarrow> (w, Inl ECHILD)
     | Some sts \<Rightarrow> (case pending opts sts of
         [] \<Rightarrow> if opts AND WNOHANG = 0 then (w, Inl EINTR) else (w, Inr (0, 0))
       | st # sts' \<Rightarrow>
           (w\<lparr>kids := (kids w)(pid := if ended st then None else Some sts')\<rparr>, Inr (pid, st))))"

definition ref_proc_kill :: "c_int \<Rightarrow> c_int \<Rightarrow> (proc_world, unit) syscall" where
  "ref_proc_kill pid s w = (case kids w pid of
       None \<Rightarrow> (w, Inl ESRCH)
     | Some sts \<Rightarrow>
         (w\<lparr>kids := (kids w)(pid := Some (if s = SIGKILL \<and> \<not> list_ex ended sts then [9] else sts)),
            sig_log := sig_log w @ [(pid, s)]\<rparr>, Inr ()))"

definition ref_fork :: "(proc_world, c_int) syscall" where
  "ref_fork w = (case fork_error w of
       Some e \<Rightarrow> (w, Inl e)
     | None \<Rightarrow>
         if as_child w then (w\<lparr>kids := (\<lambda>_. None)\<rparr>, Inr 0)
         else if 0 < sint (next_pid w) \<and> kids w (next_pid w) = None
         then (w\<lparr>kids := (kids w)(next_pid w := Some (plan w)), next_pid := next_pid w + 1\<rparr>,
               Inr (next_pid w))
         else (w, Inl EAGAIN))"

definition ref_proc_ops :: "proc_world proc_ops" where
  "ref_proc_ops = \<lparr>k_fork = ref_fork, k_waitpid = ref_waitpid, k_proc_kill = ref_proc_kill\<rparr>"

definition children :: "proc_world \<Rightarrow> c_int set" where
  "children w = dom (kids w)"

lemma pending_ended: "opts AND (WUNTRACED OR WCONTINUED) = 0 \<Longrightarrow> pending opts sts = st # sts' \<Longrightarrow> ended st"
  by (auto simp: pending_def dropWhile_eq_Cons_conv)

lemma pending_killed: "list_ex ended sts \<Longrightarrow> pending 0 sts \<noteq> []"
  by (auto simp: pending_def dropWhile_eq_Nil_conv list_ex_iff)

lemma ended_9: "ended 9"
  by code_simp

interpretation ref_proc: child_kernel ref_proc_ops children sig_log
proof unfold_locales
  fix pid opts :: c_int and w w' :: proc_world and r st :: c_int
  assume *: "0 < sint pid" "k_waitpid ref_proc_ops pid opts w = (w', Inr (r, st))"
  then show "pid \<in> children w \<and> sig_log w' = sig_log w \<and>
      (r = 0 \<and> children w' = children w
       \<or> r = pid \<and> children w' = (if ended st then children w - {pid} else children w))"
    by (auto simp: ref_proc_ops_def ref_waitpid_def children_def dom_def
        split: option.splits list.splits if_splits)
  show "ended st" if "opts AND (WUNTRACED OR WCONTINUED) = 0" "r \<noteq> 0"
    using * that by (auto simp: ref_proc_ops_def ref_waitpid_def dest: pending_ended
        split: option.splits list.splits if_splits)
  show "r \<noteq> 0" if "opts AND WNOHANG = 0"
    using * that by (auto simp: ref_proc_ops_def ref_waitpid_def
        split: option.splits list.splits if_splits)
qed (auto simp: ref_proc_ops_def ref_waitpid_def ref_proc_kill_def ref_fork_def children_def dom_def
      split: option.splits list.splits if_splits)

section \<open>Properties\<close>

text \<open>A process with one child, 42, that stops on signal 19, continues, and exits with 3.\<close>

definition proc_world0 :: proc_world where
  "proc_world0 = \<lparr>kids = [42 \<mapsto> map status_of [Stopped 19, Continued, Exited 3]], sig_log = [],
     next_pid = 43, plan = [], fork_error = None, as_child = False\<rparr>"

definition proc_world1 :: proc_world where
  "proc_world1 = proc_world0\<lparr>kids := [42 \<mapsto> []]\<rparr>"

lemma children_world0: "children proc_world0 = {42}"
  by (simp add: children_def proc_world0_def)

lemma ref_fork_world0: "k_fork ref_proc_ops proc_world0
    = (proc_world0\<lparr>kids := (kids proc_world0)(43 \<mapsto> []), next_pid := 44\<rparr>, Inr 43)"
  by (simp add: ref_proc_ops_def ref_fork_def proc_world0_def)

text \<open>C1. Whatever methods are called on a process object, in any order, and whether the
collector runs or not: the object goes on holding its pid, or holds it negated and then the
kernel no longer has the child; every signal sent is SIGKILL to that pid; and no other child
of the process is ever waited for.\<close>

theorem process_object_life:
  assumes "child_kernel ops child signals" and "proc_calls ops p L L'"
    and "object_at L p PROC_MT pid" and "1 < sint pid"
  shows "(object_at L' p PROC_MT pid \<or> object_at L' p PROC_MT (- pid) \<and> pid \<notin> child (world L'))
    \<and> (\<exists>k. signals (world L') = signals (world L) @ replicate k (pid, SIGKILL))
    \<and> (child (world L') = child (world L) \<or> child (world L') = child (world L) - {pid})"
  using child_kernel.proc_calls_tended [OF assms] by (simp only: child_kernel.tended_def [OF assms(1)])

lemma process_object_life_witness:
  "\<exists>L'. call (wait_lua ref_proc_ops) [VUd 0] (lua_with PROC_MT 42 proc_world0) = (Val [VTab 1], L')
    \<and> (object_at L' 0 PROC_MT 42 \<or> object_at L' 0 PROC_MT (- 42) \<and> 42 \<notin> children (world L'))"
proof -
  let ?L = "lua_with PROC_MT 42 proc_world0"
  have k: "k_waitpid ref_proc_ops 42 (WUNTRACED OR WCONTINUED) (world ?L)
      = (proc_world0\<lparr>kids := [42 \<mapsto> map status_of [Continued, Exited 3]]\<rparr>, Inr (42, status_of (Stopped 19)))"
    by (simp add: ref_proc_ops_def ref_waitpid_def pending_def proc_world0_def WUNTRACED_def WCONTINUED_def
        ended_def)
  have o: "object_at ?L 0 PROC_MT 42" by simp
  have c: "call (wait_lua ref_proc_ops) [VUd 0] ?L = (Val [VTab 1],
      ?L\<lparr>world := proc_world0\<lparr>kids := [42 \<mapsto> map status_of [Continued, Exited 3]]\<rparr>,
         tabs := tabs ?L @ [event_table 42 (Stopped 19)]\<rparr>)"
    using wait_event [OF o _ _ k] by (simp add: lua_with_def)
  have "proc_calls ref_proc_ops 0 ?L (snd (call (wait_lua ref_proc_ops) [VUd 0] ?L))"
    by (rule proc_calls.more [OF proc_calls.none _ prod.collapse [symmetric]]) simp
  from process_object_life [OF ref_proc.child_kernel_axioms this o] c show ?thesis by auto
qed

text \<open>C22. Once a call of \<open>wait\<close> has returned the event that the process ended, the object is inert:
whatever the system has become meanwhile, no later call of any method, in any order, nor the
collector, reaches it, so a process that got the same pid is never waited for or killed by it.\<close>

theorem reaped_object_inert:
  assumes "object_at L p PROC_MT pid" and "0 < sint pid" and "proper ev" and "terminal ev"
    and "k_waitpid ops pid (WUNTRACED OR WCONTINUED) (world L) = (w, Inr (r, status_of ev))"
    and "call (wait_lua ops) [VUd p] L = (x, L1)" and "proc_calls ops p (L1\<lparr>world := later\<rparr>) L'"
  shows "x = Val [VTab (length (tabs L))] \<and> object_at L' p PROC_MT (- pid) \<and> world L' = later"
proof -
  from wait_event [OF assms(1,2,3,5)] assms(1,4,6)
  have "x = Val [VTab (length (tabs L))] \<and> object_at (L1\<lparr>world := later\<rparr>) p PROC_MT (- pid)" by auto
  moreover have "sint (- pid) < 0" using assms(2) by (simp add: sint_uminus)
  ultimately show ?thesis using proc_calls_reaped [OF assms(7), of "- pid"] by auto
qed

text \<open>The child 42 exits with 3; a new process gets the pid 42, and the collector leaves it alone.\<close>

lemma reaped_object_inert_witness:
  "\<exists>L1. call (wait_lua ref_proc_ops) [VUd 0] (lua_with PROC_MT 42 (proc_world0\<lparr>kids := [42 \<mapsto> [status_of (Exited 3)]]\<rparr>))
      = (Val [VTab 1], L1)
    \<and> world (snd (call (proc_gc_lua ref_proc_ops) [VUd 0] (L1\<lparr>world := proc_world1\<rparr>))) = proc_world1"
proof -
  let ?L = "lua_with PROC_MT 42 (proc_world0\<lparr>kids := [42 \<mapsto> [status_of (Exited 3)]]\<rparr>)"
  have o: "object_at ?L 0 PROC_MT 42" by simp
  have e: "ended (status_of (Exited 3))" by (simp add: ended_def)
  have k: "k_waitpid ref_proc_ops 42 (WUNTRACED OR WCONTINUED) (world ?L)
      = (proc_world0\<lparr>kids := Map.empty\<rparr>, Inr (42, status_of (Exited 3)))"
    using e by (simp add: ref_proc_ops_def ref_waitpid_def pending_def WUNTRACED_def WCONTINUED_def fun_eq_iff)
  obtain x L1 where c: "call (wait_lua ref_proc_ops) [VUd 0] ?L = (x, L1)" by fastforce
  have "proc_calls ref_proc_ops 0 (L1\<lparr>world := proc_world1\<rparr>)
      (snd (call (proc_gc_lua ref_proc_ops) [VUd 0] (L1\<lparr>world := proc_world1\<rparr>)))"
    by (rule proc_calls.more [OF proc_calls.none _ prod.collapse [symmetric]]) simp
  from reaped_object_inert [OF o _ _ _ k c this] c show ?thesis by (simp add: lua_with_def lua0_def)
qed

text \<open>C13. Collecting an object whose process was not waited for leaves neither a running child nor a
zombie exactly when none of the three system calls it makes fails; when one does (an interrupted
\<open>waitpid\<close>, a \<open>kill\<close> that is refused), its result is ignored, and the child, running or dead, is
left. The other children are untouched in every case.\<close>

theorem collector_leaves_no_zombie:
  assumes "child_kernel ops child signals" and "object_at L p PROC_MT pid" and "1 < sint pid"
  shows "\<exists>L'. call (proc_gc_lua ops) [VUd p] L = (Val [], L')
    \<and> child (world L') = (if collecting_fails ops pid (world L) then child (world L) else child (world L) - {pid})"
  using gc_collects [OF assms(2,3), of ops] child_kernel.collect_children [OF assms(1,3)] by auto

text \<open>A kernel that interrupts every wait that may block.\<close>

definition busy_proc_ops :: "proc_world proc_ops" where
  "busy_proc_ops = ref_proc_ops\<lparr>k_waitpid := (\<lambda>pid opts w.
     if opts AND WNOHANG = 0 then (w, Inl EINTR) else ref_waitpid pid opts w)\<rparr>"

interpretation busy_proc: child_kernel busy_proc_ops children sig_log
proof unfold_locales
  fix pid opts :: c_int and w w' :: proc_world and r st :: c_int
  assume *: "0 < sint pid" "k_waitpid busy_proc_ops pid opts w = (w', Inr (r, st))"
  then have k: "k_waitpid ref_proc_ops pid opts w = (w', Inr (r, st))"
    by (auto simp: busy_proc_ops_def ref_proc_ops_def split: if_splits)
  show "pid \<in> children w \<and> sig_log w' = sig_log w \<and>
      (r = 0 \<and> children w' = children w
       \<or> r = pid \<and> children w' = (if ended st then children w - {pid} else children w))"
    using ref_proc.wait_ok [OF *(1) k] .
  show "ended st" if "opts AND (WUNTRACED OR WCONTINUED) = 0" "r \<noteq> 0"
    using ref_proc.wait_ended [OF *(1) k that] .
  show "r \<noteq> 0" if "opts AND WNOHANG = 0"
    using ref_proc.wait_blocks [OF *(1) k that] .
next
  fix pid opts :: c_int and w w' :: proc_world and e
  assume "k_waitpid busy_proc_ops pid opts w = (w', Inl e)"
  then show "children w' = children w \<and> sig_log w' = sig_log w"
    using ref_proc.wait_err [of pid opts w w' e]
    by (auto simp: busy_proc_ops_def ref_proc_ops_def split: if_splits)
qed (auto simp: busy_proc_ops_def ref_proc_ops_def ref_proc_kill_def ref_fork_def children_def dom_def
      split: option.splits list.splits if_splits)

text \<open>A child that never ends: collected, or left as a zombie when the wait is interrupted.\<close>

lemma collector_leaves_no_zombie_witness:
  "(\<exists>L'. call (proc_gc_lua ref_proc_ops) [VUd 0] (lua_with PROC_MT 42 proc_world1) = (Val [], L')
      \<and> children (world L') = {})
   \<and> (\<exists>L'. call (proc_gc_lua busy_proc_ops) [VUd 0] (lua_with PROC_MT 42 proc_world1) = (Val [], L')
      \<and> children (world L') = {42})"
proof -
  have c: "children proc_world1 = {42}" by (simp add: children_def proc_world1_def proc_world0_def)
  note run = collecting_fails_def ref_proc_ops_def busy_proc_ops_def ref_waitpid_def ref_proc_kill_def pending_def
    proc_world1_def proc_world0_def WNOHANG_def WUNTRACED_def WCONTINUED_def SIGKILL_def ended_9
  have f: "\<not> collecting_fails ref_proc_ops 42 proc_world1" "collecting_fails busy_proc_ops 42 proc_world1"
    by (simp_all add: run)
  from collector_leaves_no_zombie [OF ref_proc.child_kernel_axioms, of "lua_with PROC_MT 42 proc_world1" 0 42]
    collector_leaves_no_zombie [OF busy_proc.child_kernel_axioms, of "lua_with PROC_MT 42 proc_world1" 0 42]
  show ?thesis by (simp add: f c)
qed

text \<open>C23. The collector never signals a process that is not a child of the caller (an object
inherited over a \<open>fork\<close> describes a sibling), and changes nothing then.\<close>

theorem collector_spares_others:
  assumes "child_kernel ops child signals" and "object_at L p PROC_MT pid" and "1 < sint pid"
    and "pid \<notin> child (world L)"
  shows "\<exists>L'. call (proc_gc_lua ops) [VUd p] L = (Val [], L')
    \<and> signals (world L') = signals (world L) \<and> child (world L') = child (world L)"
  using gc_collects [OF assms(2,3), of ops] child_kernel.collect_effect [OF assms(1,3), of "world L"] assms(4)
  by auto

lemma collector_spares_others_witness:
  "\<exists>L'. call (proc_gc_lua ref_proc_ops) [VUd 0] (lua_with PROC_MT 77 proc_world0) = (Val [], L')
    \<and> sig_log (world L') = [] \<and> children (world L') = {42}"
proof -
  have "77 \<notin> children (world (lua_with PROC_MT 77 proc_world0))" by (simp add: children_world0)
  from collector_spares_others [OF ref_proc.child_kernel_axioms, of "lua_with PROC_MT 77 proc_world0" 0 77, OF _ _ this]
  show ?thesis by (simp add: children_world0) (simp add: proc_world0_def)
qed

text \<open>C14. \<open>wait\<close> reports the event the kernel encoded in the status word: an exit status, the
signal that ended the process and whether it dumped core, the signal that stopped it, or that
it was continued, in a new table that has these fields and the pid; the object is marked as
reaped exactly when the process has ended.\<close>

theorem wait_reports_event:
  assumes "object_at L p PROC_MT pid" "0 < sint pid" "proper ev"
    and "k_waitpid ops pid (WUNTRACED OR WCONTINUED) (world L) = (w, Inr (r, status_of ev))"
  shows "call (wait_lua ops) [VUd p] L = (Val [VTab (length (tabs L))],
    (if terminal ev then set_object p (- pid) else id)
      (L\<lparr>world := w, tabs := tabs L @ [event_table pid ev]\<rparr>))"
  using assms by (rule wait_event)

definition crash_ops :: "unit proc_ops" where
  "crash_ops = \<lparr>k_fork = (\<lambda>w. (w, Inl EAGAIN)),
     k_waitpid = (\<lambda>pid opts w. (w, Inr (pid, 0x8b))), k_proc_kill = (\<lambda>pid s w. (w, Inr ()))\<rparr>"

lemma wait_reports_event_witness:
  "call (wait_lua crash_ops) [VUd 0] (lua_with PROC_MT 42 ())
   = (Val [VTab 1], set_object 0 (- 42) ((lua_with PROC_MT 42 ())\<lparr>tabs := [[],
       [(VStr ''pid'', VInt 42), (VStr ''sigterm'', VInt 11), (VStr ''coredump'', VBool True)]]\<rparr>))"
proof -
  have k: "k_waitpid crash_ops 42 (WUNTRACED OR WCONTINUED) (world (lua_with PROC_MT 42 ()))
      = ((), Inr (42, status_of (Signaled 11 True)))"
    by (simp add: crash_ops_def status_of_def)
  have t: "tabs (lua_with PROC_MT (42 :: c_int) ()) = [[]]" by (simp add: lua_with_def)
  show ?thesis
    using wait_reports_event [OF lua_with_object _ _ k] t by (simp add: event_table_def)
qed

text \<open>C21. A successful \<open>fork\<close> returns an object that holds the pid: in the parent a new child of
the process, in the child 0, where \<open>is_child\<close> is true and there are no children to wait for.\<close>

theorem fork_returns_object:
  assumes "child_kernel ops child signals" and "map_of (registry L) PROC_MT = Some a"
    and "k_fork ops (world L) = (w, Inr pid)"
  shows "\<exists>L'. call (fork_lua ops) [] L = (Val [VUd (length (uds L))], L')
    \<and> call is_child_lua [VUd (length (uds L))] L' = (Val [VBool (pid = 0)], L')
    \<and> call pid_lua [VUd (length (uds L))] L' = (Val [VInt (widen pid)], L')
    \<and> (if pid = 0 then child (world L') = {}
       else 0 < sint pid \<and> pid \<notin> child (world L) \<and> child (world L') = insert pid (child (world L)))"
proof -
  let ?L = "new_object PROC_MT pid (L\<lparr>world := w\<rparr>)"
  have "object_at ?L (length (uds L)) PROC_MT pid"
    using object_at_new(1) [of "L\<lparr>world := w\<rparr>" PROC_MT a pid] assms(2) by simp
  note q = proc_queries(1,2) [OF this]
  have "if pid = 0 then child w = {}
       else 0 < sint pid \<and> pid \<notin> child (world L) \<and> child w = insert pid (child (world L))"
    using child_kernel.fork_child [OF assms(1)] child_kernel.fork_parent [OF assms(1,3)] assms(3) by auto
  with q show ?thesis using fork_object [OF assms(2,3)] by (intro exI [of _ ?L]) simp
qed

lemma fork_returns_object_witness:
  "\<exists>L'. call (fork_lua ref_proc_ops) [] (lua_with PROC_MT 42 proc_world0) = (Val [VUd 1], L')
    \<and> call pid_lua [VUd 1] L' = (Val [VInt 43], L') \<and> children (world L') = {42, 43}"
proof -
  have k: "k_fork ref_proc_ops (world (lua_with PROC_MT 42 proc_world0))
      = (proc_world0\<lparr>kids := (kids proc_world0)(43 \<mapsto> []), next_pid := 44\<rparr>, Inr 43)"
    by (simp add: ref_fork_world0)
  have u: "length (uds (lua_with PROC_MT (42 :: c_int) proc_world0)) = 1" by (simp add: lua_with_def)
  show ?thesis
    using fork_returns_object [OF ref_proc.child_kernel_axioms lua_with_fields(4) k] u
    by (auto simp: children_world0)
qed

end
