(* ===== verification/Socketpair.thy ===== *)
theory Socketpair
  imports Lua_Api
begin

unbundle bit_operations_syntax

text \<open>
  The module \<open>testcase.socketpair\<close> (src/socketpair.c): pairs of connected stream sockets,
  each an object that holds a descriptor, or -1 once it is closed.
\<close>

section \<open>The system\<close>

text \<open>
  A successful \<open>write\<close> gives the number of bytes it took, a successful \<open>read\<close> the bytes it
  delivers (none at the end of the stream). \<open>k_getfl\<close> and \<open>k_setfl\<close> are \<open>fcntl\<close> with
  \<open>F_GETFL\<close> and \<open>F_SETFL\<close>; the socket options are those of \<open>SOL_SOCKET\<close>.
\<close>

record 'w sock_ops =
  k_write :: "c_int \<Rightarrow> string \<Rightarrow> ('w, nat) syscall"
  k_read :: "c_int \<Rightarrow> nat \<Rightarrow> ('w, string) syscall"
  k_sock_shutdown :: "c_int \<Rightarrow> c_int \<Rightarrow> ('w, unit) syscall"
  k_sock_close :: "c_int \<Rightarrow> ('w, unit) syscall"
  k_getsockopt :: "c_int \<Rightarrow> c_int \<Rightarrow> ('w, c_int) syscall"
  k_setsockopt :: "c_int \<Rightarrow> c_int \<Rightarrow> c_int \<Rightarrow> ('w, unit) syscall"
  k_getfl :: "c_int \<Rightarrow> ('w, c_int) syscall"
  k_setfl :: "c_int \<Rightarrow> c_int \<Rightarrow> ('w, unit) syscall"
  k_socketpair :: "('w, c_int \<times> c_int) syscall"

text \<open>The constants of the headers, with the values of Linux.\<close>

definition O_NONBLOCK :: c_int where "O_NONBLOCK = 0x800"
definition SO_RCVBUF :: c_int where "SO_RCVBUF = 8"
definition SO_SNDBUF :: c_int where "SO_SNDBUF = 7"
definition SHUT_RD :: c_int where "SHUT_RD = 0"
definition SHUT_WR :: c_int where "SHUT_WR = 1"
definition SHUT_RDWR :: c_int where "SHUT_RDWR = 2"

definition MODULE_MT :: string where
  "MODULE_MT = ''testcase.socketpair''"

section \<open>The functions\<close>

text \<open>nil, then the text of \<open>errno\<close>; or nil, nil, true when the call would block.\<close>

definition push_again :: "('u, 'w, nat) comp" where
  "push_again =
     bnd lua_pushnil (\<lambda>_. bnd get_errno (\<lambda>e.
       if e = EAGAIN \<or> e = EWOULDBLOCK then returning [lua_pushnil, lua_pushboolean True] 3
       else returning [push_strerror] 2))"

definition write_lua :: "'w sock_ops \<Rightarrow> (c_int, 'w, nat) comp" where
  "write_lua ops =
     bnd (luaL_checkudata 1 MODULE_MT) (\<lambda>p.
     bnd (luaL_checkstring 2) (\<lambda>msg.
     bnd (load p) (\<lambda>sock.
     bnd (sys (k_write ops sock msg)) (\<lambda>r. case r of
       None \<Rightarrow> push_again
     | Some n \<Rightarrow> returning [lua_pushinteger (of_nat n)] 1))))"

definition read_lua :: "'w sock_ops \<Rightarrow> (c_int, 'w, nat) comp" where
  "read_lua ops =
     bnd (luaL_checkudata 1 MODULE_MT) (\<lambda>p.
     bnd (load p) (\<lambda>sock.
     bnd (sys (k_read ops sock 4096)) (\<lambda>r. case r of
       None \<Rightarrow> push_again
     | Some buf \<Rightarrow>
         if length buf = 0 then returning [lua_pushnil] 1
         else returning [lua_pushstring buf] 1)))"

definition do_shutdown :: "'w sock_ops \<Rightarrow> c_int \<Rightarrow> (c_int, 'w, nat) comp" where
  "do_shutdown ops how =
     bnd (luaL_checkudata 1 MODULE_MT) (\<lambda>p.
     bnd (load p) (\<lambda>sock.
     bnd (sys (k_sock_shutdown ops sock how)) (\<lambda>r.
       if r = Some () then returning [lua_pushboolean True] 1
       else returning [lua_pushboolean False, push_strerror] 2)))"

definition shutwr_lua :: "'w sock_ops \<Rightarrow> (c_int, 'w, nat) comp" where
  "shutwr_lua ops = do_shutdown ops SHUT_WR"

definition shutrd_lua :: "'w sock_ops \<Rightarrow> (c_int, 'w, nat) comp" where
  "shutrd_lua ops = do_shutdown ops SHUT_RD"

definition shutdown_lua :: "'w sock_ops \<Rightarrow> (c_int, 'w, nat) comp" where
  "shutdown_lua ops = do_shutdown ops SHUT_RDWR"

definition close_lua :: "'w sock_ops \<Rightarrow> (c_int, 'w, nat) comp" where
  "close_lua ops =
     bnd (luaL_checkudata 1 MODULE_MT) (\<lambda>p.
     bnd (load p) (\<lambda>sock.
       if sock \<noteq> - 1 then bnd (sys (k_sock_close ops sock)) (\<lambda>_. returning [store p (- 1)] 0)
       else ret 0))"

definition sockbuf :: "'w sock_ops \<Rightarrow> c_int \<Rightarrow> (c_int, 'w, nat) comp" where
  "sockbuf ops sockopt =
     bnd (luaL_checkudata 1 MODULE_MT) (\<lambda>p.
     bnd lua_gettop (\<lambda>top. let should_change = 1 < top in
     bnd (if should_change
          then bnd (lua_settop 2) (\<lambda>_. bnd (luaL_checkinteger 2) (\<lambda>v. ret (narrow v)))
          else ret (- 1)) (\<lambda>newsize.
     bnd (load p) (\<lambda>sock.
     bnd (sys (k_getsockopt ops sock sockopt)) (\<lambda>r. case r of
       None \<Rightarrow> returning [lua_pushnil, push_strerror] 2
     | Some bufsize \<Rightarrow>
         bnd (lua_pushinteger (widen bufsize)) (\<lambda>_.
         if should_change then
           bnd (sys (k_setsockopt ops sock sockopt newsize)) (\<lambda>r.
             if r = None then returning [lua_pushnil, push_strerror] 2 else ret 1)
         else ret 1))))))"

definition sendbuf_lua :: "'w sock_ops \<Rightarrow> (c_int, 'w, nat) comp" where
  "sendbuf_lua ops = sockbuf ops SO_RCVBUF"

definition recvbuf_lua :: "'w sock_ops \<Rightarrow> (c_int, 'w, nat) comp" where
  "recvbuf_lua ops = sockbuf ops SO_RCVBUF"

definition nonblock_lua :: "'w sock_ops \<Rightarrow> (c_int, 'w, nat) comp" where
  "nonblock_lua ops =
     bnd (luaL_checkudata 1 MODULE_MT) (\<lambda>p.
     bnd lua_gettop (\<lambda>top. let should_change = 1 < top in
     bnd (if should_change
          then bnd (luaL_checktype 2 TBoolean) (\<lambda>_. lua_toboolean 2)
          else ret False) (\<lambda>enabled.
     bnd (load p) (\<lambda>sock.
     bnd (sys (k_getfl ops sock)) (\<lambda>r. case r of
       None \<Rightarrow> returning [lua_pushnil, push_strerror] 2
     | Some flags \<Rightarrow>
         bnd (lua_pushboolean (flags AND O_NONBLOCK \<noteq> 0)) (\<lambda>_.
         if should_change then
           let flags = (if enabled then flags OR O_NONBLOCK else flags AND NOT O_NONBLOCK) in
           bnd (sys (k_setfl ops sock flags)) (\<lambda>r.
             if r = None then returning [lua_pushnil, push_strerror] 2 else ret 1)
         else ret 1))))))"

definition fd_lua :: "(c_int, 'w, nat) comp" where
  "fd_lua = bnd (luaL_checkudata 1 MODULE_MT) (\<lambda>p. bnd (load p) (\<lambda>sock.
     returning [lua_pushinteger (widen sock)] 1))"

definition sock_tostring_lua :: "(c_int, 'w, nat) comp" where
  "sock_tostring_lua = returning [push_udname MODULE_MT 1] 1"

definition sock_gc_lua :: "'w sock_ops \<Rightarrow> (c_int, 'w, nat) comp" where
  "sock_gc_lua ops =
     bnd (lua_touserdata 1) (\<lambda>p. case p of
       None \<Rightarrow> undef ''NULL dereference''
     | Some p \<Rightarrow> bnd (load p) (\<lambda>sock.
         if sock \<noteq> - 1 then bnd (sys (k_sock_close ops sock)) (\<lambda>_. ret 0) else ret 0))"

text \<open>The results of \<open>fcntl\<close> are ignored here.\<close>

definition sock_new_lua :: "'w sock_ops \<Rightarrow> (c_int, 'w, nat) comp" where
  "sock_new_lua ops =
     bnd lua_gettop (\<lambda>top.
     bnd (if 0 < top then bnd (luaL_checktype 1 TBoolean) (\<lambda>_. lua_toboolean 1) else ret False) (\<lambda>nonblock.
     bnd lua_newuserdata (\<lambda>sock1.
     bnd lua_newuserdata (\<lambda>sock2.
     bnd (sys (k_socketpair ops)) (\<lambda>r. case r of
       None \<Rightarrow> returning [lua_pushnil, push_strerror] 2
     | Some (pair0, pair1) \<Rightarrow>
         bnd (if nonblock
              then bnd (sys (k_setfl ops pair0 O_NONBLOCK)) (\<lambda>_.
                   bnd (sys (k_setfl ops pair1 O_NONBLOCK)) (\<lambda>_. ret ()))
              else ret ()) (\<lambda>_.
         returning [store sock2 pair1, luaL_getmetatable MODULE_MT, lua_setmetatable,
                    store sock1 pair0, lua_pushvalue (- 2), luaL_getmetatable MODULE_MT,
                    lua_setmetatable] 2))))))"

definition sock_mmethods :: "(string \<times> string) list" where
  "sock_mmethods = [(''__gc'', ''gc_lua''), (''__tostring'', ''tostring_lua'')]"

definition sock_methods :: "(string \<times> string) list" where
  "sock_methods = [
     (''fd'', ''fd_lua''), (''nonblock'', ''nonblock_lua''), (''recvbuf'', ''recvbuf_lua''),
     (''sendbuf'', ''sendbuf_lua''), (''close'', ''close_lua''), (''shutdown'', ''shutdown_lua''),
     (''shutrd'', ''shutrd_lua''), (''shutwr'', ''shutwr_lua''), (''read'', ''read_lua''),
     (''write'', ''write_lua'')]"

definition luaopen_testcase_socketpair :: "('u, 'w, nat) comp" where
  "luaopen_testcase_socketpair =
     bnd (luaL_newmetatable MODULE_MT) (\<lambda>created.
     bnd (if created then
            seqs [reg_setfield sock_mmethods,
                  lua_newtable, reg_setfield sock_methods, lua_setfield (- 2) ''__index'']
          else ret ()) (\<lambda>_.
       returning [lua_settop 0, lua_pushcfunction ''new_lua''] 1))"

section \<open>What the calls come to\<close>

text \<open>The values of a failed call, as \<open>write\<close> and \<open>read\<close> give them.\<close>

definition again_values :: "('u, 'w) lua \<Rightarrow> c_int \<Rightarrow> lval list" where
  "again_values L e = (if e = EAGAIN then [VNil, VNil, VBool True] else [VNil, VStr (strerror (rt L) e)])"

lemma push_again_run [c_body]:
  "push_again L = (Val (length (again_values L (errno L))),
     hold (stk L @ again_values L (errno L)) L)"
  by (simp add: push_again_def again_values_def EAGAIN_def EWOULDBLOCK_def c_step stack_ops)

abbreviation sock_at :: "(c_int, 'w) lua \<Rightarrow> nat \<Rightarrow> c_int \<Rightarrow> bool" where
  "sock_at L p fd \<equiv> object_at L p MODULE_MT fd"

lemma again_values_frame [simp]:
  "again_values (L\<lparr>world := w\<rparr>) e = again_values L e" "again_values (L\<lparr>errno := f\<rparr>) e = again_values L e"
  "again_values (L\<lparr>stk := s\<rparr>) e = again_values L e" "again_values (L\<lparr>peak := k\<rparr>) e = again_values L e"
  by (simp_all add: again_values_def)

lemma checkstring_second [c_body]:
  "stk L = a # VStr s # args \<Longrightarrow> luaL_checkstring 2 L = (Val s, L)"
  by (simp add: check_ops)

lemma write_run:
  assumes "sock_at L p fd"
  shows "call (write_lua ops) [VUd p, VStr msg] L = (case k_write ops fd msg (world L) of
      (w, Inl e) \<Rightarrow> (Val (again_values L e), L\<lparr>world := w, errno := e\<rparr>)
    | (w, Inr n) \<Rightarrow> (Val [VInt (of_nat n)], L\<lparr>world := w\<rparr>))"
  using assms
  by (auto simp: write_lua_def c_step c_body call_ops stack_ops sys_def split: prod.splits sum.splits)

lemma read_run:
  assumes "sock_at L p fd"
  shows "call (read_lua ops) [VUd p] L = (case k_read ops fd 4096 (world L) of
      (w, Inl e) \<Rightarrow> (Val (again_values L e), L\<lparr>world := w, errno := e\<rparr>)
    | (w, Inr s) \<Rightarrow> (Val [if s = [] then VNil else VStr s], L\<lparr>world := w\<rparr>))"
  using assms
  by (auto simp: read_lua_def c_step c_body call_ops stack_ops sys_def split: prod.splits sum.splits)

lemma shutdown_run:
  assumes "sock_at L p fd"
  shows "call (do_shutdown ops how) [VUd p] L = (case k_sock_shutdown ops fd how (world L) of
      (w, Inl e) \<Rightarrow> (Val [VBool False, VStr (strerror (rt L) e)], L\<lparr>world := w, errno := e\<rparr>)
    | (w, Inr _) \<Rightarrow> (Val [VBool True], L\<lparr>world := w\<rparr>))"
  using assms
  by (auto simp: do_shutdown_def c_step c_body call_ops stack_ops sys_def split: prod.splits sum.splits)

lemma close_run:
  assumes "sock_at L p fd"
  shows "\<exists>e. call (close_lua ops) [VUd p] L = (Val [],
    if fd = - 1 then L
    else set_object p (- 1) (L\<lparr>world := fst (k_sock_close ops fd (world L)), errno := e\<rparr>))"
  using assms
  by (auto simp: close_lua_def c_step c_body call_ops sys_def
      intro: exI [of _ "errno L"] split: prod.splits sum.splits)

lemma touserdata_object [c_body]: "stk L = VUd p # args \<Longrightarrow> lua_touserdata 1 L = (Val (Some p), L)"
  by (simp add: userdata_ops)

lemma sock_gc_run:
  assumes "sock_at L p fd"
  shows "\<exists>e. call (sock_gc_lua ops) [VUd p] L = (Val [],
    if fd = - 1 then L else L\<lparr>world := fst (k_sock_close ops fd (world L)), errno := e\<rparr>)"
  using assms
  by (auto simp: sock_gc_lua_def c_step c_body call_ops sys_def
      intro: exI [of _ "errno L"] split: prod.splits sum.splits)

lemma nonblock_get:
  assumes "sock_at L p fd"
  shows "call (nonblock_lua ops) [VUd p] L = (case k_getfl ops fd (world L) of
      (w, Inl e) \<Rightarrow> (Val [VNil, VStr (strerror (rt L) e)], L\<lparr>world := w, errno := e\<rparr>)
    | (w, Inr fl) \<Rightarrow> (Val [VBool (fl AND O_NONBLOCK \<noteq> 0)], L\<lparr>world := w\<rparr>))"
  using assms
  by (auto simp: nonblock_lua_def c_step c_body call_ops stack_ops sys_def Let_def split: prod.splits sum.splits)

text \<open>The flags \<open>nonblock(b)\<close> sets.\<close>

definition with_nonblock :: "bool \<Rightarrow> c_int \<Rightarrow> c_int" where
  "with_nonblock b fl = (if b then fl OR O_NONBLOCK else fl AND NOT O_NONBLOCK)"

lemma nonblock_set:
  assumes "sock_at L p fd" "k_getfl ops fd (world L) = (w, Inr fl)"
  shows "call (nonblock_lua ops) [VUd p, VBool b] L = (case k_setfl ops fd (with_nonblock b fl) w of
      (w, Inl e) \<Rightarrow> (Val [VNil, VStr (strerror (rt L) e)], L\<lparr>world := w, errno := e\<rparr>)
    | (w, Inr _) \<Rightarrow> (Val [VBool (fl AND O_NONBLOCK \<noteq> 0)], L\<lparr>world := w\<rparr>))"
  using assms
  by (auto simp: nonblock_lua_def c_step c_body call_ops stack_ops arg_ops truthy_def sys_def
      with_nonblock_def Let_def split: prod.splits sum.splits)

lemma with_nonblock_bit:
  "with_nonblock b fl AND O_NONBLOCK \<noteq> 0 \<longleftrightarrow> b"
  "with_nonblock b fl AND NOT O_NONBLOCK = fl AND NOT O_NONBLOCK"
proof -
  have n: "O_NONBLOCK \<noteq> 0" by (simp add: O_NONBLOCK_def)
  show "with_nonblock b fl AND O_NONBLOCK \<noteq> 0 \<longleftrightarrow> b"
    using n by (cases b) (simp_all add: with_nonblock_def bit.conj_disj_distrib2 and.assoc)
  show "with_nonblock b fl AND NOT O_NONBLOCK = fl AND NOT O_NONBLOCK"
    by (cases b) (simp_all add: with_nonblock_def bit.conj_disj_distrib2 and.assoc)
qed

lemma sockbuf_get:
  assumes "sock_at L p fd"
  shows "call (sockbuf ops opt) [VUd p] L = (case k_getsockopt ops fd opt (world L) of
      (w, Inl e) \<Rightarrow> (Val [VNil, VStr (strerror (rt L) e)], L\<lparr>world := w, errno := e\<rparr>)
    | (w, Inr n) \<Rightarrow> (Val [VInt (widen n)], L\<lparr>world := w\<rparr>))"
  using assms
  by (auto simp: sockbuf_def c_step c_body call_ops stack_ops sys_def Let_def split: prod.splits sum.splits)

lemma sockbuf_set:
  assumes "sock_at L p fd" "k_getsockopt ops fd opt (world L) = (w, Inr n)"
  shows "call (sockbuf ops opt) (VUd p # VInt v # args) L = (case k_setsockopt ops fd opt (narrow v) w of
      (w, Inl e) \<Rightarrow> (Val [VNil, VStr (strerror (rt L) e)], L\<lparr>world := w, errno := e\<rparr>)
    | (w, Inr _) \<Rightarrow> (Val [VInt (widen n)], L\<lparr>world := w\<rparr>))"
  using assms
  by (auto simp: sockbuf_def c_step c_body call_ops stack_ops settop_list_def arg_ops sys_def Let_def split: prod.splits sum.splits)

text \<open>The system after \<open>new\<close> set the flags of the two ends.\<close>

definition set_both :: "'w sock_ops \<Rightarrow> bool \<Rightarrow> c_int \<Rightarrow> c_int \<Rightarrow> 'w \<Rightarrow> 'w" where
  "set_both ops nb a b w = (if nb
     then fst (k_setfl ops b O_NONBLOCK (fst (k_setfl ops a O_NONBLOCK w))) else w)"

definition flag_both :: "'w sock_ops \<Rightarrow> bool \<Rightarrow> c_int \<Rightarrow> c_int \<Rightarrow> ('u, 'w, unit) comp" where
  "flag_both ops nb a b = (if nb
     then bnd (sys (k_setfl ops a O_NONBLOCK)) (\<lambda>_.
          bnd (sys (k_setfl ops b O_NONBLOCK)) (\<lambda>_. ret ()))
     else ret ())"

lemma flag_both_run:
  "\<exists>e. flag_both ops nb a b L = (Val (), L\<lparr>world := set_both ops nb a b (world L), errno := e\<rparr>)"
  by (cases L) (auto simp: flag_both_def set_both_def sys_def c_step split: prod.splits sum.splits)

lemma new_pair:
  assumes mt: "map_of (registry L) MODULE_MT = Some t" and ok: "k_socketpair ops (world L) = (w, Inr (a, b))"
    and args: "args = [] \<and> \<not> nb \<or> args = VBool nb # rest"
  shows "\<exists>e. call (sock_new_lua ops) args L
    = (Val [VUd (Suc (length (uds L))), VUd (length (uds L))],
       new_object MODULE_MT b (new_object MODULE_MT a
         (L\<lparr>world := set_both ops nb a b w, errno := e\<rparr>)))"
proof -
  let ?blank = "\<lparr>meta = None, block = None\<rparr>"
  let ?L = "L\<lparr>stk := args @ [VUd (length (uds L)), VUd (Suc (length (uds L)))], peak := length args + 2,
    uds := uds L @ [?blank, ?blank], world := w\<rparr>"
  obtain e where e: "flag_both ops nb a b ?L = (Val (), ?L\<lparr>world := set_both ops nb a b w, errno := e\<rparr>)"
    using flag_both_run [of ops nb a b ?L] by auto
  have "sock_new_lua ops (L\<lparr>stk := args, peak := length args\<rparr>) = bnd (flag_both ops nb a b) (\<lambda>_.
         returning [store (Suc (length (uds L))) b, luaL_getmetatable MODULE_MT, lua_setmetatable,
                    store (length (uds L)) a, lua_pushvalue (- 2), luaL_getmetatable MODULE_MT,
                    lua_setmetatable] 2) ?L"
    using args ok
    by (auto simp: sock_new_lua_def flag_both_def c_step stack_ops userdata_ops arg_ops truthy_def sys_def)
  with e mt show ?thesis
    by (auto simp: call_ops c_step stack_ops userdata_ops new_object_def nth_append list_update_append
        intro: exI [of _ e])
qed

text \<open>The finalizer and \<open>close\<close>, in any number and order: \<open>True\<close> stands for \<open>close\<close>.\<close>

fun releases :: "'w sock_ops \<Rightarrow> nat \<Rightarrow> bool list \<Rightarrow> (c_int, 'w, unit) comp" where
  "releases ops p [] = ret ()"
| "releases ops p (b # bs) =
     bnd (call (if b then close_lua ops else sock_gc_lua ops) [VUd p]) (\<lambda>_. releases ops p bs)"

lemma releases_closed: "sock_at L p (- 1) \<Longrightarrow> releases ops p bs L = (Val (), L)"
proof (induction bs arbitrary: L)
  case Nil
  then show ?case by (simp add: ret_def)
next
  case (Cons b bs)
  from close_run [OF Cons.prems, of ops] sock_gc_run [OF Cons.prems, of ops] Cons.IH [OF Cons.prems]
  show ?case by (auto simp: bnd_run)
qed

lemma releases_once:
  assumes "sock_at L p fd" "fd \<noteq> - 1"
  shows "\<exists>e. releases ops p (True # bs) L
    = (Val (), set_object p (- 1) (L\<lparr>world := fst (k_sock_close ops fd (world L)), errno := e\<rparr>))"
proof -
  from close_run [OF assms(1), of ops] assms(2) obtain e where
    "call (close_lua ops) [VUd p] L
      = (Val [], set_object p (- 1) (L\<lparr>world := fst (k_sock_close ops fd (world L)), errno := e\<rparr>))" by auto
  then show ?thesis using assms(1) by (intro exI [of _ e]) (simp add: bnd_run releases_closed)
qed

text \<open>
  The life of an object after \<open>new\<close>: the collector comes once and nothing after it, or it is
  closed, and then anything may follow.
\<close>

definition lifetime :: "bool list \<Rightarrow> bool" where
  "lifetime cs \<longleftrightarrow> cs = [False] \<or> (\<exists>ds. cs = True # ds)"

lemma lifetime_closes_once:
  assumes "lifetime cs" "sock_at L p fd" "fd \<noteq> - 1"
  shows "\<exists>L'. releases ops p cs L = (Val (), L') \<and> world L' = fst (k_sock_close ops fd (world L))
    \<and> (\<forall>q fd'. q \<noteq> p \<longrightarrow> sock_at L q fd' \<longrightarrow> sock_at L' q fd')"
proof (cases "cs = [False]")
  case True
  then show ?thesis using sock_gc_run [OF assms(2), of ops] assms(3) by (auto simp: bnd_run ret_def)
next
  case False
  with assms(1) obtain ds where "cs = True # ds" by (auto simp: lifetime_def)
  then show ?thesis using releases_once [OF assms(2,3), of ops ds] by (auto simp: object_at_other)
qed

section \<open>The law of the descriptors\<close>

text \<open>
  \<open>opened w\<close> are the open descriptors, \<open>status w fd\<close> the status flags, of which \<open>F_SETFL\<close>
  changes those in \<open>settable\<close>. A \<open>close\<close> releases the descriptor whatever it returns.
\<close>

locale socket_kernel =
  fixes ops :: "'w sock_ops" and opened :: "'w \<Rightarrow> c_int set"
    and status :: "'w \<Rightarrow> c_int \<Rightarrow> c_int" and settable :: c_int
  assumes close_any: "k_sock_close ops fd w = (w', r) \<Longrightarrow> opened w' = opened w - {fd}"
    and pair_ok: "k_socketpair ops w = (w', Inr (a, b)) \<Longrightarrow>
      a \<noteq> b \<and> 0 \<le> sint a \<and> 0 \<le> sint b \<and> {a, b} \<inter> opened w = {} \<and> opened w' = opened w \<union> {a, b}"
    and pair_err: "k_socketpair ops w = (w', Inl e) \<Longrightarrow> opened w' = opened w"
    and getfl_ok: "k_getfl ops fd w = (w', Inr fl) \<Longrightarrow> w' = w \<and> fl = status w fd"
    and getfl_err: "k_getfl ops fd w = (w', Inl e) \<Longrightarrow> w' = w"
    and setfl_ok: "k_setfl ops fd fl w = (w', Inr u) \<Longrightarrow> opened w' = opened w \<and>
      status w' = (status w)(fd := (status w fd AND NOT settable) OR (fl AND settable))"
    and setfl_err: "k_setfl ops fd fl w = (w', Inl e) \<Longrightarrow> opened w' = opened w \<and> status w' = status w"
    and nonblock_settable: "O_NONBLOCK AND settable = O_NONBLOCK"

text \<open>
  \<open>stream w fd\<close> are the bytes ready to be read at \<open>fd\<close>, \<open>peer fd\<close> the other end. A call may
  take or deliver fewer bytes than it could, but no read delivers nothing while there are
  bytes, and no byte is lost or reordered.
\<close>

locale stream_kernel =
  fixes ops :: "'w sock_ops" and stream :: "'w \<Rightarrow> c_int \<Rightarrow> string" and peer :: "c_int \<Rightarrow> c_int"
  assumes write_ok: "k_write ops fd msg w = (w', Inr n) \<Longrightarrow> n \<le> length msg \<and>
      stream w' = (stream w)(peer fd := stream w (peer fd) @ take n msg)"
    and write_err: "k_write ops fd msg w = (w', Inl e) \<Longrightarrow> stream w' = stream w"
    and read_ok: "k_read ops fd n w = (w', Inr s) \<Longrightarrow> 0 < n \<Longrightarrow> length s \<le> n \<and>
      s = take (length s) (stream w fd) \<and> (s = [] \<longrightarrow> stream w fd = []) \<and>
      stream w' = (stream w)(fd := drop (length s) (stream w fd))"
    and read_err: "k_read ops fd n w = (w', Inl e) \<Longrightarrow> stream w' = stream w"

text \<open>A stream where a read that finds bytes delivers some of them instead of failing.\<close>

locale eager_stream_kernel = stream_kernel +
  assumes read_ready: "stream w fd \<noteq> [] \<Longrightarrow> 0 < n \<Longrightarrow> \<exists>w' s. k_read ops fd n w = (w', Inr s)"

context socket_kernel
begin

lemma settable_nonblock: "(fl AND NOT settable) OR (with_nonblock b fl AND settable) = with_nonblock b fl"
proof (rule bit_word_eqI)
  fix n
  have "bit O_NONBLOCK n \<Longrightarrow> bit settable n"
    using arg_cong [OF nonblock_settable, of "\<lambda>x. bit x n"] by (simp add: bit_and_iff)
  then show "bit ((fl AND NOT settable) OR (with_nonblock b fl AND settable)) n = bit (with_nonblock b fl) n"
    if "n < LENGTH(32)" using that by (cases b) (auto simp: with_nonblock_def bit_simps)
qed

lemma nonblock_effect:
  assumes "sock_at L p fd" and "call (nonblock_lua ops) [VUd p, VBool b] L = (Val [VBool old], L')"
  shows "old \<longleftrightarrow> status (world L) fd AND O_NONBLOCK \<noteq> 0" and "sock_at L' p fd"
    and "status (world L') = (status (world L))(fd := with_nonblock b (status (world L) fd))"
    and "call (nonblock_lua ops) [VUd p] L' = (Val vs, L'') \<Longrightarrow> hd vs = VNil \<or> vs = [VBool b]"
proof -
  note o = assms(1)
  obtain w r where g: "k_getfl ops fd (world L) = (w, r)" by fastforce
  have "\<exists>fl. r = Inr fl"
  proof (cases r)
    case (Inl e)
    with assms(2) g o show ?thesis
      by (simp add: nonblock_lua_def c_step c_body call_ops stack_ops arg_ops truthy_def sys_def Let_def)
  qed simp
  then obtain fl where "r = Inr fl" ..
  with g getfl_ok have g: "k_getfl ops fd (world L) = (world L, Inr (status (world L) fd))" by auto
  from assms(2) obtain w2 u where s: "k_setfl ops fd (with_nonblock b (status (world L) fd)) (world L) = (w2, Inr u)"
    by (auto simp: nonblock_set [OF o g] split: prod.splits sum.splits)
  with assms(2) have old: "old \<longleftrightarrow> status (world L) fd AND O_NONBLOCK \<noteq> 0" and L': "L' = L\<lparr>world := w2\<rparr>"
    by (simp_all add: nonblock_set [OF o g])
  from old show "old \<longleftrightarrow> status (world L) fd AND O_NONBLOCK \<noteq> 0" .
  from L' o show o': "sock_at L' p fd" by simp
  show st: "status (world L') = (status (world L))(fd := with_nonblock b (status (world L) fd))"
    using setfl_ok [OF s] by (simp add: L' settable_nonblock)
  show "hd vs = VNil \<or> vs = [VBool b]" if "call (nonblock_lua ops) [VUd p] L' = (Val vs, L'')"
    using that getfl_ok [of fd "world L'"]
    by (auto simp: nonblock_get [OF o'] st with_nonblock_bit split: prod.splits sum.splits)
qed

lemma setfl_opened: "opened (fst (k_setfl ops fd fl w)) = opened w"
  by (cases "k_setfl ops fd fl w"; cases "snd (k_setfl ops fd fl w)") (auto dest: setfl_ok setfl_err)

lemma set_both_opened: "opened (set_both ops nb a b w) = opened w"
  by (simp add: set_both_def setfl_opened)

lemma close_opened: "opened (fst (k_sock_close ops fd w)) = opened w - {fd}"
  by (cases "k_sock_close ops fd w") (auto dest: close_any)

text \<open>Closing both objects that \<open>new\<close> made leaves the descriptors as they were.\<close>

lemma new_close_balanced:
  assumes "map_of (registry L) MODULE_MT = Some t" "k_socketpair ops (world L) = (w, Inr (a, b))"
    and "args = [] \<and> \<not> nb \<or> args = VBool nb # rest"
    and "call (sock_new_lua ops) args L = (Val [VUd p, VUd q], L1)"
    and "lifetime cs" "lifetime ds" "releases ops p cs L1 = (x, L2)" "releases ops q ds L2 = (y, L3)"
  shows "sock_at L1 p b" "sock_at L1 q a" "opened (world L1) = insert a (insert b (opened (world L)))"
    and "world L3 = fst (k_sock_close ops a (fst (k_sock_close ops b (world L1))))"
    and "opened (world L3) = opened (world L)"
proof -
  from new_pair [OF assms(1-3)] assms(4) obtain e where
    L1: "L1 = new_object MODULE_MT b (new_object MODULE_MT a (L\<lparr>world := set_both ops nb a b w, errno := e\<rparr>))"
    and pq: "p = Suc (length (uds L))" "q = length (uds L)" by auto
  have u: "length (uds (new_object MODULE_MT a (L\<lparr>world := set_both ops nb a b w, errno := e\<rparr>))) = p"
    by (simp add: pq)
  note new = pair_ok [OF assms(2)]
  show p: "sock_at L1 p b"
    unfolding L1 u [symmetric] using assms(1) by (intro object_at_new(1)) simp
  show q: "sock_at L1 q a"
    using object_at_new(1) [of "L\<lparr>world := set_both ops nb a b w, errno := e\<rparr>" MODULE_MT t a] assms(1)
    unfolding L1 by - (rule object_at_new(2), simp add: pq)
  show 1: "opened (world L1) = insert a (insert b (opened (world L)))"
    using new by (auto simp: L1 set_both_opened)
  have "b \<noteq> - 1" "a \<noteq> - 1" using new by auto
  from lifetime_closes_once [OF assms(5) p \<open>b \<noteq> - 1\<close>, of ops] assms(7) pq q
  have L2: "world L2 = fst (k_sock_close ops b (world L1))" "sock_at L2 q a" by auto
  from lifetime_closes_once [OF assms(6) L2(2) \<open>a \<noteq> - 1\<close>, of ops] assms(8) L2(1)
  show 3: "world L3 = fst (k_sock_close ops a (fst (k_sock_close ops b (world L1))))" by auto
  show "opened (world L3) = opened (world L)"
    using new by (auto simp: 3 close_opened 1)
qed

end

text \<open>\<open>k\<close> calls of \<open>read\<close>, and all the bytes they returned.\<close>

definition text_of :: "lval list \<Rightarrow> string" where
  "text_of vs = (case vs of VStr s # _ \<Rightarrow> s | _ \<Rightarrow> [])"

fun reads :: "'w sock_ops \<Rightarrow> nat \<Rightarrow> nat \<Rightarrow> (c_int, 'w, string) comp" where
  "reads ops p 0 = ret []"
| "reads ops p (Suc k) = bnd (call (read_lua ops) [VUd p]) (\<lambda>vs.
     bnd (reads ops p k) (\<lambda>s. ret (text_of vs @ s)))"

context stream_kernel
begin

lemma read_once:
  assumes "sock_at L p fd"
  shows "\<exists>vs L'. call (read_lua ops) [VUd p] L = (Val vs, L') \<and> sock_at L' p fd \<and>
    length (text_of vs) \<le> 4096 \<and> stream (world L) fd = text_of vs @ stream (world L') fd"
proof (cases "k_read ops fd 4096 (world L)")
  case (Pair w r)
  show ?thesis
  proof (cases r)
    case (Inl e)
    have "text_of (again_values L e) = []" by (simp add: again_values_def text_of_def)
    with Inl Pair read_err [of fd 4096 "world L"] assms show ?thesis
      by (simp add: read_run [OF assms])
  next
    case (Inr s)
    with Pair read_ok [of fd 4096 "world L" w s] have *: "length s \<le> 4096"
      "s = take (length s) (stream (world L) fd)" "stream w fd = drop (length s) (stream (world L) fd)" by simp_all
    have "stream (world L) fd = s @ stream w fd" using *(2,3) by (metis append_take_drop_id)
    with Inr Pair *(1) assms show ?thesis
      by (simp add: read_run [OF assms] text_of_def)
  qed
qed

lemma reads_in_order:
  assumes "sock_at L p fd"
  shows "\<exists>s L'. reads ops p k L = (Val s, L') \<and> sock_at L' p fd \<and>
    length s \<le> k * 4096 \<and> stream (world L) fd = s @ stream (world L') fd"
  using assms
proof (induction k arbitrary: L)
  case 0
  then show ?case by (auto simp: ret_def)
next
  case (Suc k)
  from read_once [OF Suc.prems] obtain vs L1 where
    1: "call (read_lua ops) [VUd p] L = (Val vs, L1)" "sock_at L1 p fd" "length (text_of vs) \<le> 4096"
       "stream (world L) fd = text_of vs @ stream (world L1) fd" by auto
  from Suc.IH [OF 1(2)] obtain s L2 where
    2: "reads ops p k L1 = (Val s, L2)" "sock_at L2 p fd" "length s \<le> k * 4096"
       "stream (world L1) fd = s @ stream (world L2) fd" by auto
  from 1 2 show ?case by (intro exI [of _ "text_of vs @ s"] exI [of _ L2]) (simp add: bnd_run ret_def)
qed

lemma write_appends:
  assumes "sock_at L p fd" "call (write_lua ops) [VUd p, VStr msg] L = (Val vs, L')"
  shows "sock_at L' p fd" and "\<exists>n \<le> length msg.
      (vs = [VInt (of_nat n)] \<or> n = 0 \<and> hd vs = VNil) \<and>
      stream (world L') = (stream (world L))(peer fd := stream (world L) (peer fd) @ take n msg)"
proof -
  obtain w r where k: "k_write ops fd msg (world L) = (w, r)" by fastforce
  show "sock_at L' p fd"
    using assms k by (auto simp: write_run split: sum.splits)
  show "\<exists>n \<le> length msg. (vs = [VInt (of_nat n)] \<or> n = 0 \<and> hd vs = VNil) \<and>
      stream (world L') = (stream (world L))(peer fd := stream (world L) (peer fd) @ take n msg)"
  proof (cases r)
    case (Inl e)
    with k assms write_err [of fd msg "world L"] show ?thesis
      by (intro exI [of _ 0]) (auto simp: write_run again_values_def split: if_splits)
  next
    case (Inr n)
    with k assms write_ok [of fd msg "world L" w n] show ?thesis
      by (intro exI [of _ n]) (auto simp: write_run)
  qed
qed

end

context eager_stream_kernel
begin

lemma read_progress:
  assumes "sock_at L p fd" "stream (world L) fd \<noteq> []" "call (read_lua ops) [VUd p] L = (Val vs, L')"
  shows "text_of vs \<noteq> []"
proof -
  from read_ready [OF assms(2), of 4096] obtain w s where k: "k_read ops fd 4096 (world L) = (w, Inr s)" by auto
  with read_ok [OF this] assms(2) have "s \<noteq> []" by auto
  with assms(3) k show ?thesis by (auto simp: read_run [OF assms(1)] text_of_def)
qed

text \<open>As many reads as there are bytes empty the stream.\<close>

lemma reads_drain:
  assumes "sock_at L p fd" "length (stream (world L) fd) \<le> k" "reads ops p k L = (Val s, L')"
  shows "stream (world L') fd = []"
  using assms
proof (induction k arbitrary: L s)
  case 0
  then show ?case by (simp add: ret_def)
next
  case (Suc k)
  from read_once [OF Suc.prems(1)] obtain vs L1 where
    1: "call (read_lua ops) [VUd p] L = (Val vs, L1)" "sock_at L1 p fd"
       "stream (world L) fd = text_of vs @ stream (world L1) fd" by auto
  then obtain s1 where 2: "reads ops p k L1 = (Val s1, L')"
    using Suc.prems(3) by (auto simp: bnd_run ret_def split: prod.splits outcome.splits)
  have "length (stream (world L1) fd) \<le> k"
  proof (cases "stream (world L) fd = []")
    case True
    with 1(3) show ?thesis by simp
  next
    case False
    with read_progress [OF Suc.prems(1) False 1(1)] 1(3) Suc.prems(2) show ?thesis
      by (cases "text_of vs") auto
  qed
  from Suc.IH [OF 1(2) this 2] show ?case .
qed

end

section \<open>The law of the socket buffers\<close>

text \<open>\<open>bufs w fd opt\<close> is the buffer size an option names; the kernel may adjust what is asked for.\<close>

locale buffer_kernel =
  fixes ops :: "'w sock_ops" and bufs :: "'w \<Rightarrow> c_int \<Rightarrow> c_int \<Rightarrow> c_int"
  assumes getopt_ok: "k_getsockopt ops fd opt w = (w', Inr n) \<Longrightarrow> w' = w \<and> n = bufs w fd opt"
    and getopt_err: "k_getsockopt ops fd opt w = (w', Inl e) \<Longrightarrow> w' = w"
    and setopt_any: "k_setsockopt ops fd opt n w = (w', r) \<Longrightarrow> fd' \<noteq> fd \<or> opt' \<noteq> opt \<Longrightarrow>
      bufs w' fd' opt' = bufs w fd' opt'"

context buffer_kernel
begin

lemma sockbuf_effect:
  assumes "sock_at L p fd" "call (sockbuf ops opt) (VUd p # VInt v # args) L = (Val vs, L')"
    and "fd' \<noteq> fd \<or> opt' \<noteq> opt"
  shows "bufs (world L') fd' opt' = bufs (world L) fd' opt'"
    and "hd vs = VNil \<or> vs = [VInt (widen (bufs (world L) fd opt))]"
proof -
  note o = assms(1)
  obtain w r where g: "k_getsockopt ops fd opt (world L) = (w, r)" by fastforce
  have "bufs (world L') fd' opt' = bufs (world L) fd' opt'
      \<and> (hd vs = VNil \<or> vs = [VInt (widen (bufs (world L) fd opt))])"
  proof (cases r)
    case (Inl e)
    with assms(2) g o getopt_err [of fd opt "world L" w e] show ?thesis
      by (auto simp: sockbuf_def c_step c_body call_ops stack_ops settop_list_def arg_ops sys_def Let_def)
  next
    case (Inr n)
    with g getopt_ok have g: "k_getsockopt ops fd opt (world L) = (world L, Inr (bufs (world L) fd opt))"
      by auto
    show ?thesis
      using assms(2) setopt_any [OF _ assms(3)]
      by (auto simp: sockbuf_set [OF o g] split: prod.splits sum.splits)
  qed
  then show "bufs (world L') fd' opt' = bufs (world L) fd' opt'"
    and "hd vs = VNil \<or> vs = [VInt (widen (bufs (world L) fd opt))]" by auto
qed

end

section \<open>A reference kernel\<close>

text \<open>
  Descriptors from 3 up, each the peer of its neighbour; buffers of \<open>room\<close> bytes; a call
  that would block on a blocking socket is interrupted, and a write to a closed peer fails with
  \<open>EPIPE\<close> (32). Linux doubles the buffer size that
  is asked for.
\<close>

record sock_world =
  fds :: "c_int list"
  next_fd :: nat
  sflags :: "c_int \<Rightarrow> c_int"
  buffers :: "c_int \<Rightarrow> c_int \<Rightarrow> c_int"
  wire :: "c_int \<Rightarrow> string"
  room :: nat

definition peer_of :: "c_int \<Rightarrow> c_int" where
  "peer_of fd = (if bit fd 0 then fd + 1 else fd - 1)"

definition blocked :: "c_int \<Rightarrow> sock_world \<Rightarrow> c_int" where
  "blocked fd w = (if sflags w fd AND O_NONBLOCK \<noteq> 0 then EAGAIN else EINTR)"

definition ref_write :: "c_int \<Rightarrow> string \<Rightarrow> (sock_world, nat) syscall" where
  "ref_write fd msg w =
     (let n = min (length msg) (room w - length (wire w (peer_of fd))) in
      if fd \<notin> set (fds w) then (w, Inl EBADF)
      else if peer_of fd \<notin> set (fds w) then (w, Inl 32)
      else if n = 0 \<and> msg \<noteq> [] then (w, Inl (blocked fd w))
      else (w\<lparr>wire := (wire w)(peer_of fd := wire w (peer_of fd) @ take n msg)\<rparr>, Inr n))"

definition ref_read :: "c_int \<Rightarrow> nat \<Rightarrow> (sock_world, string) syscall" where
  "ref_read fd n w =
     (if fd \<notin> set (fds w) then (w, Inl EBADF)
      else if wire w fd = [] \<and> peer_of fd \<in> set (fds w) then (w, Inl (blocked fd w))
      else (w\<lparr>wire := (wire w)(fd := drop n (wire w fd))\<rparr>, Inr (take n (wire w fd))))"

definition ref_sock_close :: "c_int \<Rightarrow> (sock_world, unit) syscall" where
  "ref_sock_close fd w =
     (if fd \<in> set (fds w) then (w\<lparr>fds := removeAll fd (fds w)\<rparr>, Inr ()) else (w, Inl EBADF))"

definition ref_setfl :: "c_int \<Rightarrow> c_int \<Rightarrow> (sock_world, unit) syscall" where
  "ref_setfl fd fl w =
     (if fd \<in> set (fds w)
      then (w\<lparr>sflags := (sflags w)(fd := (sflags w fd AND NOT O_NONBLOCK) OR (fl AND O_NONBLOCK))\<rparr>, Inr ())
      else (w, Inl EBADF))"

definition ref_setsockopt :: "c_int \<Rightarrow> c_int \<Rightarrow> c_int \<Rightarrow> (sock_world, unit) syscall" where
  "ref_setsockopt fd opt n w =
     (if fd \<in> set (fds w) then (w\<lparr>buffers := (buffers w)(fd := (buffers w fd)(opt := 2 * n))\<rparr>, Inr ())
      else (w, Inl EBADF))"

text \<open>Descriptors run up to 1023 (\<open>EMFILE\<close> is 24), and a freed one is not used again.\<close>

definition ref_socketpair :: "(sock_world, c_int \<times> c_int) syscall" where
  "ref_socketpair w = (let a = of_nat (next_fd w); b = of_nat (Suc (next_fd w)) in
     if next_fd w + 1 < 1024 \<and> a \<notin> set (fds w) \<and> b \<notin> set (fds w)
     then (w\<lparr>fds := fds w @ [a, b], next_fd := next_fd w + 2\<rparr>, Inr (a, b))
     else (w, Inl 24))"

definition ref_sock_ops :: "sock_world sock_ops" where
  "ref_sock_ops = \<lparr>
     k_write = ref_write, k_read = ref_read,
     k_sock_shutdown = (\<lambda>fd how w. (w, if fd \<in> set (fds w) then Inr () else Inl EBADF)),
     k_sock_close = ref_sock_close,
     k_getsockopt = (\<lambda>fd opt w. (w, if fd \<in> set (fds w) then Inr (buffers w fd opt) else Inl EBADF)),
     k_setsockopt = ref_setsockopt,
     k_getfl = (\<lambda>fd w. (w, if fd \<in> set (fds w) then Inr (sflags w fd) else Inl EBADF)),
     k_setfl = ref_setfl,
     k_socketpair = ref_socketpair\<rparr>"

definition sock_world0 :: sock_world where
  "sock_world0 = \<lparr>fds = [], next_fd = 3, sflags = (\<lambda>_. 2), buffers = (\<lambda>_ _. 212992),
     wire = (\<lambda>_. []), room = 16\<rparr>"

lemma sint_of_nat_fd: "n < 1024 \<Longrightarrow> 0 \<le> sint (of_nat n :: c_int)"
  by (simp add: signed_of_nat signed_take_bit_int_eq_self)

lemma of_nat_next_fd: "(of_nat n :: c_int) \<noteq> of_nat (Suc n)"
  by simp

interpretation ref_socket: socket_kernel ref_sock_ops "\<lambda>w. set (fds w)" sflags O_NONBLOCK
  by unfold_locales
     (auto simp: ref_sock_ops_def ref_sock_close_def ref_setfl_def ref_socketpair_def Let_def
        sint_of_nat_fd of_nat_next_fd simp del: of_nat_Suc split: if_splits)

text \<open>The bytes that wait at an open descriptor.\<close>

definition waiting :: "sock_world \<Rightarrow> c_int \<Rightarrow> string" where
  "waiting w fd = (if fd \<in> set (fds w) then wire w fd else [])"

interpretation ref_stream: eager_stream_kernel ref_sock_ops waiting peer_of
  by unfold_locales
     (auto simp: ref_sock_ops_def ref_write_def ref_read_def waiting_def Let_def fun_eq_iff min_def split: if_splits)

interpretation ref_buffers: buffer_kernel ref_sock_ops buffers
  by unfold_locales
     (auto simp: ref_sock_ops_def ref_setsockopt_def split: if_splits)

section \<open>Properties\<close>

text \<open>An end of an open pair: 3 and 4 are connected.\<close>

definition sock_world1 :: sock_world where
  "sock_world1 = sock_world0\<lparr>fds := [3, 4], next_fd := 5\<rparr>"

text \<open>C20. \<open>nonblock(b)\<close> that succeeds returns the flag as it was, leaves every other status flag of
the descriptor and every other descriptor alone, and the next \<open>nonblock()\<close> that can read the
flags returns \<open>b\<close>.\<close>

theorem nonblock_sets_and_reports:
  assumes "socket_kernel ops opened status settable" and "sock_at L p fd"
    and "call (nonblock_lua ops) [VUd p, VBool b] L = (Val [VBool old], L1)"
    and "call (nonblock_lua ops) [VUd p] L1 = (Val vs, L2)"
  shows "(old \<longleftrightarrow> status (world L) fd AND O_NONBLOCK \<noteq> 0)
    \<and> (\<forall>fd'. fd' \<noteq> fd \<longrightarrow> status (world L1) fd' = status (world L) fd')
    \<and> status (world L1) fd AND NOT O_NONBLOCK = status (world L) fd AND NOT O_NONBLOCK
    \<and> (hd vs = VNil \<or> vs = [VBool b])"
  using socket_kernel.nonblock_effect(1,3) [OF assms(1-3)] socket_kernel.nonblock_effect(4) [OF assms(1-4)]
  by (simp add: with_nonblock_bit)

lemma nonblock_sets_and_reports_witness:
  "\<exists>L1. call (nonblock_lua ref_sock_ops) [VUd 0, VBool True] (lua_with MODULE_MT 3 sock_world1)
      = (Val [VBool False], L1)
    \<and> (\<exists>vs L2. call (nonblock_lua ref_sock_ops) [VUd 0] L1 = (Val vs, L2) \<and> (hd vs = VNil \<or> vs = [VBool True]))"
proof -
  let ?L = "lua_with MODULE_MT 3 sock_world1"
  have g: "k_getfl ref_sock_ops 3 (world ?L) = (sock_world1, Inr 2)"
    by (simp add: ref_sock_ops_def sock_world1_def sock_world0_def)
  obtain w where s: "k_setfl ref_sock_ops 3 (with_nonblock True 2) sock_world1 = (w, Inr ())"
    by (simp add: ref_sock_ops_def ref_setfl_def sock_world1_def)
  have 1: "call (nonblock_lua ref_sock_ops) [VUd 0, VBool True] ?L = (Val [VBool False], ?L\<lparr>world := w\<rparr>)"
    using nonblock_set [OF lua_with_object g] s by (simp add: O_NONBLOCK_def)
  have o: "sock_at (?L\<lparr>world := w\<rparr>) 0 3" by (simp del: lua0_world)
  obtain vs L2 where 2: "call (nonblock_lua ref_sock_ops) [VUd 0] (?L\<lparr>world := w\<rparr>) = (Val vs, L2)"
    using nonblock_get [OF o, of ref_sock_ops] by (auto split: prod.splits sum.splits)
  from nonblock_sets_and_reports [OF ref_socket.socket_kernel_axioms lua_with_object 1 2] 1 2 show ?thesis by blast
qed

text \<open>C9. \<open>new\<close> returns two objects of the module, the first over the second descriptor of the
pair and the second over the first, and opens just these two; when each object is closed any
number of times, with the collector coming at any time after, or is only collected, each
descriptor is closed exactly once and the open descriptors are as they were.\<close>

theorem new_close_restores_descriptors:
  assumes "socket_kernel ops opened status settable" and "map_of (registry L) MODULE_MT = Some t"
    and "k_socketpair ops (world L) = (w, Inr (a, b))" and "args = [] \<and> \<not> nb \<or> args = VBool nb # rest"
    and "call (sock_new_lua ops) args L = (Val [VUd p, VUd q], L1)"
    and "lifetime cs" and "lifetime ds" and "releases ops p cs L1 = (x, L2)" and "releases ops q ds L2 = (y, L3)"
  shows "sock_at L1 p b \<and> sock_at L1 q a \<and> opened (world L1) = insert a (insert b (opened (world L)))
    \<and> world L3 = fst (k_sock_close ops a (fst (k_sock_close ops b (world L1))))
    \<and> opened (world L3) = opened (world L)"
  using socket_kernel.new_close_balanced [OF assms] by simp

lemma new_close_restores_descriptors_witness:
  "\<exists>L1 L2 L3. call (sock_new_lua ref_sock_ops) [VBool True] (lua_with MODULE_MT 9 sock_world0) = (Val [VUd 2, VUd 1], L1)
    \<and> releases ref_sock_ops 2 [True, False] L1 = (Val (), L2) \<and> releases ref_sock_ops 1 [False] L2 = (Val (), L3)
    \<and> fds (world L1) \<noteq> [] \<and> fds (world L3) = []"
proof -
  let ?L = "lua_with MODULE_MT 9 sock_world0" and ?ops = ref_sock_ops
  have k: "k_socketpair ?ops (world ?L) = (sock_world1, Inr (3, 4))"
    by (simp add: ref_sock_ops_def ref_socketpair_def sock_world0_def sock_world1_def Let_def)
  have args: "[VBool True] = [] \<and> \<not> True \<or> [VBool True] = VBool True # []" by simp
  have u: "length (uds ?L) = 1" by (simp add: lua_with_def)
  from new_pair [OF lua_with_fields(4) k args] obtain L1 where
    1: "call (sock_new_lua ?ops) [VBool True] ?L = (Val [VUd 2, VUd 1], L1)" unfolding u by auto
  obtain x L2 where 2: "releases ?ops 2 [True, False] L1 = (x, L2)" by fastforce
  obtain y L3 where 3: "releases ?ops 1 [False] L2 = (y, L3)" by fastforce
  have l: "lifetime [True, False]" "lifetime [False]" by (simp_all add: lifetime_def)
  from new_close_restores_descriptors [OF ref_socket.socket_kernel_axioms lua_with_fields(4) k args 1 l 2 3]
  have all: "sock_at L1 2 4" "sock_at L1 1 3" "set (fds (world L1)) = {3, 4}" "fds (world L3) = []"
    by (auto simp: sock_world0_def)
  from lifetime_closes_once [OF l(1) all(1), of ?ops] 2 all(2) have L2: "x = Val ()" "sock_at L2 1 3" by auto
  from lifetime_closes_once [OF l(2) L2(2), of ?ops] 3 have "y = Val ()" by auto
  with 1 2 3 all L2 show ?thesis by fastforce
qed

text \<open>C10. Bytes go through a pair unchanged and in order: a \<open>write\<close> returns how many bytes of the
message it took, and any calls of \<open>read\<close> on the other end, of at most 4096 bytes each, return
what was waiting there followed by exactly these bytes, up to the part that is still waiting;
nothing is left waiting after as many calls as there were bytes.\<close>

theorem write_then_reads:
  assumes "eager_stream_kernel ops stream peer" and "sock_at L p fd" and "sock_at L q (peer fd)"
    and "call (write_lua ops) [VUd p, VStr msg] L = (Val vs, L1)"
  shows "\<exists>n s L2. n \<le> length msg \<and> (vs = [VInt (of_nat n)] \<or> n = 0 \<and> hd vs = VNil)
    \<and> reads ops q k L1 = (Val s, L2) \<and> length s \<le> k * 4096
    \<and> stream (world L) (peer fd) @ take n msg = s @ stream (world L2) (peer fd)
    \<and> (length (stream (world L) (peer fd)) + n \<le> k \<longrightarrow> stream (world L2) (peer fd) = [])"
proof -
  note st = eager_stream_kernel.axioms(1) [OF assms(1)]
  note w = stream_kernel.write_appends [OF st assms(2,4)]
  obtain w1 r where k: "k_write ops fd msg (world L) = (w1, r)" by fastforce
  have "sock_at L1 q (peer fd)"
    using assms(3,4) k by (auto simp: write_run [OF assms(2)] split: sum.splits)
  note q = this
  from stream_kernel.reads_in_order [OF st q, of k] obtain s L2 where
    r: "reads ops q k L1 = (Val s, L2)" "length s \<le> k * 4096"
    "stream (world L1) (peer fd) = s @ stream (world L2) (peer fd)" by auto
  from w(2) obtain n where n: "n \<le> length msg" "vs = [VInt (of_nat n)] \<or> n = 0 \<and> hd vs = VNil"
    and up: "stream (world L1) = (stream (world L))(peer fd := stream (world L) (peer fd) @ take n msg)"
    by (elim exE conjE)
  from up have st1: "stream (world L1) (peer fd) = stream (world L) (peer fd) @ take n msg" by simp
  have "stream (world L2) (peer fd) = []" if "length (stream (world L) (peer fd)) + n \<le> k"
    by (rule eager_stream_kernel.reads_drain [OF assms(1) q _ r(1)]) (use that n(1) st1 in simp)
  with n r st1 show ?thesis by (intro exI [of _ n] exI [of _ s] exI [of _ L2]) simp
qed

lemma write_then_reads_witness:
  "\<exists>n s L1 L2. call (write_lua ref_sock_ops) [VUd 0, VStr ''hello'']
      ((lua_with MODULE_MT 3 sock_world1)\<lparr>uds := [\<lparr>meta = Some 0, block = Some 3\<rparr>, \<lparr>meta = Some 0, block = Some 4\<rparr>]\<rparr>)
      = (Val [VInt 5], L1)
    \<and> reads ref_sock_ops 1 9 L1 = (Val s, L2) \<and> take n ''hello'' = s \<and> waiting (world L2) 4 = []"
proof -
  let ?L = "(lua_with MODULE_MT 3 sock_world1)\<lparr>uds := [\<lparr>meta = Some 0, block = Some 3\<rparr>, \<lparr>meta = Some 0, block = Some 4\<rparr>]\<rparr>"
  have o: "sock_at ?L 0 3" "sock_at ?L 1 (peer_of 3)"
    by (simp_all add: object_at_def has_meta_def lua_with_def peer_of_def)
  have peer: "peer_of 3 = 4" by (simp add: peer_of_def)
  have k: "snd (k_write ref_sock_ops 3 ''hello'' (world ?L)) = Inr 5"
    by (simp add: ref_sock_ops_def ref_write_def sock_world1_def sock_world0_def lua_with_def lua0_def Let_def peer)
  then obtain L1 where 1: "call (write_lua ref_sock_ops) [VUd 0, VStr ''hello''] ?L = (Val [VInt 5], L1)"
    using write_run [OF o(1), of ref_sock_ops "''hello''"] by (cases "k_write ref_sock_ops 3 ''hello'' (world ?L)") auto
  have "waiting (world ?L) 4 = []" by (simp add: waiting_def lua_with_def lua0_def sock_world1_def sock_world0_def)
  with peer show ?thesis
    using write_then_reads [OF ref_stream.eager_stream_kernel_axioms o 1, of 9] 1 by fastforce
qed



end
