(* ===== verification/File_Stat.thy ===== *)
theory File_Stat
  imports Lua_Api
begin

unbundle bit_operations_syntax

text \<open>
  The modules \<open>testcase.stat\<close> and \<open>testcase.fstat\<close> (src/stat.c, src/fstat.c): the same
  table of file attributes, got by \<open>stat\<close> or \<open>lstat\<close> from the path, or by \<open>fstat\<close> from a
  descriptor opened for it.
\<close>

section \<open>The system\<close>

text \<open>\<open>struct stat\<close> of a 64-bit Linux: the mode, user and group are 32-bit unsigned.\<close>

record stat_t =
  st_dev :: u64
  st_ino :: u64
  st_mode :: "32 word"
  st_nlink :: u64
  st_uid :: "32 word"
  st_gid :: "32 word"
  st_rdev :: u64
  st_size :: i64
  st_blksize :: i64
  st_blocks :: i64
  st_atime :: i64
  st_mtime :: i64
  st_ctime :: i64

record 'w file_ops =
  k_stat :: "string \<Rightarrow> ('w, stat_t) syscall"
  k_lstat :: "string \<Rightarrow> ('w, stat_t) syscall"
  k_open :: "string \<Rightarrow> c_int \<Rightarrow> ('w, c_int) syscall"
  k_fstat :: "c_int \<Rightarrow> ('w, stat_t) syscall"
  k_file_close :: "c_int \<Rightarrow> ('w, unit) syscall"

definition O_RDONLY :: c_int where "O_RDONLY = 0"
definition O_CLOEXEC :: c_int where "O_CLOEXEC = 0x80000"
definition O_NOFOLLOW :: c_int where "O_NOFOLLOW = 0x20000"

definition S_IFMT :: "32 word" where "S_IFMT = 0xf000"
definition S_IFREG :: "32 word" where "S_IFREG = 0x8000"
definition S_IFDIR :: "32 word" where "S_IFDIR = 0x4000"
definition S_IFLNK :: "32 word" where "S_IFLNK = 0xa000"
definition S_IFCHR :: "32 word" where "S_IFCHR = 0x2000"
definition S_IFBLK :: "32 word" where "S_IFBLK = 0x6000"
definition S_IFSOCK :: "32 word" where "S_IFSOCK = 0xc000"
definition S_IFIFO :: "32 word" where "S_IFIFO = 0x1000"

section \<open>The functions\<close>

definition pushint2tbl :: "string \<Rightarrow> i64 \<Rightarrow> ('u, 'w, unit) comp" where
  "pushint2tbl k v = seqs [lua_pushinteger v, lua_setfield (- 2) k]"

definition pushstr2tbl :: "string \<Rightarrow> string \<Rightarrow> ('u, 'w, unit) comp" where
  "pushstr2tbl k v = seqs [lua_pushstring v, lua_setfield (- 2) k]"

text \<open>\<open>%#o\<close>: octal digits after a leading zero; zero itself is one digit.\<close>

definition alt_octal :: "nat \<Rightarrow> string" where
  "alt_octal n = (if n = 0 then ''0'' else ''0'' @ show_base 8 n)"

text \<open>\<open>snprintf(perm, sizeof(perm), "%#o", buf.st_mode & 01777)\<close> into 6 bytes.\<close>

definition perm_of :: "32 word \<Rightarrow> string" where
  "perm_of mode = snprintf 6 (alt_octal (unat (mode AND 0x3ff)))"

text \<open>The switch on the file type; other types leave the field out.\<close>

definition push_type :: "32 word \<Rightarrow> ('u, 'w, unit) comp" where
  "push_type mode = (let t = mode AND S_IFMT in
     if t = S_IFREG then pushstr2tbl ''type'' ''file''
     else if t = S_IFDIR then pushstr2tbl ''type'' ''directory''
     else if t = S_IFLNK then pushstr2tbl ''type'' ''symlink''
     else if t = S_IFCHR then pushstr2tbl ''type'' ''character_device''
     else if t = S_IFBLK then pushstr2tbl ''type'' ''block_device''
     else if t = S_IFSOCK then pushstr2tbl ''type'' ''socket''
     else if t = S_IFIFO then pushstr2tbl ''type'' ''fifo''
     else ret ())"

text \<open>The code that fills the table is the same in both files.\<close>

definition push_stat :: "stat_t \<Rightarrow> ('u, 'w, nat) comp" where
  "push_stat buf = returning [lua_createtable 0 14,
     pushint2tbl ''dev'' (st_dev buf),
     pushint2tbl ''ino'' (st_ino buf),
     pushint2tbl ''mode'' (ucast (st_mode buf)),
     pushint2tbl ''nlink'' (st_nlink buf),
     pushint2tbl ''uid'' (ucast (st_uid buf)),
     pushint2tbl ''gid'' (ucast (st_gid buf)),
     pushint2tbl ''rdev'' (st_rdev buf),
     pushint2tbl ''size'' (st_size buf),
     pushint2tbl ''blksize'' (st_blksize buf),
     pushint2tbl ''blocks'' (st_blocks buf),
     pushint2tbl ''atime'' (st_atime buf),
     pushint2tbl ''mtime'' (st_mtime buf),
     pushint2tbl ''ctime'' (st_ctime buf),
     pushstr2tbl ''perm'' (perm_of (st_mode buf)),
     push_type (st_mode buf)] 1"

text \<open>The option that follows the path: absent or nil counts as true.\<close>

definition check_follow :: "('u, 'w, bool) comp" where
  "check_follow =
     bnd (lua_isnoneornil 2) (\<lambda>absent.
       if absent then ret True
       else bnd (luaL_checktype 2 TBoolean) (\<lambda>_. lua_toboolean 2))"

definition stat_lua :: "'w file_ops \<Rightarrow> ('u, 'w, nat) comp" where
  "stat_lua ops =
     bnd (luaL_checkstring 1) (\<lambda>path.
     bnd check_follow (\<lambda>followsymlinks.
     bnd (lua_settop 1) (\<lambda>_.
     bnd (sys (if followsymlinks then k_stat ops (c_str path) else k_lstat ops (c_str path))) (\<lambda>r. case r of
       None \<Rightarrow> returning [lua_pushnil, lua_errno_new ''stat''] 2
     | Some buf \<Rightarrow> push_stat buf))))"

definition fstat_lua :: "'w file_ops \<Rightarrow> ('u, 'w, nat) comp" where
  "fstat_lua ops =
     bnd (luaL_checkstring 1) (\<lambda>path.
     bnd check_follow (\<lambda>followsymlinks.
     let flgs = (if followsymlinks then O_RDONLY OR O_CLOEXEC
                 else (O_RDONLY OR O_CLOEXEC) OR O_NOFOLLOW) in
     bnd (lua_settop 1) (\<lambda>_.
     bnd (sys (k_open ops (c_str path) flgs)) (\<lambda>r. case r of
       None \<Rightarrow> returning [lua_pushnil, lua_errno_new ''fstat''] 2
     | Some fd \<Rightarrow>
         bnd (sys (k_fstat ops fd)) (\<lambda>r. case r of
           None \<Rightarrow>
             bnd (sys (k_file_close ops fd)) (\<lambda>_.
               returning [lua_pushnil, lua_errno_new ''fstat''] 2)
         | Some buf \<Rightarrow>
             bnd (sys (k_file_close ops fd)) (\<lambda>_. push_stat buf))))))"

definition luaopen_testcase_stat :: "('u, 'w, nat) comp" where
  "luaopen_testcase_stat = returning [lua_pushcfunction ''stat_lua''] 1"

definition luaopen_testcase_fstat :: "('u, 'w, nat) comp" where
  "luaopen_testcase_fstat = returning [lua_pushcfunction ''fstat_lua''] 1"

section \<open>The table\<close>

definition file_type :: "32 word \<Rightarrow> string option" where
  "file_type mode = map_of [
     (S_IFREG, ''file''), (S_IFDIR, ''directory''), (S_IFLNK, ''symlink''),
     (S_IFCHR, ''character_device''), (S_IFBLK, ''block_device''), (S_IFSOCK, ''socket''),
     (S_IFIFO, ''fifo'')] (mode AND S_IFMT)"

definition stat_fields :: "stat_t \<Rightarrow> (string \<times> lval) list" where
  "stat_fields b = [
     (''dev'', VInt (st_dev b)), (''ino'', VInt (st_ino b)), (''mode'', VInt (ucast (st_mode b))),
     (''nlink'', VInt (st_nlink b)), (''uid'', VInt (ucast (st_uid b))), (''gid'', VInt (ucast (st_gid b))),
     (''rdev'', VInt (st_rdev b)), (''size'', VInt (st_size b)), (''blksize'', VInt (st_blksize b)),
     (''blocks'', VInt (st_blocks b)), (''atime'', VInt (st_atime b)), (''mtime'', VInt (st_mtime b)),
     (''ctime'', VInt (st_ctime b)), (''perm'', VStr (perm_of (st_mode b)))]
   @ (case file_type (st_mode b) of Some t \<Rightarrow> [(''type'', VStr t)] | None \<Rightarrow> [])"

definition stat_table :: "stat_t \<Rightarrow> ltable" where
  "stat_table b = map (\<lambda>(k, v). (VStr k, v)) (stat_fields b)"

text \<open>A field stored into the table on top of the stack.\<close>

lemma pushint2tbl_run [c_body]:
  assumes "stk L = s @ [VTab a]" "a < length (tabs L)"
  shows "pushint2tbl k v L = (Val (), L\<lparr>tabs := (tabs L)[a := tset (tabs L ! a) (VStr k) (VInt v)],
    peak := max (peak L) (Suc (length (stk L)))\<rparr>)"
  using assms by (cases L) (simp add: pushint2tbl_def c_step stack_ops table_ops)

lemma pushstr2tbl_run [c_body]:
  assumes "stk L = s @ [VTab a]" "a < length (tabs L)"
  shows "pushstr2tbl k v L = (Val (), L\<lparr>tabs := (tabs L)[a := tset (tabs L ! a) (VStr k) (VStr v)],
    peak := max (peak L) (Suc (length (stk L)))\<rparr>)"
  using assms by (cases L) (simp add: pushstr2tbl_def c_step stack_ops table_ops)

lemma push_type_run [c_body]:
  assumes "stk L = s @ [VTab a]" "a < length (tabs L)"
  shows "push_type mode L = (Val (), case file_type mode of
      Some t \<Rightarrow> L\<lparr>tabs := (tabs L)[a := tset (tabs L ! a) (VStr ''type'') (VStr t)],
        peak := max (peak L) (Suc (length (stk L)))\<rparr>
    | None \<Rightarrow> L)"
  using pushstr2tbl_run [OF assms]
  by (auto simp: push_type_def file_type_def Let_def c_step)

lemma tset_fresh: "v \<noteq> VNil \<Longrightarrow> k \<notin> fst ` set t \<Longrightarrow> tset t k v = t @ [(k, v)]"
  by (induction t) (auto simp: tset_def)

lemma push_stat_run [c_body]:
  "push_stat b L = (Val 1, L\<lparr>stk := stk L @ [VTab (length (tabs L))],
     peak := max (peak L) (length (stk L) + 2), tabs := tabs L @ [stat_table b]\<rparr>)"
  by (simp add: push_stat_def c_step c_body hold_def lua_newtable_def [THEN fun_cong] nth_append list_update_append
     stat_table_def stat_fields_def tset_fresh split: option.splits)

section \<open>The arguments\<close>

text \<open>Whether the arguments after the path ask to follow symbolic links, if they are valid.\<close>

definition follow_arg :: "lval list \<Rightarrow> bool option" where
  "follow_arg args = (case args of
       [] \<Rightarrow> Some True
     | VNil # _ \<Rightarrow> Some True
     | VBool b # _ \<Rightarrow> Some b
     | _ \<Rightarrow> None)"

lemma check_follow_run [c_body]:
  "follow_arg args = Some f \<Longrightarrow> stk L = VStr p # args \<Longrightarrow> check_follow L = (Val f, L)"
  by (auto simp: follow_arg_def check_follow_def c_step stack_ops arg_ops truthy_def
      split: list.splits lval.splits)

lemma check_follow_bad [c_body]:
  "follow_arg args = None \<Longrightarrow> stk L = VStr p # args \<Longrightarrow> \<exists>e. check_follow L = (Raise e, L)"
  by (auto simp: follow_arg_def check_follow_def c_step stack_ops arg_ops truthy_def
      split: list.splits lval.splits)

lemma checkstring_first [c_body]: "stk L = VStr s # args \<Longrightarrow> luaL_checkstring 1 L = (Val s, L)"
  by (simp add: check_ops)

lemma stat_run:
  assumes "follow_arg args = Some f"
  shows "call (stat_lua ops) (VStr p # args) L =
    (case (if f then k_stat ops (c_str p) else k_lstat ops (c_str p)) (world L) of
       (w, Inl e) \<Rightarrow> (Val [VNil, VErrno e ''stat'' None], L\<lparr>world := w, errno := e\<rparr>)
     | (w, Inr b) \<Rightarrow> (Val [VTab (length (tabs L))], L\<lparr>world := w, tabs := tabs L @ [stat_table b]\<rparr>))"
  using assms
  by (auto simp: stat_lua_def c_step c_body call_ops stack_ops settop_list_def sys_def
      split: prod.splits sum.splits)

text \<open>\<open>fstat\<close>, as a function of the system alone: the state it leaves, and what it found.\<close>

definition open_flags :: "bool \<Rightarrow> c_int" where
  "open_flags f = (if f then O_RDONLY OR O_CLOEXEC else (O_RDONLY OR O_CLOEXEC) OR O_NOFOLLOW)"

definition probe :: "'w file_ops \<Rightarrow> string \<Rightarrow> bool \<Rightarrow> 'w \<Rightarrow> 'w \<times> stat_t option" where
  "probe ops p f w = (case k_open ops p (open_flags f) w of
       (w1, Inl e) \<Rightarrow> (w1, None)
     | (w1, Inr fd) \<Rightarrow> (case k_fstat ops fd w1 of
         (w2, Inl e) \<Rightarrow> (fst (k_file_close ops fd w2), None)
       | (w2, Inr b) \<Rightarrow> (fst (k_file_close ops fd w2), Some b)))"

lemma fstat_run:
  assumes "follow_arg args = Some f"
  shows "\<exists>e. call (fstat_lua ops) (VStr p # args) L = (case probe ops (c_str p) f (world L) of
       (w, None) \<Rightarrow> (Val [VNil, VErrno e ''fstat'' None], L\<lparr>world := w, errno := e\<rparr>)
     | (w, Some b) \<Rightarrow> (Val [VTab (length (tabs L))],
         L\<lparr>world := w, errno := e, tabs := tabs L @ [stat_table b]\<rparr>))"
  using assms
  by (cases f; cases L)
     (auto simp: fstat_lua_def probe_def open_flags_def c_step c_body call_ops stack_ops settop_list_def
      sys_def Let_def split: prod.splits sum.splits)

lemma fstat_answer:
  assumes "follow_arg args = Some f" "call (fstat_lua ops) (VStr p # args) L = (x, L')"
  shows "(\<exists>t. x = Val [VTab t]) \<longleftrightarrow> (\<exists>w w2 fd b. k_open ops (c_str p) (open_flags f) (world L) = (w, Inr fd)
      \<and> k_fstat ops fd w = (w2, Inr b))"
    and "(\<exists>t. x = Val [VTab t]) \<or> (\<exists>e. x = Val [VNil, VErrno e ''fstat'' None])"
  using fstat_run [OF assms(1), of ops p L] assms(2)
  by (auto simp: probe_def split: prod.splits sum.splits)

section \<open>The law of the file system\<close>

text \<open>
  \<open>lookup w f p\<close> is what path \<open>p\<close> names, the last symbolic link followed when \<open>f\<close>;
  \<open>opened w\<close> are the open descriptors and \<open>at_fd w fd\<close> the attributes of an open file.
  Opening with \<open>O_NOFOLLOW\<close> never succeeds on a symbolic link.
\<close>

definition is_symlink :: "stat_t \<Rightarrow> bool" where
  "is_symlink b \<longleftrightarrow> st_mode b AND S_IFMT = S_IFLNK"

locale file_kernel =
  fixes ops :: "'w file_ops" and lookup :: "'w \<Rightarrow> bool \<Rightarrow> string \<Rightarrow> c_int + stat_t"
    and opened :: "'w \<Rightarrow> c_int set" and at_fd :: "'w \<Rightarrow> c_int \<Rightarrow> stat_t"
  assumes stat_law: "k_stat ops p w = (w, lookup w True p)"
    and lstat_law: "k_lstat ops p w = (w, lookup w False p)"
    and open_ok: "k_open ops p fl w = (w', Inr fd) \<Longrightarrow> fd \<notin> opened w \<and> opened w' = insert fd (opened w) \<and>
      lookup w' = lookup w \<and> lookup w (fl AND O_NOFOLLOW = 0) p = Inr (at_fd w' fd)"
    and open_nofollow: "k_open ops p fl w = (w', Inr fd) \<Longrightarrow> fl AND O_NOFOLLOW \<noteq> 0 \<Longrightarrow> \<not> is_symlink (at_fd w' fd)"
    and open_err: "k_open ops p fl w = (w', Inl e) \<Longrightarrow> opened w' = opened w \<and> lookup w' = lookup w"
    and fstat_ok: "k_fstat ops fd w = (w', Inr b) \<Longrightarrow> w' = w \<and> b = at_fd w fd"
    and fstat_err: "k_fstat ops fd w = (w', Inl e) \<Longrightarrow> w' = w"
    and close_any: "k_file_close ops fd w = (w', r) \<Longrightarrow> opened w' = opened w - {fd} \<and> lookup w' = lookup w"

context file_kernel
begin

lemma open_flags_nofollow: "open_flags f AND O_NOFOLLOW = 0 \<longleftrightarrow> f"
  by (cases f) (simp_all add: open_flags_def O_RDONLY_def O_CLOEXEC_def O_NOFOLLOW_def)

text \<open>\<open>fstat\<close> closes what it opens, and what it finds is what \<open>stat\<close> or \<open>lstat\<close> would report.\<close>

lemma probe_effect:
  assumes "probe ops p f w = (w', r)"
  shows "opened w' = opened w" and "lookup w' = lookup w"
    and "r = Some b \<Longrightarrow> lookup w f p = Inr b \<and> (f \<or> \<not> is_symlink b)"
proof -
  have "opened w' = opened w \<and> lookup w' = lookup w \<and>
      (\<forall>b. r = Some b \<longrightarrow> lookup w f p = Inr b \<and> (f \<or> \<not> is_symlink b))"
  proof (cases "k_open ops p (open_flags f) w")
    case (Pair w1 x)
    show ?thesis
    proof (cases x)
      case (Inl e)
      with Pair assms open_err show ?thesis by (auto simp: probe_def)
    next
      case (Inr fd)
      note o = open_ok [OF Pair [unfolded Inr]] open_nofollow [OF Pair [unfolded Inr]]
      obtain w2 y where 2: "k_fstat ops fd w1 = (w2, y)" by fastforce
      obtain w3 z where 3: "k_file_close ops fd w2 = (w3, z)" by fastforce
      have "w2 = w1" and y: "\<And>b. y = Inr b \<Longrightarrow> b = at_fd w1 fd"
        using 2 fstat_ok fstat_err by (cases y; auto)+
      with o close_any [OF 3] have "opened w3 = opened w \<and> lookup w3 = lookup w" by auto
      moreover have "w' = w3" "r = (case y of Inl e \<Rightarrow> None | Inr b \<Rightarrow> Some b)"
        using assms Pair Inr 2 3 by (auto simp: probe_def split: sum.splits)
      ultimately show ?thesis using o y by (auto simp: open_flags_nofollow split: sum.splits)
    qed
  qed
  then show "opened w' = opened w" and "lookup w' = lookup w"
    and "r = Some b \<Longrightarrow> lookup w f p = Inr b \<and> (f \<or> \<not> is_symlink b)" by auto
qed

lemma fstat_effect:
  assumes "follow_arg args = Some f" "call (fstat_lua ops) (VStr p # args) L = (x, L')"
  shows "opened (world L') = opened (world L)" and "lookup (world L') = lookup (world L)"
    and "x = Val [VTab t] \<Longrightarrow> \<exists>b. tabs L' ! t = stat_table b \<and> lookup (world L) f (c_str p) = Inr b
      \<and> (f \<or> \<not> is_symlink b)"
proof -
  obtain w r where p: "probe ops (c_str p) f (world L) = (w, r)" by fastforce
  note eff = probe_effect [OF p]
  from fstat_run [OF assms(1), of ops p L] assms(2) p obtain e where
    run: "(x, L') = (case r of None \<Rightarrow> (Val [VNil, VErrno e ''fstat'' None], L\<lparr>world := w, errno := e\<rparr>)
      | Some b \<Rightarrow> (Val [VTab (length (tabs L))],
         L\<lparr>world := w, errno := e, tabs := tabs L @ [stat_table b]\<rparr>))" by auto
  then show "opened (world L') = opened (world L)" and "lookup (world L') = lookup (world L)"
    using eff(1,2) by (auto split: option.splits)
  show "\<exists>b. tabs L' ! t = stat_table b \<and> lookup (world L) f (c_str p) = Inr b \<and> (f \<or> \<not> is_symlink b)"
    if "x = Val [VTab t]"
    using run that eff(3) by (auto split: option.splits)
qed

end

section \<open>The permission string\<close>

lemma perm_shape:
  shows "perm_of mode = alt_octal (unat (mode AND 0x3ff))" and "length (perm_of mode) \<le> 5"
proof -
  let ?n = "unat (mode AND 0x3ff)"
  have "(0x3ff :: 32 word) = mask 10" by (simp add: mask_eq_exp_minus_1)
  then have "mode AND 0x3ff = take_bit 10 mode" by (simp only: take_bit_eq_mask)
  then have "?n < 1024" by (simp add: unsigned_take_bit_eq take_bit_nat_less_exp [of 10, simplified])
  then have "?n < 8 ^ 4" by simp
  then have "length (alt_octal ?n) \<le> 5"
    using length_digits [of 8 ?n 4 64] by (simp add: alt_octal_def show_base_def)
  then show "perm_of mode = alt_octal ?n" and "length (perm_of mode) \<le> 5"
    by (simp_all add: perm_of_def snprintf_def)
qed

lemma tget_stat_table:
  "map_of (stat_fields b) k = Some v \<Longrightarrow> tget (stat_table b) (VStr k) = v"
  "map_of (stat_fields b) k = None \<Longrightarrow> tget (stat_table b) (VStr k) = VNil"
proof -
  have *: "map_of (map (\<lambda>(k, v). (VStr k, v)) fs) (VStr k) = map_of fs k" for fs :: "(string \<times> lval) list"
    by (induction fs) auto
  show "map_of (stat_fields b) k = Some v \<Longrightarrow> tget (stat_table b) (VStr k) = v"
    "map_of (stat_fields b) k = None \<Longrightarrow> tget (stat_table b) (VStr k) = VNil"
    by (simp_all add: tget_def stat_table_def *)
qed

section \<open>A reference file system\<close>

text \<open>
  Paths with their attributes; a symbolic link has a target; sockets cannot be opened. The
  \<open>errno\<close> values are \<open>ENOENT\<close>, \<open>ELOOP\<close>, \<open>ENXIO\<close> and \<open>EBADF\<close>.
\<close>

record file_world =
  inodes :: "string \<Rightarrow> stat_t option"
  targets :: "string \<Rightarrow> string"
  fdtab :: "(c_int \<times> stat_t) list"
  fresh_fd :: nat

definition ref_lookup :: "file_world \<Rightarrow> bool \<Rightarrow> string \<Rightarrow> c_int + stat_t" where
  "ref_lookup w f p = (case inodes w p of
       None \<Rightarrow> Inl 2
     | Some b \<Rightarrow>
         if f \<and> is_symlink b
         then (case inodes w (targets w p) of
             None \<Rightarrow> Inl 2
           | Some b' \<Rightarrow> if is_symlink b' then Inl 40 else Inr b')
         else Inr b)"

definition ref_open :: "string \<Rightarrow> c_int \<Rightarrow> (file_world, c_int) syscall" where
  "ref_open p fl w = (let fd = of_nat (fresh_fd w) in case ref_lookup w (fl AND O_NOFOLLOW = 0) p of
       Inl e \<Rightarrow> (w, Inl e)
     | Inr b \<Rightarrow>
         if is_symlink b then (w, Inl 40)
         else if st_mode b AND S_IFMT = S_IFSOCK then (w, Inl 6)
         else if fd \<in> fst ` set (fdtab w) then (w, Inl 24)
         else (w\<lparr>fdtab := (fd, b) # fdtab w, fresh_fd := fresh_fd w + 1\<rparr>, Inr fd))"

definition ref_file_close :: "c_int \<Rightarrow> (file_world, unit) syscall" where
  "ref_file_close fd w =
     (w\<lparr>fdtab := filter (\<lambda>(d, _). d \<noteq> fd) (fdtab w)\<rparr>,
      if fd \<in> fst ` set (fdtab w) then Inr () else Inl EBADF)"

definition ref_file_ops :: "file_world file_ops" where
  "ref_file_ops = \<lparr>
     k_stat = (\<lambda>p w. (w, ref_lookup w True p)),
     k_lstat = (\<lambda>p w. (w, ref_lookup w False p)),
     k_open = ref_open,
     k_fstat = (\<lambda>fd w. (w, case map_of (fdtab w) fd of Some b \<Rightarrow> Inr b | None \<Rightarrow> Inl EBADF)),
     k_file_close = ref_file_close\<rparr>"

definition ref_opened :: "file_world \<Rightarrow> c_int set" where
  "ref_opened w = fst ` set (fdtab w)"

definition ref_at_fd :: "file_world \<Rightarrow> c_int \<Rightarrow> stat_t" where
  "ref_at_fd w fd = the (map_of (fdtab w) fd)"

lemma ref_lookup_frame [simp]:
  "ref_lookup (w\<lparr>fdtab := t\<rparr>) = ref_lookup w" "ref_lookup (w\<lparr>fresh_fd := n\<rparr>) = ref_lookup w"
  by (auto simp: ref_lookup_def fun_eq_iff split: option.splits)

interpretation ref_files: file_kernel ref_file_ops ref_lookup ref_opened ref_at_fd
proof unfold_locales
  fix fd w w' r
  assume "k_file_close ref_file_ops fd w = (w', r)"
  then show "ref_opened w' = ref_opened w - {fd} \<and> ref_lookup w' = ref_lookup w"
    by (auto simp: ref_file_ops_def ref_file_close_def ref_opened_def image_iff)
qed (auto simp: ref_file_ops_def ref_open_def ref_opened_def ref_at_fd_def Let_def
      split: sum.splits if_splits option.splits)

definition node :: "32 word \<Rightarrow> u64 \<Rightarrow> stat_t" where
  "node mode ino = \<lparr>st_dev = 1, st_ino = ino, st_mode = mode, st_nlink = 1, st_uid = 0, st_gid = 0,
     st_rdev = 0, st_size = 10, st_blksize = 4096, st_blocks = 8, st_atime = 1, st_mtime = 2, st_ctime = 3\<rparr>"

text \<open>A file, a link to it, and a socket.\<close>

definition file_world0 :: file_world where
  "file_world0 = \<lparr>inodes = map_of [(''f'', node 0x81ed 1), (''l'', node 0xa1ff 2), (''s'', node 0xc1ed 3)],
     targets = (\<lambda>_. ''f''), fdtab = [], fresh_fd = 3\<rparr>"

section \<open>Properties\<close>

text \<open>C15. \<open>fstat\<close> never leaves a descriptor open, whatever happens; it answers with a table
exactly when the file can be opened and its attributes read, otherwise with nil and an error
object; and then \<open>stat\<close> called with the same arguments answers with the same table.\<close>

theorem fstat_agrees_with_stat:
  assumes "file_kernel ops lookup opened at_fd" and "follow_arg args = Some f"
    and "call (fstat_lua ops) (VStr p # args) L = (x, L')"
  shows "opened (world L') = opened (world L)
    \<and> ((\<exists>t. x = Val [VTab t]) \<longleftrightarrow> (\<exists>w w2 fd b. k_open ops (c_str p) (open_flags f) (world L) = (w, Inr fd)
          \<and> k_fstat ops fd w = (w2, Inr b)))
    \<and> ((\<exists>t. x = Val [VTab t]) \<or> (\<exists>e. x = Val [VNil, VErrno e ''fstat'' None]))
    \<and> (\<forall>t. x = Val [VTab t] \<longrightarrow> (\<exists>t2 L2. call (stat_lua ops) (VStr p # args) L = (Val [VTab t2], L2)
      \<and> tabs L2 ! t2 = tabs L' ! t))"
proof -
  note eff = file_kernel.fstat_effect [OF assms]
  have "\<exists>t2 L2. call (stat_lua ops) (VStr p # args) L = (Val [VTab t2], L2) \<and> tabs L2 ! t2 = tabs L' ! t"
    if "x = Val [VTab t]" for t
  proof -
    from eff(3) [OF that] obtain b where b: "tabs L' ! t = stat_table b" "lookup (world L) f (c_str p) = Inr b"
      by auto
    have "(if f then k_stat ops (c_str p) else k_lstat ops (c_str p)) (world L) = (world L, Inr b)"
      using b(2) file_kernel.stat_law [OF assms(1)] file_kernel.lstat_law [OF assms(1)] by (cases f) simp_all
    with stat_run [OF assms(2), of ops p L] b(1) show ?thesis by simp
  qed
  with eff(1) fstat_answer [OF assms(2,3)] show ?thesis by blast
qed

lemma fstat_agrees_with_stat_witness:
  "\<exists>x L'. call (fstat_lua ref_file_ops) [VStr ''l''] (lua0 file_world0 :: (unit, file_world) lua) = (x, L')
    \<and> ref_opened (world L') = {}"
proof -
  obtain x L' where c: "call (fstat_lua ref_file_ops) [VStr ''l''] (lua0 file_world0 :: (unit, file_world) lua) = (x, L')"
    by fastforce
  have "follow_arg [] = Some True" by (simp add: follow_arg_def)
  from fstat_agrees_with_stat [OF ref_files.file_kernel_axioms this c] c show ?thesis
    by (auto simp: ref_opened_def file_world0_def)
qed

text \<open>Without following links, \<open>fstat\<close> of a symbolic link is always an error, while \<open>stat\<close>
describes the link: the two are not equivalent there.\<close>

theorem fstat_nofollow_rejects_links:
  assumes "file_kernel ops lookup opened at_fd" and "follow_arg args = Some False"
    and "lookup (world L) False (c_str p) = Inr b" and "is_symlink b"
  shows "(\<exists>e L'. call (fstat_lua ops) (VStr p # args) L = (Val [VNil, VErrno e ''fstat'' None], L'))
    \<and> (\<exists>t L'. call (stat_lua ops) (VStr p # args) L = (Val [VTab t], L')
        \<and> tget (tabs L' ! t) (VStr ''type'') = VStr ''symlink'')"
proof -
  obtain w r where pr: "probe ops (c_str p) False (world L) = (w, r)" by fastforce
  from file_kernel.probe_effect(3) [OF assms(1) pr] assms(3,4) have "r = None" by (cases r) auto
  with fstat_run [OF assms(2), of ops p L] pr
  have 1: "\<exists>e L'. call (fstat_lua ops) (VStr p # args) L = (Val [VNil, VErrno e ''fstat'' None], L')"
    by fastforce
  have k: "k_lstat ops (c_str p) (world L) = (world L, Inr b)"
    using assms(3) file_kernel.lstat_law [OF assms(1)] by simp
  have "file_type (st_mode b) = Some ''symlink''"
    using assms(4) by (simp add: is_symlink_def file_type_def S_IFREG_def S_IFDIR_def S_IFLNK_def)
  then have "map_of (stat_fields b) ''type'' = Some (VStr ''symlink'')" by (simp add: stat_fields_def)
  from tget_stat_table(1) [OF this] 1 stat_run [OF assms(2), of ops p L] k show ?thesis by simp
qed

lemma fstat_nofollow_rejects_links_witness:
  "\<exists>e L'. call (fstat_lua ref_file_ops) [VStr ''l'', VBool False] (lua0 file_world0 :: (unit, file_world) lua)
    = (Val [VNil, VErrno e ''fstat'' None], L')"
proof -
  have f: "follow_arg [VBool False] = Some False" by (simp add: follow_arg_def)
  have l: "ref_lookup (world (lua0 file_world0 :: (unit, file_world) lua)) False (c_str ''l'') = Inr (node 0xa1ff 2)"
    by (simp add: ref_lookup_def file_world0_def no_nul_def)
  have "is_symlink (node 0xa1ff 2)" by (simp add: is_symlink_def node_def S_IFMT_def S_IFLNK_def)
  from fstat_nofollow_rejects_links [OF ref_files.file_kernel_axioms f l this] show ?thesis by blast
qed

text \<open>Reading octal digits back.\<close>

definition octal_value :: "string \<Rightarrow> nat" where
  "octal_value s = value_of 8 (map (\<lambda>c. of_char c - 48) s)"

lemma octal_value_alt: "n < 8 ^ 64 \<Longrightarrow> octal_value (alt_octal n) = n"
proof -
  assume n: "n < 8 ^ 64"
  have "map (\<lambda>c. of_char c - 48) (map digit_char ds) = ds" if "\<forall>d \<in> set ds. d < 8" for ds
    using that by (induction ds) (auto simp: digit_char_def of_char_of)
  then have "octal_value (show_base 8 n) = value_of 8 (digits 64 8 n)"
    using digits_less [of 8 _ 64 n] by (simp add: octal_value_def show_base_def)
  also have "\<dots> = n" using n by (intro value_of_digits) simp_all
  finally have "octal_value (show_base 8 n) = n" .
  moreover have "octal_value (CHR 0x30 # s) = octal_value s" for s
    by (simp add: octal_value_def value_of_def)
  moreover have "octal_value ''0'' = 0" by (simp add: octal_value_def value_of_def)
  ultimately show ?thesis by (simp add: alt_octal_def)
qed

text \<open>C25. \<open>stat\<close> of a path that exists returns a new table with every field of the attributes, of
which the \<open>perm\<close> string is never cut off by its six-byte buffer and reads back in octal as the
permission and sticky bits of the mode, and \<open>type\<close> names the file type, if it is a known one.\<close>

theorem stat_reports_attributes:
  assumes "follow_arg args = Some f"
    and "(if f then k_stat ops (c_str p) else k_lstat ops (c_str p)) (world L) = (w, Inr b)"
  shows "\<exists>t. call (stat_lua ops) (VStr p # args) L = (Val [VTab (length (tabs L))], L\<lparr>world := w, tabs := tabs L @ [t]\<rparr>)
    \<and> tget t (VStr ''dev'') = VInt (st_dev b) \<and> tget t (VStr ''ino'') = VInt (st_ino b)
    \<and> tget t (VStr ''mode'') = VInt (ucast (st_mode b)) \<and> tget t (VStr ''nlink'') = VInt (st_nlink b)
    \<and> tget t (VStr ''uid'') = VInt (ucast (st_uid b)) \<and> tget t (VStr ''gid'') = VInt (ucast (st_gid b))
    \<and> tget t (VStr ''rdev'') = VInt (st_rdev b) \<and> tget t (VStr ''size'') = VInt (st_size b)
    \<and> tget t (VStr ''blksize'') = VInt (st_blksize b) \<and> tget t (VStr ''blocks'') = VInt (st_blocks b)
    \<and> tget t (VStr ''atime'') = VInt (st_atime b) \<and> tget t (VStr ''mtime'') = VInt (st_mtime b)
    \<and> tget t (VStr ''ctime'') = VInt (st_ctime b)
    \<and> (\<exists>s. tget t (VStr ''perm'') = VStr s \<and> octal_value s = unat (st_mode b AND 0x3ff) \<and> length s < 6)
    \<and> tget t (VStr ''type'') = (case file_type (st_mode b) of Some s \<Rightarrow> VStr s | None \<Rightarrow> VNil)"
proof -
  have "unat (st_mode b AND 0x3ff) < 2 ^ 32" by (rule order_less_le_trans [OF unsigned_less]) simp
  also have "(2 :: nat) ^ 32 < 8 ^ 64" by simp
  finally have "octal_value (perm_of (st_mode b)) = unat (st_mode b AND 0x3ff)"
    unfolding perm_shape(1) by (rule octal_value_alt)
  moreover have "length (perm_of (st_mode b)) < 6" using perm_shape(2) [of "st_mode b"] by simp
  moreover note stat_run [OF assms(1), of ops p L]
  ultimately show ?thesis
    using assms(2)
    by (intro exI [of _ "stat_table b"])
       (auto simp: stat_fields_def intro!: tget_stat_table split: option.splits)
qed

lemma stat_reports_attributes_witness:
  "\<exists>t. fst (call (stat_lua ref_file_ops) [VStr ''f''] (lua0 file_world0 :: (unit, file_world) lua)) = Val [VTab 0]
    \<and> tget t (VStr ''type'') = VStr ''file''
    \<and> (\<exists>s. tget t (VStr ''perm'') = VStr s \<and> octal_value s = 0x1ed)"
proof -
  have f: "follow_arg [] = Some True" by (simp add: follow_arg_def)
  have k: "(if True then k_stat ref_file_ops (c_str ''f'') else k_lstat ref_file_ops (c_str ''f''))
      (world (lua0 file_world0 :: (unit, file_world) lua)) = (file_world0, Inr (node 0x81ed 1))"
    by (simp add: ref_file_ops_def ref_lookup_def file_world0_def no_nul_def is_symlink_def node_def
        S_IFMT_def S_IFLNK_def)
  have t: "file_type (st_mode (node 0x81ed 1)) = Some ''file''"
    by (simp add: file_type_def node_def S_IFMT_def S_IFREG_def)
  have m: "unat (st_mode (node 0x81ed 1) AND 0x3ff) = 0x1ed" by (simp add: node_def)
  show ?thesis
    using stat_reports_attributes [OF f k] unfolding t m by auto
qed

end
