(* ===== verification/Dir_Read.thy ===== *)
theory Dir_Read
  imports Lua_Api
begin

text \<open>
  The module \<open>testcase.readdir\<close> (src/readdir.c): a callback is called with the name of each
  entry of a directory until it returns something other than nil, or fails.
\<close>

section \<open>The system\<close>

text \<open>
  A directory stream is a number. \<open>readdir\<close> gives the next name, or \<open>None\<close> at the end, or
  fails; \<open>run\<close> is the execution of Lua code.
\<close>

record 'w dir_ops =
  k_opendir :: "string \<Rightarrow> ('w, nat) syscall"
  k_readdir :: "nat \<Rightarrow> ('w, string option) syscall"
  k_closedir :: "nat \<Rightarrow> ('w, unit) syscall"

section \<open>The function\<close>

text \<open>
  The body of the loop for one name. \<open>Some n\<close> is \<open>return n\<close>, \<open>None\<close> is the next round, for
  which \<open>errno\<close> is cleared; the result of the callback stays on the stack.
\<close>

definition readdir_body ::
  "'w dir_ops \<Rightarrow> ('u, 'w) runner \<Rightarrow> nat \<Rightarrow> string \<Rightarrow> ('u, 'w, nat option) comp" where
  "readdir_body ops run dir name =
     bnd (seqs [lua_pushvalue 2, lua_pushstring name]) (\<lambda>_.
     bnd (lua_pcall run 1 1 0) (\<lambda>failed.
       if failed then
         bnd (sys (k_closedir ops dir)) (\<lambda>_. bnd lua_error_new (\<lambda>_. ret (Some 1)))
       else
         bnd lua_gettop (\<lambda>top.
         bnd (lua_type (- 1)) (\<lambda>t.
           if 2 < top \<and> t \<noteq> TNil then bnd (sys (k_closedir ops dir)) (\<lambda>_. ret (Some 1))
           else bnd (set_errno 0) (\<lambda>_. ret None)))))"

text \<open>
  The loop goes on for as long as the directory has entries: its result is \<open>None\<close> if it
  never ends. It ends with \<open>Some n\<close> for a \<open>return n\<close>, \<open>None\<close> when \<open>readdir\<close> gave NULL.
\<close>

partial_function (option) readdir_loop ::
  "'w dir_ops \<Rightarrow> ('u, 'w) runner \<Rightarrow> nat \<Rightarrow> ('u, 'w) lua \<Rightarrow> (nat option outcome \<times> ('u, 'w) lua) option" where
  "readdir_loop ops run dir L =
     (case sys (k_readdir ops dir) L of
        (Val (Some (Some name)), L1) \<Rightarrow>
          (case readdir_body ops run dir name L1 of
             (Val None, L2) \<Rightarrow> readdir_loop ops run dir L2
           | r \<Rightarrow> Some r)
      | (_, L1) \<Rightarrow> Some (Val None, L1))"

text \<open>What follows the loop, and what comes before it.\<close>

definition readdir_end :: "'w dir_ops \<Rightarrow> nat \<Rightarrow> ('u, 'w, nat) comp" where
  "readdir_end ops dir =
     bnd (sys (k_closedir ops dir)) (\<lambda>_.
     bnd get_errno (\<lambda>e.
       if e \<noteq> 0 then returning [lua_errno_new ''readdir''] 1
       else returning [lua_pushnil] 1))"

definition readdir_open :: "'w dir_ops \<Rightarrow> ('u, 'w, nat option) comp" where
  "readdir_open ops =
     bnd (luaL_checkstring 1) (\<lambda>path.
     bnd (luaL_checktype 2 TFunction) (\<lambda>_.
     bnd (lua_settop 2) (\<lambda>_.
     sys (k_opendir ops (c_str path)))))"

definition readdir_lua ::
  "'w dir_ops \<Rightarrow> ('u, 'w) runner \<Rightarrow> ('u, 'w) lua \<Rightarrow> (nat outcome \<times> ('u, 'w) lua) option" where
  "readdir_lua ops run L =
     (case readdir_open ops L of
        (Val (Some dir), L1) \<Rightarrow>
          (case readdir_loop ops run dir (L1\<lparr>errno := 0\<rparr>) of
             None \<Rightarrow> None
           | Some (r, L2) \<Rightarrow>
               Some (bnd (\<lambda>_. (r, L2)) (\<lambda>q. case q of Some n \<Rightarrow> ret n | None \<Rightarrow> readdir_end ops dir) L2))
      | (r, L1) \<Rightarrow> Some (bnd (\<lambda>_. (r, L1)) (\<lambda>_. returning [lua_errno_new ''readdir''] 1) L1))"

definition luaopen_testcase_readdir :: "('u, 'w, nat) comp" where
  "luaopen_testcase_readdir = returning [lua_pushcfunction ''readdir_lua''] 1"

text \<open>The call from Lua, \<open>None\<close> if it never returns.\<close>

definition call_readdir ::
  "'w dir_ops \<Rightarrow> ('u, 'w) runner \<Rightarrow> lval list \<Rightarrow> ('u, 'w) lua \<Rightarrow> (lval list outcome \<times> ('u, 'w) lua) option" where
  "call_readdir ops run args L =
     (case readdir_lua ops run (L\<lparr>stk := args, peak := length args\<rparr>) of
        None \<Rightarrow> None
      | Some x \<Rightarrow> Some (call (\<lambda>_. x) args L))"

section \<open>Walking a list of names\<close>

text \<open>
  The abstract function: \<open>act v name\<close> is what the callback does to the part \<open>v\<close> of the
  state that it works on, and what it returns.
\<close>

datatype walked = Exhausted | Stopped lval | Failed lval

fun walk :: "('v \<Rightarrow> string \<Rightarrow> (lval + lval) \<times> 'v) \<Rightarrow> 'v \<Rightarrow> string list \<Rightarrow> walked \<times> string list \<times> 'v" where
  "walk act v [] = (Exhausted, [], v)"
| "walk act v (name # names) = (case act v name of
       (Inl e, v') \<Rightarrow> (Failed e, names, v')
     | (Inr r, v') \<Rightarrow> if r = VNil then walk act v' names else (Stopped r, names, v'))"

text \<open>The result of a walk over a stream that, after its names, ends or fails with an \<open>errno\<close>.\<close>

fun walked_values :: "c_int option \<Rightarrow> walked \<Rightarrow> lval list" where
  "walked_values None Exhausted = [VNil]"
| "walked_values (Some e) Exhausted = [VErrno e ''readdir'' None]"
| "walked_values _ (Stopped r) = [r]"
| "walked_values _ (Failed e) = [VErr e]"

lemma walked_values_early: "res \<noteq> Exhausted \<Longrightarrow> walked_values f res = walked_values None res"
  by (cases res; cases f) simp_all

definition errno_of :: "c_int option \<Rightarrow> c_int" where
  "errno_of f = (case f of None \<Rightarrow> 0 | Some e \<Rightarrow> e)"

text \<open>
  The law: \<open>left w d\<close> are the names a stream has yet to give, \<open>fault w d\<close> the error, if any, that
  it gives after them, \<open>streams w\<close> the open streams. Neither the directory calls nor \<open>errno\<close>
  touch what \<open>view\<close> shows, and the callback \<open>cb\<close> acts on that and leaves the streams alone.
\<close>

locale dir_client =
  fixes ops :: "'w dir_ops" and run :: "('u, 'w) runner" and cb :: lval
    and left :: "'w \<Rightarrow> nat \<Rightarrow> string list" and fault :: "'w \<Rightarrow> nat \<Rightarrow> c_int option" and streams :: "'w \<Rightarrow> nat set"
    and view :: "'w \<Rightarrow> 'v" and act :: "'v \<Rightarrow> string \<Rightarrow> (lval + lval) \<times> 'v"
  assumes open_ok: "k_opendir ops p w = (w', Inr d) \<Longrightarrow>
      d \<notin> streams w \<and> streams w' = insert d (streams w) \<and> view w' = view w"
    and read_some: "d \<in> streams w \<Longrightarrow> left w d = name # names \<Longrightarrow>
      \<exists>w'. k_readdir ops d w = (w', Inr (Some name)) \<and> left w' d = names
        \<and> fault w' d = fault w d \<and> streams w' = streams w \<and> view w' = view w"
    and read_end: "d \<in> streams w \<Longrightarrow> left w d = [] \<Longrightarrow>
      \<exists>w'. k_readdir ops d w = (w', case fault w d of None \<Rightarrow> Inr None | Some e \<Rightarrow> Inl e)
        \<and> streams w' = streams w \<and> view w' = view w"
    and fault_errno: "fault w d = Some e \<Longrightarrow> e \<noteq> 0"
    and close_ok: "d \<in> streams w \<Longrightarrow>
      \<exists>w'. k_closedir ops d w = (w', Inr ()) \<and> streams w' = streams w - {d} \<and> view w' = view w"
    and runs: "run cb [VStr name] None L = (r, L') \<Longrightarrow>
      act (view (world L)) name = (map_sum id (\<lambda>vs. hd (vs @ [VNil])) r, view (world L'))
      \<and> left (world L') = left (world L) \<and> fault (world L') = fault (world L)
      \<and> streams (world L') = streams (world L)"

section \<open>One round\<close>

lemma slot_2_Cons [simp]: "slot 2 (a # b # s) = Some b"
  by simp

lemma nth_two [simp]: "([a, b] @ s @ c # t) ! Suc (Suc (length s)) = c"
  by (simp add: nth_append)

lemma readdir_body_run:
  assumes "stk L = [p, cb] @ s" "run cb [VStr name] None (L\<lparr>stk := [], peak := 0\<rparr>) = (r, L1)"
  shows "readdir_body ops run d name L = (case r of
      Inl e \<Rightarrow> bnd (sys (k_closedir ops d)) (\<lambda>_. bnd lua_error_new (\<lambda>_. ret (Some 1)))
        (L1\<lparr>stk := stk L @ [e], peak := max (peak L) (length (stk L) + 2)\<rparr>)
    | Inr rs \<Rightarrow> (let v = hd (rs @ [VNil]); L2 = L1\<lparr>stk := stk L @ [v], peak := max (peak L) (length (stk L) + 2)\<rparr> in
        if v = VNil then (Val None, L2\<lparr>errno := 0\<rparr>)
        else bnd (sys (k_closedir ops d)) (\<lambda>_. ret (Some 1)) L2))"
proof -
  have nil: "type_of v = TNil \<longleftrightarrow> v = VNil" for v by (cases v) auto
  have top: "slot (- 1) (a # t @ [x]) = Some x" for a x :: lval and t
    using slot_top(1) [of "a # t" x] by simp
  show ?thesis
  proof (cases r)
    case (Inl e)
    with assms show ?thesis
      by (simp add: readdir_body_def c_step stack_ops lua_pcall_def [THEN fun_cong] Let_def)
  next
    case (Inr rs)
    with assms show ?thesis
      by (cases rs) (simp_all add: readdir_body_def c_step stack_ops lua_pcall_def [THEN fun_cong] Let_def nil top)
  qed
qed

context dir_client
begin

text \<open>
  One round, as the callback decides: its error or a value other than nil ends the loop with
  the directory closed, nil goes on to the next name.
\<close>

lemma readdir_round:
  assumes "stk L = [p, cb] @ s" "d \<in> streams (world L)" "left (world L) d = name # names"
    and "act (view (world L)) name = (r, v)"
  shows "\<exists>L2 w. view (world L2) = v \<and> left (world L2) d = names \<and> fault (world L2) d = fault (world L) d
    \<and> streams (world L2) = streams (world L) \<and> streams w = streams (world L) - {d} \<and> view w = v
    \<and> readdir_loop ops run d L = (case r of
        Inl e \<Rightarrow> Some (Val (Some 1), L2\<lparr>world := w, stk := stk L @ [e, VErr e]\<rparr>)
      | Inr x \<Rightarrow> if x = VNil then readdir_loop ops run d (L2\<lparr>stk := stk L @ [VNil], errno := 0\<rparr>)
          else Some (Val (Some 1), L2\<lparr>world := w, stk := stk L @ [x]\<rparr>))"
proof -
  from read_some [OF assms(2,3)] obtain w1 where
    rd: "k_readdir ops d (world L) = (w1, Inr (Some name))" and w1: "left w1 d = names"
    "fault w1 d = fault (world L) d" "streams w1 = streams (world L)" "view w1 = view (world L)" by auto
  obtain q L2 where q: "run cb [VStr name] None ((L\<lparr>world := w1\<rparr>)\<lparr>stk := [], peak := 0\<rparr>) = (q, L2)" by fastforce
  from runs [OF q] w1 assms(4) have r: "r = map_sum id (\<lambda>vs. hd (vs @ [VNil])) q" "v = view (world L2)"
    and w2: "left (world L2) d = names" "fault (world L2) d = fault (world L) d"
      "streams (world L2) = streams (world L)" by auto
  from close_ok [of d "world L2"] assms(2) w2(3) obtain w where
    w: "k_closedir ops d (world L2) = (w, Inr ())" "streams w = streams (world L) - {d}" "view w = v"
    by (auto simp: r(2))
  have "stk (L\<lparr>world := w1\<rparr>) = [p, cb] @ s" using assms(1) by simp
  note body = readdir_body_run [of "L\<lparr>world := w1\<rparr>" p cb s run name q L2 ops d, OF this q]
  have swap: "M\<lparr>peak := k, stk := t\<rparr> = M\<lparr>stk := t, peak := k\<rparr>" for M :: "('a, 'w) lua" and k t
    by simp
  let ?L2 = "L2\<lparr>peak := max (peak L) (length (stk L) + 2)\<rparr>"
  have "readdir_loop ops run d L = (case r of
        Inl e \<Rightarrow> Some (Val (Some 1), ?L2\<lparr>world := w, stk := stk L @ [e, VErr e]\<rparr>)
      | Inr x \<Rightarrow> if x = VNil then readdir_loop ops run d (?L2\<lparr>stk := stk L @ [VNil], errno := 0\<rparr>)
          else Some (Val (Some 1), ?L2\<lparr>world := w, stk := stk L @ [x]\<rparr>))"
    using body w(1)
    by (cases q) (simp_all add: readdir_loop.simps [of ops run d L] r(1) sys_def rd c_step callback_ops stack_ops Let_def swap)
  with w w2 r(2) show ?thesis
    by (intro exI [of _ ?L2] exI [of _ w]) simp
qed

text \<open>The loop walks the names that are left and keeps one nil on the stack for each.\<close>

lemma readdir_loop_walk:
  assumes "stk L = [p, cb] @ replicate n VNil" "d \<in> streams (world L)" "errno L = 0"
    and "walk act (view (world L)) (left (world L) d) = (res, rest, v)"
  shows "\<exists>q L'. readdir_loop ops run d L = Some (Val q, L') \<and> view (world L') = v
    \<and> (res = Exhausted \<longrightarrow> q = None \<and> errno L' = errno_of (fault (world L) d) \<and> streams (world L') = streams (world L)
        \<and> stk L' = [p, cb] @ replicate (n + length (left (world L) d)) VNil)
    \<and> (res \<noteq> Exhausted \<longrightarrow> q = Some 1 \<and> streams (world L') = streams (world L) - {d}
        \<and> [last (stk L')] = walked_values None res \<and> stk L' \<noteq> [])"
  using assms
proof (induction "left (world L) d" arbitrary: L n)
  case Nil
  from read_end [OF Nil.prems(2) Nil.hyps [symmetric]] obtain w' where
    "k_readdir ops d (world L) = (w', case fault (world L) d of None \<Rightarrow> Inr None | Some e \<Rightarrow> Inl e)"
    "streams w' = streams (world L)" "view w' = view (world L)" by auto
  with Nil show ?case
    by (cases "fault (world L) d") (auto simp: readdir_loop.simps [of ops run d L] sys_def errno_of_def)
next
  case (Cons name names)
  note left = Cons.hyps(2) [symmetric]
  obtain r v1 where a: "act (view (world L)) name = (r, v1)" by fastforce
  from readdir_round [OF Cons.prems(1,2) left a] obtain L2 w where
    2: "view (world L2) = v1" "left (world L2) d = names" "fault (world L2) d = fault (world L) d"
      "streams (world L2) = streams (world L)" and w: "streams w = streams (world L) - {d}" "view w = v1"
    and loop: "readdir_loop ops run d L = (case r of
        Inl e \<Rightarrow> Some (Val (Some 1), L2\<lparr>world := w, stk := stk L @ [e, VErr e]\<rparr>)
      | Inr x \<Rightarrow> if x = VNil then readdir_loop ops run d (L2\<lparr>stk := stk L @ [VNil], errno := 0\<rparr>)
          else Some (Val (Some 1), L2\<lparr>world := w, stk := stk L @ [x]\<rparr>))" by blast
  show ?case
  proof (cases "r = Inr VNil")
    case True
    let ?L3 = "L2\<lparr>stk := stk L @ [VNil], errno := 0\<rparr>"
    have "names = left (world ?L3) d" "stk ?L3 = [p, cb] @ replicate (Suc n) VNil"
      "d \<in> streams (world ?L3)" "errno ?L3 = 0"
      "walk act (view (world ?L3)) (left (world ?L3) d) = (res, rest, v)"
      using 2 Cons.prems True a by (simp_all add: left replicate_append_same)
    from Cons.hyps(1) [OF this] obtain q L' where
      "readdir_loop ops run d ?L3 = Some (Val q, L')" "view (world L') = v"
      "res = Exhausted \<longrightarrow> q = None \<and> errno L' = errno_of (fault (world ?L3) d) \<and> streams (world L') = streams (world ?L3)
        \<and> stk L' = [p, cb] @ replicate (Suc n + length (left (world ?L3) d)) VNil"
      "res \<noteq> Exhausted \<longrightarrow> q = Some 1 \<and> streams (world L') = streams (world ?L3) - {d}
        \<and> [last (stk L')] = walked_values None res \<and> stk L' \<noteq> []" by blast
    then show ?thesis using 2 True by (intro exI [of _ q] exI [of _ L']) (simp add: loop left)
  next
    case False
    then have res: "v = v1 \<and> res = (case r of Inl e \<Rightarrow> Failed e | Inr x \<Rightarrow> Stopped x)"
      using Cons.prems(4) by (cases r) (auto simp: left a)
    show ?thesis using False w res by (cases r) (simp_all add: loop)
  qed
qed

end

section \<open>A call\<close>

context dir_client
begin

lemma walked_exhausted:
  "walked_values (fault w d) Exhausted = (if errno_of (fault w d) = 0 then [VNil]
     else [VErrno (errno_of (fault w d)) ''readdir'' None])"
  using fault_errno [of w d] by (cases "fault w d") (simp_all add: errno_of_def)

text \<open>
  A call on a directory that opens: its value, the state it leaves, and the streams, which
  are those there were before.
\<close>

lemma readdir_walk:
  assumes "type_of cb = TFunction" "k_opendir ops (c_str p) (world L) = (w, Inr d)"
    and "walk act (view (world L)) (left w d) = (res, rest, v)"
  shows "\<exists>L'. call_readdir ops run (VStr p # cb # args) L = Some (Val (walked_values (fault w d) res), L')
    \<and> view (world L') = v \<and> streams (world L') = streams (world L)"
proof -
  let ?L1 = "L\<lparr>stk := [VStr p, cb], peak := Suc (Suc (length args)), world := w\<rparr>"
  have start: "readdir_open ops (L\<lparr>stk := VStr p # cb # args, peak := Suc (Suc (length args))\<rparr>) = (Val (Some d), ?L1)"
    using assms(1,2) by (simp add: readdir_open_def c_step arg_ops stack_ops settop_list_def sys_def)
  note o = open_ok [OF assms(2)]
  have "stk (?L1\<lparr>errno := 0\<rparr>) = [VStr p, cb] @ replicate 0 VNil" "d \<in> streams (world (?L1\<lparr>errno := 0\<rparr>))"
    "errno (?L1\<lparr>errno := 0\<rparr>) = 0"
    "walk act (view (world (?L1\<lparr>errno := 0\<rparr>))) (left (world (?L1\<lparr>errno := 0\<rparr>)) d) = (res, rest, v)"
    using o assms(3) by simp_all
  from readdir_loop_walk [OF this] obtain q L' where
    loop: "readdir_loop ops run d (?L1\<lparr>errno := 0\<rparr>) = Some (Val q, L')" "view (world L') = v"
    and ex: "res = Exhausted \<Longrightarrow> q = None \<and> errno L' = errno_of (fault w d) \<and> streams (world L') = streams w"
    and st: "res \<noteq> Exhausted \<Longrightarrow> q = Some 1 \<and> streams (world L') = streams w - {d}
        \<and> [last (stk L')] = walked_values None res \<and> stk L' \<noteq> []"
    using o by auto
  show ?thesis
  proof (cases "res = Exhausted")
    case True
    with ex o have q: "q = None" "errno L' = errno_of (fault w d)" "d \<in> streams (world L')" by auto
    from close_ok [OF q(3)] obtain w3 where
      cl: "k_closedir ops d (world L') = (w3, Inr ())" "streams w3 = streams (world L') - {d}"
        "view w3 = view (world L')" by auto
    with True q o loop ex [OF True] show ?thesis
      by (auto simp: walked_exhausted call_readdir_def readdir_lua_def start readdir_end_def c_step call_ops stack_ops sys_def)
  next
    case False
    have "results (Suc 0) s = [last s]" if "s \<noteq> []" for s
      using that by (cases s rule: rev_cases) (simp_all add: results_def)
    with False st o loop show ?thesis
      by (auto simp: walked_values_early [OF False, of "fault w d"] call_readdir_def readdir_lua_def start c_step
          call_def [THEN fun_cong])
  qed
qed

end

lemma readdir_no_directory:
  assumes "type_of cb = TFunction" "k_opendir ops (c_str p) (world L) = (w, Inl e)"
  shows "call_readdir ops run (VStr p # cb # args) L
    = Some (Val [VErrno e ''readdir'' None], L\<lparr>world := w, errno := e\<rparr>)"
  using assms
  by (simp add: call_readdir_def readdir_lua_def readdir_open_def c_step arg_ops stack_ops settop_list_def sys_def call_ops)

section \<open>A reference directory\<close>

text \<open>
  Directories with their entries, streams with what they have yet to give, and the names a
  callback has seen: it stops at \<open>stop\<close> and fails at \<open>fail\<close>. When \<open>bad\<close> is not 0 every stream
  fails with it at the end.
\<close>

record dir_world =
  listing :: "string \<Rightarrow> string list option"
  positions :: "(nat \<times> string list) list"
  next_dir :: nat
  bad :: c_int
  seen :: "string list"

definition ref_opendir :: "string \<Rightarrow> (dir_world, nat) syscall" where
  "ref_opendir p w = (case listing w p of
       None \<Rightarrow> (w, Inl 2)
     | Some names \<Rightarrow>
         if next_dir w \<in> fst ` set (positions w) then (w, Inl 24)
         else (w\<lparr>positions := (next_dir w, names) # positions w, next_dir := next_dir w + 1\<rparr>, Inr (next_dir w)))"

definition ref_readdir :: "nat \<Rightarrow> (dir_world, string option) syscall" where
  "ref_readdir d w = (case map_of (positions w) d of
       None \<Rightarrow> (w, Inl EBADF)
     | Some [] \<Rightarrow> (w, if bad w = 0 then Inr None else Inl (bad w))
     | Some (name # names) \<Rightarrow> (w\<lparr>positions := AList.update d names (positions w)\<rparr>, Inr (Some name)))"

definition ref_closedir :: "nat \<Rightarrow> (dir_world, unit) syscall" where
  "ref_closedir d w = (w\<lparr>positions := AList.delete d (positions w)\<rparr>,
     if d \<in> fst ` set (positions w) then Inr () else Inl EBADF)"

definition ref_dir_ops :: "dir_world dir_ops" where
  "ref_dir_ops = \<lparr>k_opendir = ref_opendir, k_readdir = ref_readdir, k_closedir = ref_closedir\<rparr>"

definition visit :: "string list \<Rightarrow> string \<Rightarrow> (lval + lval) \<times> string list" where
  "visit names name = (if name = ''stop'' then Inr (VInt 1) else if name = ''fail'' then Inl (VStr ''bad'')
     else Inr VNil, names @ [name])"

definition ref_run :: "('u, dir_world) runner" where
  "ref_run cb args h L = (case args of
       [VStr name] \<Rightarrow> (map_sum id (\<lambda>v. [v]) (fst (visit (seen (world L)) name)),
         L\<lparr>world := (world L)\<lparr>seen := snd (visit (seen (world L)) name)\<rparr>\<rparr>)
     | _ \<Rightarrow> (Inr [], L))"

definition ref_left :: "dir_world \<Rightarrow> nat \<Rightarrow> string list" where
  "ref_left w d = (case map_of (positions w) d of Some names \<Rightarrow> names | None \<Rightarrow> [])"

definition ref_fault :: "dir_world \<Rightarrow> nat \<Rightarrow> c_int option" where
  "ref_fault w d = (if bad w = 0 then None else Some (bad w))"

definition ref_streams :: "dir_world \<Rightarrow> nat set" where
  "ref_streams w = fst ` set (positions w)"

interpretation ref_dirs: dir_client ref_dir_ops ref_run "VLFun 0" ref_left ref_fault ref_streams seen visit
proof unfold_locales
  fix name r and L L' :: "('a, dir_world) lua"
  assume "ref_run (VLFun 0) [VStr name] None L = (r, L')"
  then show "visit (seen (world L)) name = (map_sum id (\<lambda>vs. hd (vs @ [VNil])) r, seen (world L'))
      \<and> ref_left (world L') = ref_left (world L) \<and> ref_fault (world L') = ref_fault (world L)
      \<and> ref_streams (world L') = ref_streams (world L)"
    by (cases "visit (seen (world L)) name"; cases "fst (visit (seen (world L)) name)")
       (auto simp: ref_run_def ref_left_def ref_fault_def ref_streams_def fun_eq_iff)
next
  fix d w name names
  assume "d \<in> ref_streams w" "ref_left w d = name # names"
  then have "map_of (positions w) d = Some (name # names)"
    by (auto simp: ref_left_def split: option.splits)
  then show "\<exists>w'. k_readdir ref_dir_ops d w = (w', Inr (Some name)) \<and> ref_left w' d = names
        \<and> ref_fault w' d = ref_fault w d \<and> ref_streams w' = ref_streams w \<and> seen w' = seen w"
    using \<open>d \<in> ref_streams w\<close>
    by (auto simp: ref_dir_ops_def ref_readdir_def ref_left_def ref_fault_def ref_streams_def dom_update update_conv')
next
  fix d w
  assume *: "d \<in> ref_streams w" "ref_left w d = []"
  then have "map_of (positions w) d = Some []"
    by (force simp: ref_left_def ref_streams_def split: option.splits dest: weak_map_of_SomeI)
  then show "\<exists>w'. k_readdir ref_dir_ops d w = (w', case ref_fault w d of None \<Rightarrow> Inr None | Some e \<Rightarrow> Inl e)
        \<and> ref_streams w' = ref_streams w \<and> seen w' = seen w"
    by (simp add: ref_dir_ops_def ref_readdir_def ref_fault_def)
next
  fix d w
  assume "d \<in> ref_streams w"
  then show "\<exists>w'. k_closedir ref_dir_ops d w = (w', Inr ()) \<and> ref_streams w' = ref_streams w - {d}
      \<and> seen w' = seen w"
    using delete_keys [of d "positions w"]
    by (simp add: ref_dir_ops_def ref_closedir_def ref_streams_def flip: set_map set_removeAll)
qed (auto simp: ref_dir_ops_def ref_opendir_def ref_streams_def ref_fault_def split: option.splits if_splits)

section \<open>Termination\<close>

text \<open>
  What makes the loop end: some number goes down with every name a stream gives, and running
  Lua code, whatever it is and however it ends, does not bring it up again.
\<close>

locale finite_streams =
  fixes ops :: "'w dir_ops" and run :: "('u, 'w) runner" and todo :: "'w \<Rightarrow> nat \<Rightarrow> nat"
  assumes read_less: "k_readdir ops d w = (w', Inr (Some name)) \<Longrightarrow> todo w' d < todo w d"
    and run_keeps: "run f args h L = (r, L') \<Longrightarrow> todo (world L') d \<le> todo (world L) d"
begin

lemma pcall_keeps: "lua_pcall run n k m L = (Val b, L') \<Longrightarrow> todo (world L') d \<le> todo (world L) d"
  using run_keeps [of _ _ _ "L\<lparr>stk := [], peak := 0\<rparr>"]
  by (fastforce simp: lua_pcall_def hold_def undef_def Let_def split: if_splits prod.splits sum.splits)

lemma body_keeps:
  assumes "readdir_body ops run d name L = (Val None, L')"
  shows "todo (world L') d \<le> todo (world L) d"
  using assms
  by (auto simp: readdir_body_def c_step stack_ops undef_def split: option.splits prod.splits outcome.splits if_splits
      elim!: bnd_ValE dest!: pcall_keeps [of _ _ _ _ _ _ d])

lemma loop_returns: "readdir_loop ops run d L \<noteq> None"
proof (induction "todo (world L) d" arbitrary: L rule: less_induct)
  case less
  obtain r L1 where s: "sys (k_readdir ops d) L = (Val r, L1)"
    by (cases "k_readdir ops d (world L)"; cases "snd (k_readdir ops d (world L))") (auto simp: sys_def)
  show ?case
  proof (cases "\<exists>name. r = Some (Some name)")
    case False
    then show ?thesis by (auto simp: readdir_loop.simps [of ops run d L] s split: option.splits)
  next
    case True
    then obtain name where r: "r = Some (Some name)" by blast
    with s have "todo (world L1) d < todo (world L) d"
      by (auto simp: sys_def dest: read_less split: prod.splits sum.splits)
    moreover obtain q L2 where b: "readdir_body ops run d name L1 = (q, L2)" by fastforce
    ultimately have "q = Val None \<Longrightarrow> todo (world L2) d < todo (world L) d"
      using body_keeps [of d name L1 L2] by auto
    then have "q = Val None \<Longrightarrow> readdir_loop ops run d L2 \<noteq> None" by (rule less)
    then show ?thesis
      by (auto simp: readdir_loop.simps [of ops run d L] s r b split: outcome.splits option.splits)
  qed
qed

lemma returns: "call_readdir ops run args L \<noteq> None"
  by (auto simp: call_readdir_def readdir_lua_def split: prod.splits outcome.splits option.splits
      elim!: loop_returns [THEN notE])

end

interpretation ref_todo: finite_streams ref_dir_ops ref_run "\<lambda>w d. length (ref_left w d)"
proof
  fix d w w' name
  assume "k_readdir ref_dir_ops d w = (w', Inr (Some name))"
  then show "length (ref_left w' d) < length (ref_left w d)"
    by (auto simp: ref_dir_ops_def ref_readdir_def ref_left_def update_conv' split: option.splits list.splits if_splits)
next
  fix f args h r d and L L' :: "('a, dir_world) lua"
  assume "ref_run f args h L = (r, L')"
  then have "ref_left (world L') d = ref_left (world L) d"
    by (auto simp: ref_run_def ref_left_def split: list.splits lval.splits)
  then show "length (ref_left (world L') d) \<le> length (ref_left (world L) d)" by simp
qed

section \<open>Properties\<close>

definition dir_world0 :: dir_world where
  "dir_world0 = \<lparr>listing = [''d'' \<mapsto> [''.'', ''..'', ''stop'', ''z'']], positions = [], next_dir = 0, bad = 0, seen = []\<rparr>"

text \<open>C4. \<open>readdir\<close> always returns, and implements the walk over the entries: it calls the
callback with each name in turn, and returns the first value other than nil, an error object
made from the first error of the callback, or, when the entries are exhausted, nil or the error
with which reading the directory ended; the callback has acted once on each name up to that
point and on no other, and the directory is closed on every path.\<close>

theorem readdir_walks_entries:
  assumes "dir_client ops run cb left fault streams view act" and "type_of cb = TFunction"
    and "k_opendir ops (c_str p) (world L) = (w, Inr d)"
  shows "case walk act (view (world L)) (left w d) of (res, rest, v) \<Rightarrow>
    \<exists>L'. call_readdir ops run (VStr p # cb # args) L = Some (Val (walked_values (fault w d) res), L')
      \<and> view (world L') = v \<and> streams (world L') = streams (world L)"
  using dir_client.readdir_walk [OF assms] by (auto split: prod.splits)

lemma readdir_walks_entries_witness:
  "\<exists>L'. call_readdir ref_dir_ops ref_run [VStr ''d'', VLFun 0] (lua0 dir_world0 :: (unit, dir_world) lua)
      = Some (Val [VInt 1], L')
    \<and> seen (world L') = [''.'', ''..'', ''stop''] \<and> positions (world L') = []"
proof -
  let ?L = "lua0 dir_world0 :: (unit, dir_world) lua"
  let ?w = "dir_world0\<lparr>positions := [(0, [''.'', ''..'', ''stop'', ''z''])], next_dir := 1\<rparr>"
  have o: "k_opendir ref_dir_ops (c_str ''d'') (world ?L) = (?w, Inr 0)"
    by (simp add: ref_dir_ops_def ref_opendir_def dir_world0_def no_nul_def)
  have w: "walk visit (seen (world ?L)) (ref_left ?w 0) = (Stopped (VInt 1), [''z''], [''.'', ''..'', ''stop''])"
    by (simp add: ref_left_def visit_def dir_world0_def)
  from readdir_walks_entries [OF ref_dirs.dir_client_axioms _ o, of "[]"] w show ?thesis
    by (auto simp: ref_streams_def dir_world0_def)
qed

text \<open>C7. \<open>readdir\<close> returns, whatever its arguments and whatever the callback does (return anything,
fail, change the state), as long as some number goes down with every name that a stream gives
and no Lua code brings it up again.\<close>

theorem readdir_returns:
  assumes "\<And>d w w' name. k_readdir ops d w = (w', Inr (Some name)) \<Longrightarrow> todo w' d < (todo w d :: nat)"
    and "\<And>f args h L d. todo (world (snd (run f args h L))) d \<le> todo (world L) d"
  shows "\<exists>r L'. call_readdir ops run args L = Some (r, L')"
proof -
  have "finite_streams ops run todo"
  proof
    show "todo w' d < todo w d" if "k_readdir ops d w = (w', Inr (Some name))" for d w w' name
      using that by (rule assms(1))
    show "todo (world L') d \<le> todo (world L) d" if "run f args h L = (r, L')" for f args h L r L' d
      using assms(2) [of f args h L d] that by simp
  qed
  from finite_streams.returns [OF this, of args L] show ?thesis by auto
qed

lemma readdir_returns_witness:
  "\<exists>r L'. call_readdir ref_dir_ops ref_run [VStr ''d'', VLFun 7, VNil] (lua0 dir_world0 :: (unit, dir_world) lua) = Some (r, L')"
proof (rule readdir_returns)
  show "length (ref_left w' d) < length (ref_left w d)"
    if "k_readdir ref_dir_ops d w = (w', Inr (Some name))" for d w w' name
    using that by (rule ref_todo.read_less)
  show "length (ref_left (world (snd (ref_run f args h L))) d) \<le> length (ref_left (world L) d)"
    for f args h and L :: "(unit, dir_world) lua" and d
    by (rule ref_todo.run_keeps [OF prod.collapse [symmetric]])
qed

text \<open>C39. The loop leaves one nil on the stack for each entry: after the last of \<open>k\<close> names the stack
holds the two arguments and \<open>k\<close> nils, although Lua only promises room for 20 values.\<close>

theorem readdir_stack_grows:
  assumes "dir_client ops run cb left fault streams view act" and "stk L = [p, cb]" and "errno L = 0"
    and "d \<in> streams (world L)"
    and "walk act (view (world L)) (left (world L) d) = (Exhausted, rest, v)"
  shows "\<exists>L'. readdir_loop ops run d L = Some (Val None, L')
    \<and> length (stk L') = 2 + length (left (world L) d)"
proof -
  have "stk L = [p, cb] @ replicate 0 VNil" using assms(2) by simp
  from dir_client.readdir_loop_walk [OF assms(1) this assms(4,3,5)] show ?thesis by auto
qed

lemma readdir_stack_grows_witness:
  "\<exists>L'. readdir_loop ref_dir_ops ref_run 0 ((lua0 (dir_world0\<lparr>positions := [(0, replicate 100 ''x'')]\<rparr>)
        :: (unit, dir_world) lua)\<lparr>stk := [VStr ''d'', VLFun 0]\<rparr>) = Some (Val None, L')
    \<and> length (stk L') = 102"
proof -
  let ?w = "dir_world0\<lparr>positions := [(0, replicate 100 ''x'')]\<rparr>"
  let ?L = "(lua0 ?w :: (unit, dir_world) lua)\<lparr>stk := [VStr ''d'', VLFun 0]\<rparr>"
  have all: "\<exists>v. walk visit s (replicate n ''x'') = (Exhausted, [], v)" for s n
    by (induction n arbitrary: s) (auto simp: visit_def)
  have l: "ref_left ?w 0 = replicate 100 ''x''" by (simp add: ref_left_def)
  obtain v where "walk visit (seen (world ?L)) (ref_left (world ?L) 0) = (Exhausted, [], v)"
    using all [of "seen ?w" 100] by (simp add: l) blast
  from readdir_stack_grows [OF ref_dirs.dir_client_axioms _ _ _ this] show ?thesis
    by (simp add: l) (simp add: ref_streams_def)
qed

end
