(* ===== verification/Xpcall.thy ===== *)
theory Xpcall
  imports Lua_Api
begin

text \<open>
  The module \<open>testcase.xpcall\<close> (src/xpcall.c): a protected call with a message handler.
  Running Lua code is the parameter \<open>run\<close>.
\<close>

definition xpcall_lua :: "('u, 'w) runner \<Rightarrow> ('u, 'w, nat) comp" where
  "xpcall_lua run =
     bnd (luaL_checktype 1 TFunction) (\<lambda>_.
     bnd (luaL_checktype 2 TFunction) (\<lambda>_.
     bnd (lua_settop 2) (\<lambda>_.
     bnd (lua_insert 1) (\<lambda>_.
     bnd (lua_pcall run 0 0 1) (\<lambda>failed.
       if \<not> failed then returning [lua_pushboolean True] 1
       else returning [lua_pushboolean False, lua_insert 2] 2)))))"

definition luaopen_testcase_xpcall :: "('u, 'w, nat) comp" where
  "luaopen_testcase_xpcall = returning [lua_pushcfunction ''xpcall_lua''] 1"

section \<open>What a call comes to\<close>

lemma xpcall_run:
  assumes "type_of f = TFunction" "type_of h = TFunction"
  shows "call (xpcall_lua run) (f # h # args) L = (case run f [] (Some h) (L\<lparr>stk := [], peak := 0\<rparr>) of
      (Inl e, L') \<Rightarrow> (Val [VBool False, e], L'\<lparr>stk := stk L, peak := peak L\<rparr>)
    | (Inr rs, L') \<Rightarrow> (Val [VBool True], L'\<lparr>stk := stk L, peak := peak L\<rparr>))"
  using assms
  by (auto simp: xpcall_lua_def c_step call_ops stack_ops arg_ops callback_ops settop_list_def Let_def
      split: prod.splits sum.splits)

lemma xpcall_bad_argument:
  assumes "args = [] \<or> type_of (hd args) \<noteq> TFunction \<or> length args < 2 \<or> type_of (args ! 1) \<noteq> TFunction"
  shows "\<exists>i msg. call (xpcall_lua run) args L = (Raise (ArgError i msg), L)"
  using assms
  by (cases args; cases "tl args")
     (auto simp: xpcall_lua_def c_step call_ops stack_ops arg_ops)

section \<open>Properties\<close>

text \<open>C32. \<open>xpcall(f, h, ...)\<close> runs \<open>f\<close> (the first argument, not the second) without arguments and with
\<open>h\<close> as its message handler; it returns just true when the call succeeds, whatever the results,
and false with the error value the handler made of it otherwise; the effects of the call are kept.\<close>

theorem xpcall_calls_protected:
  assumes "type_of f = TFunction" "type_of h = TFunction"
  shows "call (xpcall_lua run) (f # h # args) L = (case run f [] (Some h) (L\<lparr>stk := [], peak := 0\<rparr>) of
      (Inl e, L') \<Rightarrow> (Val [VBool False, e], L'\<lparr>stk := stk L, peak := peak L\<rparr>)
    | (Inr rs, L') \<Rightarrow> (Val [VBool True], L'\<lparr>stk := stk L, peak := peak L\<rparr>))"
  using assms by (rule xpcall_run)

text \<open>A function 1 that fails, and a handler 2 that makes an error object of the error.\<close>

definition failing_run :: "(unit, nat) runner" where
  "failing_run f args h L =
     (if f = VLFun 1 \<and> h = Some (VLFun 2)
      then (Inl (VErr (VStr ''boom'')), L\<lparr>world := Suc (world L)\<rparr>)
      else (Inr [VInt 1, VInt 2], L))"

lemma xpcall_calls_protected_witness:
  "call (xpcall_lua failing_run) [VLFun 1, VLFun 2, VNil] (lua0 0) = (Val [VBool False, VErr (VStr ''boom'')], lua0 1)"
proof -
  have "(lua0 0 :: (unit, nat) lua)\<lparr>stk := [], peak := 0\<rparr> = lua0 0" "(lua0 1 :: (unit, nat) lua)\<lparr>stk := [], peak := 0\<rparr> = lua0 1"
    by (simp_all add: lua0_def)
  then show ?thesis
    using xpcall_calls_protected [of "VLFun 1" "VLFun 2" failing_run "[VNil]" "lua0 0"]
    by (simp add: failing_run_def)
qed

end
