(* ===== verification/Path_Ops.thy ===== *)
theory Path_Ops
  imports Lua_Api
begin

text \<open>
  The modules \<open>testcase.realpath\<close>, \<open>testcase.chdir\<close> and \<open>testcase.getpid\<close>
  (src/realpath.c, src/chdir.c, src/getpid.c).
\<close>

section \<open>The system\<close>

text \<open>
  \<open>k_pathconf\<close> is \<open>pathconf(".", _PC_PATH_MAX)\<close>, which is -1 when there is no limit. A \<open>realpath\<close>
  that fails may have resolved a part of the path already: \<open>k_partial\<close> is the number of bytes it
  has written to its buffer then.
\<close>

record 'w path_ops =
  k_realpath :: "string \<Rightarrow> ('w, string) syscall"
  k_partial :: "string \<Rightarrow> 'w \<Rightarrow> nat"
  k_pathconf :: "'w \<Rightarrow> 'w \<times> i64"
  k_chdir :: "string \<Rightarrow> ('w, unit) syscall"
  k_getpid :: "'w \<Rightarrow> c_int"

definition PATH_MAX :: nat where "PATH_MAX = 4096"

section \<open>realpath\<close>

text \<open>
  The two static variables of the file: the size of the buffer, and the buffer, \<open>None\<close> while
  it is NULL. The buffer is a userdata kept alive by a reference in the registry.
\<close>

record realpath_statics =
  REALPATH_BUFSIZ :: nat
  REALPATH_BUF :: "nat option"

definition realpath_statics0 :: realpath_statics where
  "realpath_statics0 = \<lparr>REALPATH_BUFSIZ = PATH_MAX, REALPATH_BUF = None\<rparr>"

text \<open>
  \<open>realpath\<close> writes the result and its terminating zero into the buffer, or the part it has
  resolved when it fails, whatever the size of the buffer; without a buffer it allocates one.
\<close>

definition realpath_lua :: "realpath_statics \<Rightarrow> 'w path_ops \<Rightarrow> ('u, 'w, nat) comp" where
  "realpath_lua st ops =
     bnd (luaL_checkstring 1) (\<lambda>path.
     bnd (lua_settop 1) (\<lambda>_.
     bnd (\<lambda>L. ret (k_partial ops (c_str path) (world L)) L) (\<lambda>partial.
     bnd (sys (k_realpath ops (c_str path))) (\<lambda>r.
     let written = (case r of Some res \<Rightarrow> length res + 1 | None \<Rightarrow> partial) in
     bnd (if REALPATH_BUF st \<noteq> None \<and> REALPATH_BUFSIZ st < written
          then undef ''buffer overflow'' else ret ()) (\<lambda>_.
     bnd (lua_settop 0) (\<lambda>_. case r of
       Some res \<Rightarrow> returning [lua_pushstring res] 1
     | None \<Rightarrow> returning [lua_pushnil, lua_errno_new ''realpath''] 2))))))"

text \<open>The opener gives the new values of the static variables beside its result.\<close>

definition luaopen_testcase_realpath ::
  "realpath_statics \<Rightarrow> 'w path_ops \<Rightarrow> ('u, 'w, nat \<times> realpath_statics) comp" where
  "luaopen_testcase_realpath st ops = (\<lambda>L. case k_pathconf ops (world L) of
     (w, pathmax) \<Rightarrow>
       let size = (if pathmax \<noteq> - 1 then unat pathmax else REALPATH_BUFSIZ st) in
       bnd lua_newuserdata (\<lambda>p.
       bnd luaL_ref (\<lambda>_.
       bnd (returning [lua_pushcfunction ''realpath_lua''] 1) (\<lambda>n.
         ret (n, \<lparr>REALPATH_BUFSIZ = size, REALPATH_BUF = Some p\<rparr>)))) (L\<lparr>world := w\<rparr>))"

section \<open>chdir and getpid\<close>

definition chdir_lua :: "'w path_ops \<Rightarrow> ('u, 'w, nat) comp" where
  "chdir_lua ops =
     bnd (luaL_checkstring 1) (\<lambda>pathname.
     bnd (sys (k_chdir ops (c_str pathname))) (\<lambda>r.
       if r = Some () then returning [lua_pushboolean True] 1
       else returning [lua_pushboolean False, lua_errno_new ''chdir''] 2))"

definition luaopen_testcase_chdir :: "('u, 'w, nat) comp" where
  "luaopen_testcase_chdir = returning [lua_pushcfunction ''chdir_lua''] 1"

definition getpid_lua :: "'w path_ops \<Rightarrow> ('u, 'w, nat) comp" where
  "getpid_lua ops = (\<lambda>L. returning [lua_pushinteger (widen (k_getpid ops (world L)))] 1 L)"

definition luaopen_testcase_getpid :: "('u, 'w, nat) comp" where
  "luaopen_testcase_getpid = returning [lua_pushcfunction ''getpid_lua''] 1"

section \<open>What the calls come to\<close>

lemma realpath_run:
  assumes "REALPATH_BUF st = None
    \<or> (\<forall>w w' r. k_realpath ops (c_str p) w = (w', Inr r) \<longrightarrow> length r < REALPATH_BUFSIZ st)
      \<and> (\<forall>w. k_partial ops (c_str p) w \<le> REALPATH_BUFSIZ st)"
  shows "call (realpath_lua st ops) (VStr p # args) L = (case k_realpath ops (c_str p) (world L) of
      (w, Inl e) \<Rightarrow> (Val [VNil, VErrno e ''realpath'' None], L\<lparr>world := w, errno := e\<rparr>)
    | (w, Inr r) \<Rightarrow> (Val [VStr r], L\<lparr>world := w\<rparr>))"
proof (cases "k_realpath ops (c_str p) (world L)")
  case (Pair w x)
  show ?thesis
  proof (cases x)
    case (Inl e)
    have "\<not> (REALPATH_BUF st \<noteq> None \<and> REALPATH_BUFSIZ st < k_partial ops (c_str p) (world L))"
      using assms by (auto simp: not_less)
    with Pair Inl show ?thesis
      by (simp add: realpath_lua_def c_step call_ops stack_ops arg_ops settop_list_def sys_def Let_def)
  next
    case (Inr r)
    then have "REALPATH_BUF st = None \<or> length r < REALPATH_BUFSIZ st" using assms Pair by blast
    then have "\<not> (REALPATH_BUF st \<noteq> None \<and> REALPATH_BUFSIZ st < length r + 1)" by auto
    with Pair Inr show ?thesis
      by (simp add: realpath_lua_def c_step call_ops stack_ops arg_ops settop_list_def sys_def Let_def)
  qed
qed

lemma chdir_run:
  "call (chdir_lua ops) (VStr p # args) L = (case k_chdir ops (c_str p) (world L) of
      (w, Inl e) \<Rightarrow> (Val [VBool False, VErrno e ''chdir'' None], L\<lparr>world := w, errno := e\<rparr>)
    | (w, Inr _) \<Rightarrow> (Val [VBool True], L\<lparr>world := w\<rparr>))"
  by (auto simp: chdir_lua_def c_step call_ops stack_ops arg_ops sys_def split: prod.splits sum.splits)

lemma luaopen_realpath_run:
  assumes "k_pathconf ops (world L) = (w, pathmax)"
  shows "luaopen_testcase_realpath st ops L =
    (Val (1, \<lparr>REALPATH_BUFSIZ = (if pathmax = - 1 then REALPATH_BUFSIZ st else unat pathmax),
              REALPATH_BUF = Some (length (uds L))\<rparr>),
     L\<lparr>world := w, stk := stk L @ [VCFun ''realpath_lua'' []], peak := max (peak L) (Suc (length (stk L))),
       uds := uds L @ [\<lparr>meta = None, block = None\<rparr>], regrefs := regrefs L @ [VUd (length (uds L))]\<rparr>)"
  using assms
  by (simp add: luaopen_testcase_realpath_def Let_def c_step stack_ops userdata_ops)

section \<open>Properties\<close>

text \<open>When \<open>pathconf\<close> gives no limit, or one of at least \<open>PATH_MAX\<close>, the buffer the module
allocates when it is opened holds every path \<open>realpath\<close> can produce (less than \<open>PATH_MAX\<close>
bytes): every later call returns the resolved path, or nil and the error, and never writes
past the end.\<close>

theorem realpath_fits:
  assumes "k_pathconf ops (world L) = (w, pathmax)" and "pathmax = - 1 \<or> PATH_MAX \<le> unat pathmax"
    and "\<forall>q v v' r. k_realpath ops q v = (v', Inr r) \<longrightarrow> length r < PATH_MAX"
    and "\<forall>q v. k_partial ops q v \<le> PATH_MAX"
  shows "\<exists>st L1. luaopen_testcase_realpath realpath_statics0 ops L = (Val (1, st), L1) \<and> world L1 = w
    \<and> call (realpath_lua st ops) (VStr p # args) L2 = (case k_realpath ops (c_str p) (world L2) of
          (v, Inl e) \<Rightarrow> (Val [VNil, VErrno e ''realpath'' None], L2\<lparr>world := v, errno := e\<rparr>)
        | (v, Inr r) \<Rightarrow> (Val [VStr r], L2\<lparr>world := v\<rparr>))"
proof -
  let ?n = "if pathmax = - 1 then PATH_MAX else unat pathmax"
  have "PATH_MAX \<le> ?n" using assms(2) by auto
  then have fits: "\<forall>v v' r. k_realpath ops q v = (v', Inr r) \<longrightarrow> length r < ?n" for q
    using assms(3) order_less_le_trans by blast
  have part: "\<forall>v. k_partial ops q v \<le> ?n" for q
    using assms(4) \<open>PATH_MAX \<le> ?n\<close> order_trans by blast
  show ?thesis
    unfolding luaopen_realpath_run [OF assms(1)]
    using realpath_run [of "\<lparr>REALPATH_BUFSIZ = ?n, REALPATH_BUF = Some (length (uds L))\<rparr>" ops p args L2] fits part
    by (cases "pathmax = - 1") (simp_all add: realpath_statics0_def)
qed

text \<open>A system with a limit, on which every path resolves to itself under the working directory.\<close>

definition path_ops_of :: "i64 \<Rightarrow> string path_ops" where
  "path_ops_of n = \<lparr>
     k_realpath = (\<lambda>p cwd. (cwd, let r = cwd @ ''/'' @ p in if length r < PATH_MAX then Inr r else Inl 36)),
     k_partial = (\<lambda>p cwd. min PATH_MAX (length cwd)),
     k_pathconf = (\<lambda>cwd. (cwd, n)),
     k_chdir = (\<lambda>p cwd. (p, Inr ())),
     k_getpid = (\<lambda>_. 100)\<rparr>"

lemma path_ops_realpath:
  "k_realpath (path_ops_of n) (c_str ''x'') (world (lua0 ''/tmp'' :: (unit, string) lua)) = (''/tmp'', Inr ''/tmp/x'')"
  by (simp add: path_ops_of_def Let_def PATH_MAX_def no_nul_def)

lemma realpath_fits_witness:
  "\<exists>st L1. luaopen_testcase_realpath realpath_statics0 (path_ops_of 4096) (lua0 ''/tmp'' :: (unit, string) lua) = (Val (1, st), L1)
    \<and> call (realpath_lua st (path_ops_of 4096)) [VStr ''x''] (lua0 ''/tmp'' :: (unit, string) lua)
      = (Val [VStr ''/tmp/x''], lua0 ''/tmp'')"
proof -
  have a: "k_pathconf (path_ops_of 4096) (world (lua0 ''/tmp'' :: (unit, string) lua)) = (''/tmp'', 4096)"
    by (simp add: path_ops_of_def)
  have b: "(4096 :: i64) = - 1 \<or> PATH_MAX \<le> unat (4096 :: i64)" by (simp add: PATH_MAX_def)
  have c: "\<forall>q v v' r. k_realpath (path_ops_of 4096) q v = (v', Inr r) \<longrightarrow> length r < PATH_MAX"
    by (auto simp: path_ops_of_def Let_def split: if_splits)
  have d: "\<forall>q v. k_partial (path_ops_of 4096) q v \<le> PATH_MAX" by (simp add: path_ops_of_def)
  from realpath_fits [OF a b c d, where p = "''x''" and args = "[]" and ?L2.0 = "lua0 ''/tmp'' :: (unit, string) lua"]
  show ?thesis unfolding path_ops_realpath by auto
qed

text \<open>A smaller \<open>pathconf\<close> limit is taken as the size of the buffer although \<open>realpath\<close> does not
know that size: a longer path is written past the end of the buffer.\<close>

theorem realpath_overflow:
  assumes "k_pathconf ops (world L) = (w, pathmax)" and "pathmax \<noteq> - 1"
    and "k_realpath ops (c_str p) (world L2) = (v, Inr r)" and "unat pathmax \<le> length r"
  shows "\<exists>st L1. luaopen_testcase_realpath realpath_statics0 ops L = (Val (1, st), L1)
    \<and> (\<exists>L3. call (realpath_lua st ops) (VStr p # args) L2 = (Undef ''buffer overflow'', L3))"
  unfolding luaopen_realpath_run [OF assms(1)]
  using assms(2-4)
  by (simp add: realpath_lua_def c_step call_ops stack_ops arg_ops settop_list_def sys_def Let_def)

lemma realpath_overflow_witness:
  "\<exists>st L1 L3. luaopen_testcase_realpath realpath_statics0 (path_ops_of 4) (lua0 ''/tmp'' :: (unit, string) lua) = (Val (1, st), L1)
    \<and> call (realpath_lua st (path_ops_of 4)) [VStr ''x''] (lua0 ''/tmp'' :: (unit, string) lua)
      = (Undef ''buffer overflow'', L3)"
proof -
  have a: "k_pathconf (path_ops_of 4) (world (lua0 ''/tmp'' :: (unit, string) lua)) = (''/tmp'', 4)"
    by (simp add: path_ops_of_def)
  from realpath_overflow [OF a _ path_ops_realpath, of "[]"] show ?thesis by simp
qed

text \<open>C34. The buffer that the module makes when it is opened is exactly as large as \<open>pathconf\<close> says, or
\<open>PATH_MAX\<close> when there is no limit: every later call returns nil and the error of the system, or
the resolved path, when what \<open>realpath\<close> writes (the path and its terminating zero, or the part it
has resolved before it fails) fits into that size, and otherwise writes past the end of the buffer.\<close>

theorem realpath_buffer:
  assumes "k_pathconf ops (world L) = (w, pathmax)"
  shows "\<exists>st L1. luaopen_testcase_realpath realpath_statics0 ops L = (Val (1, st), L1) \<and> world L1 = w
    \<and> (case k_realpath ops (c_str p) (world L2) of
          (v, Inl e) \<Rightarrow>
            if k_partial ops (c_str p) (world L2) \<le> (if pathmax = - 1 then PATH_MAX else unat pathmax)
            then call (realpath_lua st ops) (VStr p # args) L2
              = (Val [VNil, VErrno e ''realpath'' None], L2\<lparr>world := v, errno := e\<rparr>)
            else fst (call (realpath_lua st ops) (VStr p # args) L2) = Undef ''buffer overflow''
        | (v, Inr r) \<Rightarrow>
            if length r < (if pathmax = - 1 then PATH_MAX else unat pathmax)
            then call (realpath_lua st ops) (VStr p # args) L2 = (Val [VStr r], L2\<lparr>world := v\<rparr>)
            else fst (call (realpath_lua st ops) (VStr p # args) L2) = Undef ''buffer overflow'')"
  unfolding luaopen_realpath_run [OF assms]
  by (auto simp: realpath_lua_def realpath_statics0_def c_step call_ops stack_ops arg_ops settop_list_def sys_def Let_def
      split: prod.split sum.split)

text \<open>A path of 6 bytes fits a limit of 7, which has room for its zero, but not one of 6.\<close>

lemma realpath_buffer_witness:
  "(\<exists>st L1. luaopen_testcase_realpath realpath_statics0 (path_ops_of 7) (lua0 ''/tmp'' :: (unit, string) lua) = (Val (1, st), L1)
    \<and> call (realpath_lua st (path_ops_of 7)) [VStr ''x''] (lua0 ''/tmp'' :: (unit, string) lua)
      = (Val [VStr ''/tmp/x''], lua0 ''/tmp''))
   \<and> (\<exists>st L1. luaopen_testcase_realpath realpath_statics0 (path_ops_of 6) (lua0 ''/tmp'' :: (unit, string) lua) = (Val (1, st), L1)
    \<and> fst (call (realpath_lua st (path_ops_of 6)) [VStr ''x''] (lua0 ''/tmp'' :: (unit, string) lua))
      = Undef ''buffer overflow'')"
proof -
  have a: "k_pathconf (path_ops_of n) (world (lua0 ''/tmp'' :: (unit, string) lua)) = (''/tmp'', n)" for n
    by (simp add: path_ops_of_def)
  note b = realpath_buffer [OF a, where p = "''x''" and args = "[]" and ?L2.0 = "lua0 ''/tmp'' :: (unit, string) lua",
      unfolded path_ops_realpath]
  from b [of 7] b [of 6] show ?thesis by auto
qed

end
