(* ===== verification/Fd_Ops.thy ===== *)
theory Fd_Ops
  imports Lua_Api
begin

text \<open>
  The modules \<open>testcase.close\<close> and \<open>testcase.shutdown\<close> (src/close.c, src/shutdown.c),
  which take a descriptor as a number or as a Lua file.
\<close>

section \<open>Lua files and the system\<close>

text \<open>
  \<open>luaL_Stream\<close> of Lua 5.2 and later: the \<open>FILE *\<close> (here an address, \<open>None\<close> for NULL) and the
  function that closes it, which is NULL once Lua has closed the file. \<open>k_fileno\<close> gives the
  descriptor of a \<open>FILE\<close> that exists; using one that was freed is undefined.
\<close>

record luaL_Stream =
  stream_f :: "nat option"
  closef :: "string option"

record 'w fd_ops =
  k_fileno :: "nat \<Rightarrow> 'w \<Rightarrow> c_int option"
  k_fd_close :: "c_int \<Rightarrow> ('w, unit) syscall"
  k_fd_shutdown :: "c_int \<Rightarrow> c_int \<Rightarrow> ('w, unit) syscall"

definition LUA_FILEHANDLE :: string where
  "LUA_FILEHANDLE = ''FILE*''"

section \<open>The functions\<close>

definition fileno :: "'w fd_ops \<Rightarrow> nat \<Rightarrow> ('u, 'w, c_int) comp" where
  "fileno ops a = (\<lambda>L. case k_fileno ops a (world L) of
       Some fd \<Rightarrow> ret fd L
     | None \<Rightarrow> undef ''dangling FILE pointer'' L)"

text \<open>\<open>checkfilep\<close>, as it is compiled for Lua 5.2 and later.\<close>

definition checkfilep :: "int \<Rightarrow> (luaL_Stream, 'w, nat) comp" where
  "checkfilep idx = luaL_checkudata idx LUA_FILEHANDLE"

text \<open>The descriptor the first argument denotes: the same code in both files.\<close>

definition check_fd :: "'w fd_ops \<Rightarrow> (luaL_Stream, 'w, c_int) comp" where
  "check_fd ops =
     bnd (lua_isnumber 1) (\<lambda>isnum.
       if isnum then bnd (luaL_checkinteger 1) (\<lambda>v. ret (narrow v))
       else bnd (checkfilep 1) (\<lambda>p.
         bnd (load p) (\<lambda>stream. case stream_f stream of
           Some a \<Rightarrow> fileno ops a
         | None \<Rightarrow> ret (- 1))))"

definition fd_close_lua :: "'w fd_ops \<Rightarrow> (luaL_Stream, 'w, nat) comp" where
  "fd_close_lua ops =
     bnd (check_fd ops) (\<lambda>fd.
     bnd (sys (k_fd_close ops fd)) (\<lambda>r.
       if r = Some () then returning [lua_pushboolean True] 1
       else returning [lua_pushboolean False, lua_errno_new ''close''] 2))"

definition shutdown_options :: "string list" where
  "shutdown_options = [''rd'', ''wr'', ''rdwr'']"

text \<open>\<open>SHUT_RD\<close> is 0, \<open>SHUT_WR\<close> 1 and \<open>SHUT_RDWR\<close> 2.\<close>

definition how_of :: "nat \<Rightarrow> c_int" where
  "how_of opt = (if opt = 0 then 0 else if opt = 1 then 1 else 2)"

definition fd_shutdown_lua :: "'w fd_ops \<Rightarrow> (luaL_Stream, 'w, nat) comp" where
  "fd_shutdown_lua ops =
     bnd (check_fd ops) (\<lambda>fd.
     bnd (luaL_checkoption 2 (Some ''rdwr'') shutdown_options) (\<lambda>opt. let how = how_of opt in
     bnd (sys (k_fd_shutdown ops fd how)) (\<lambda>r.
       if r = Some () then returning [lua_pushboolean True] 1
       else returning [lua_pushboolean False, lua_errno_new ''shutdown''] 2)))"

definition luaopen_testcase_close :: "('u, 'w, nat) comp" where
  "luaopen_testcase_close = returning [lua_pushcfunction ''close_lua''] 1"

definition luaopen_testcase_shutdown :: "('u, 'w, nat) comp" where
  "luaopen_testcase_shutdown = returning [lua_pushcfunction ''shutdown_lua''] 1"

section \<open>The descriptor of an argument\<close>

text \<open>
  What the first argument denotes: a number narrowed to \<open>int\<close>, the descriptor of a Lua file
  whose \<open>FILE\<close> exists, -1 for a file without one.
\<close>

fun denotes :: "'w fd_ops \<Rightarrow> (luaL_Stream, 'w) lua \<Rightarrow> lval \<Rightarrow> c_int \<Rightarrow> bool" where
  "denotes ops L (VInt n) fd = (fd = narrow n)"
| "denotes ops L (VUd p) fd = (\<exists>s. object_at L p LUA_FILEHANDLE s \<and>
     (case stream_f s of Some a \<Rightarrow> k_fileno ops a (world L) = Some fd | None \<Rightarrow> fd = - 1))"
| "denotes ops L _ fd = False"

fun_cases denotesE: "denotes ops L v fd"

lemma check_fd_denotes [c_body]:
  assumes "denotes ops L v fd" "stk L = v # args"
  shows "check_fd ops L = (Val fd, L)"
  using assms
  by (cases v) (auto simp: check_fd_def checkfilep_def fileno_def c_step c_body arg_ops split: option.splits)

lemma denotes_frame [simp]:
  "denotes ops (L\<lparr>stk := s\<rparr>) v fd \<longleftrightarrow> denotes ops L v fd" "denotes ops (L\<lparr>peak := k\<rparr>) v fd \<longleftrightarrow> denotes ops L v fd"
  by (cases v; auto split: option.splits)+

lemma fd_close_run:
  assumes "denotes ops L v fd"
  shows "call (fd_close_lua ops) (v # args) L = (case k_fd_close ops fd (world L) of
      (w, Inl e) \<Rightarrow> (Val [VBool False, VErrno e ''close'' None], L\<lparr>world := w, errno := e\<rparr>)
    | (w, Inr _) \<Rightarrow> (Val [VBool True], L\<lparr>world := w\<rparr>))"
  using assms
  by (auto simp: fd_close_lua_def c_step c_body call_ops stack_ops sys_def split: prod.splits sum.splits)

text \<open>The second argument of \<open>shutdown\<close>, when it is valid.\<close>

definition how_arg :: "lval list \<Rightarrow> c_int option" where
  "how_arg args = (case args of
       [] \<Rightarrow> Some 2
     | VNil # _ \<Rightarrow> Some 2
     | VStr s # _ \<Rightarrow> map_option how_of (index_of (c_str s) shutdown_options)
     | _ \<Rightarrow> None)"

lemma fd_shutdown_run:
  assumes "denotes ops L v fd" "how_arg args = Some how"
  shows "call (fd_shutdown_lua ops) (v # args) L = (case k_fd_shutdown ops fd how (world L) of
      (w, Inl e) \<Rightarrow> (Val [VBool False, VErrno e ''shutdown'' None], L\<lparr>world := w, errno := e\<rparr>)
    | (w, Inr _) \<Rightarrow> (Val [VBool True], L\<lparr>world := w\<rparr>))"
proof -
  have opt: "luaL_checkoption 2 (Some ''rdwr'') shutdown_options (L\<lparr>stk := v # args, peak := Suc (length args)\<rparr>)
      = (Val opt, L\<lparr>stk := v # args, peak := Suc (length args)\<rparr>)"
    if "how = how_of opt" "args = [] \<and> opt = 2 \<or> hd args = VNil \<and> args \<noteq> [] \<and> opt = 2
      \<or> (\<exists>s. hd args = VStr s \<and> args \<noteq> [] \<and> index_of (c_str s) shutdown_options = Some opt)" for opt
    using that
    by (cases args) (auto simp: arg_ops c_step shutdown_options_def c_str_def)
  obtain opt where "how = how_of opt"
    "luaL_checkoption 2 (Some ''rdwr'') shutdown_options (L\<lparr>stk := v # args, peak := Suc (length args)\<rparr>) = (Val opt, L\<lparr>stk := v # args, peak := Suc (length args)\<rparr>)"
  proof -
    from assms(2) obtain opt where "how = how_of opt" "args = [] \<and> opt = 2 \<or> hd args = VNil \<and> args \<noteq> [] \<and> opt = 2
      \<or> (\<exists>s. hd args = VStr s \<and> args \<noteq> [] \<and> index_of (c_str s) shutdown_options = Some opt)"
      by (auto simp: how_arg_def how_of_def split: list.splits lval.splits)
    with opt that show ?thesis by blast
  qed
  with assms(1) show ?thesis
    by (auto simp: fd_shutdown_lua_def Let_def c_step c_body call_ops stack_ops sys_def
        split: prod.splits sum.splits)
qed

section \<open>Properties\<close>


text \<open>A system that records the calls; the file at address 5 has descriptor 7, no other exists.\<close>

definition log_ops :: "(c_int \<times> c_int) list fd_ops" where
  "log_ops = \<lparr>
     k_fileno = (\<lambda>a w. if a = 5 then Some 7 else None),
     k_fd_close = (\<lambda>fd w. (w @ [(fd, - 1)], if sint fd < 0 then Inl EBADF else Inr ())),
     k_fd_shutdown = (\<lambda>fd how w. (w @ [(fd, how)], if sint fd < 0 then Inl EBADF else Inr ()))\<rparr>"


text \<open>C40. The two functions look at the \<open>FILE *\<close> of a Lua file but not at whether Lua has closed it:
for a file that was closed, whose \<open>FILE\<close> is gone, they use the dangling pointer.\<close>

theorem fd_closed_file_dangles:
  assumes "object_at L p LUA_FILEHANDLE \<lparr>stream_f = Some a, closef = None\<rparr>" and "k_fileno ops a (world L) = None"
  shows "\<exists>L'. call (fd_close_lua ops) [VUd p] L = (Undef ''dangling FILE pointer'', L')
    \<and> call (fd_shutdown_lua ops) (VUd p # args) L = (Undef ''dangling FILE pointer'', L')"
  using assms
  by (simp add: fd_close_lua_def fd_shutdown_lua_def check_fd_def checkfilep_def fileno_def c_step c_body call_ops arg_ops)

lemma fd_closed_file_dangles_witness:
  "\<exists>L'. call (fd_close_lua log_ops) [VUd 0] (lua_with LUA_FILEHANDLE \<lparr>stream_f = Some 6, closef = None\<rparr> [])
    = (Undef ''dangling FILE pointer'', L')"
  using fd_closed_file_dangles [OF lua_with_object, of log_ops 6 "[]" "[]"] by (auto simp: log_ops_def)

end
