(* ===== verification/Object_Modules.thy ===== *)
theory Object_Modules
  imports Process Timer Socketpair
begin

text \<open>
  The three modules that make objects (src/fork.c, src/timer.c, src/socketpair.c): what their
  openers register, and which C function a method call on one of their objects reaches.
\<close>

section \<open>Method lookup\<close>

text \<open>
  \<open>obj:name\<close> looks the name up in the \<open>__index\<close> table of the metatable of the userdata, a
  metamethod is looked up in the metatable itself.
\<close>

definition obj_method :: "('u, 'w) lua \<Rightarrow> nat \<Rightarrow> string \<Rightarrow> lval" where
  "obj_method L p name = (case meta (uds L ! p) of
       None \<Rightarrow> VNil
     | Some a \<Rightarrow> (case tget (tabs L ! a) (VStr ''__index'') of
           VTab i \<Rightarrow> tget (tabs L ! i) (VStr name)
         | _ \<Rightarrow> VNil))"

definition obj_metamethod :: "('u, 'w) lua \<Rightarrow> nat \<Rightarrow> string \<Rightarrow> lval" where
  "obj_metamethod L p name = (case meta (uds L ! p) of
       None \<Rightarrow> VNil
     | Some a \<Rightarrow> tget (tabs L ! a) (VStr name))"

definition function_in :: "(string \<times> string) list \<Rightarrow> string \<Rightarrow> lval" where
  "function_in regs name = (case map_of regs name of Some f \<Rightarrow> VCFun f [] | None \<Rightarrow> VNil)"

section \<open>Classes\<close>

text \<open>Each class registers a method under its name the C function \<open>name_lua\<close>, and likewise its metamethods.\<close>

definition named_funcs :: "string set \<Rightarrow> nat \<Rightarrow> (string \<times> string) list \<Rightarrow> bool" where
  "named_funcs names n regs \<longleftrightarrow> distinct (map fst regs) \<and> fst ` set regs = names
     \<and> (\<forall>(name, f) \<in> set regs. f = drop n name @ ''_lua'')"

lemma function_in_named:
  assumes "named_funcs names n regs"
  shows "function_in regs name = (if name \<in> names then VCFun (drop n name @ ''_lua'') [] else VNil)"
proof (cases "map_of regs name")
  case None
  then have "name \<notin> names" using assms by (simp add: named_funcs_def map_of_eq_None_iff)
  with None show ?thesis by (simp add: function_in_def)
next
  case (Some f)
  then have f: "(name, f) \<in> set regs" by (rule map_of_SomeD)
  then have "name \<in> fst ` set regs" by force
  with f assms Some show ?thesis by (auto simp: named_funcs_def function_in_def)
qed

lemma class_functions:
  "named_funcs {''pid'', ''is_child'', ''wait''} 0 proc_methods"
  "named_funcs {''__gc'', ''__tostring''} 2 proc_mmethods"
  "named_funcs {''reset'', ''total'', ''start'', ''stop'', ''elapsed'', ''elapsed_sec''} 0 timer_methods"
  "named_funcs {''__tostring''} 2 timer_mmethods"
  "named_funcs {''fd'', ''nonblock'', ''recvbuf'', ''sendbuf'', ''close'', ''shutdown'', ''shutrd'', ''shutwr'',
     ''read'', ''write''} 0 sock_methods"
  "named_funcs {''__gc'', ''__tostring''} 2 sock_mmethods"
  by (simp_all add: named_funcs_def proc_methods_def proc_mmethods_def timer_methods_def timer_mmethods_def
      sock_methods_def sock_mmethods_def)

text \<open>
  A class is open when its metatable is registered, answers the metamethods and has a table of
  the methods, and of nothing else, behind \<open>__index\<close>.
\<close>

definition serves :: "string \<Rightarrow> string set \<Rightarrow> string set \<Rightarrow> ('u, 'w) lua \<Rightarrow> bool" where
  "serves mt names mnames L \<longleftrightarrow> (\<exists>a i. map_of (registry L) mt = Some a
     \<and> a < length (tabs L) \<and> i < length (tabs L)
     \<and> tget (tabs L ! a) (VStr ''__index'') = VTab i
     \<and> (\<forall>name. tget (tabs L ! i) (VStr name) = (if name \<in> names then VCFun (name @ ''_lua'') [] else VNil))
     \<and> (\<forall>name \<in> mnames. tget (tabs L ! a) (VStr name) = VCFun (drop 2 name @ ''_lua'') []))"

lemma serves_append:
  assumes "serves mt names mnames L" "tabs L' = tabs L @ ts" "registry L' = registry L"
  shows "serves mt names mnames L'"
proof -
  from assms(1) obtain a i where "map_of (registry L) mt = Some a" "a < length (tabs L)" "i < length (tabs L)"
    "tget (tabs L ! a) (VStr ''__index'') = VTab i"
    "\<forall>name. tget (tabs L ! i) (VStr name) = (if name \<in> names then VCFun (name @ ''_lua'') [] else VNil)"
    "\<forall>name \<in> mnames. tget (tabs L ! a) (VStr name) = VCFun (drop 2 name @ ''_lua'') []"
    unfolding serves_def by blast
  with assms(2,3) show ?thesis unfolding serves_def by (intro exI [of _ a] exI [of _ i]) (simp add: nth_append)
qed

lemma serves_objects:
  assumes "serves mt names mnames L" "map_of (registry L2) mt = map_of (registry L) mt"
    and "take (length (tabs L)) (tabs L2) = tabs L" "has_meta L2 p mt"
  shows "obj_method L2 p name = (if name \<in> names then VCFun (name @ ''_lua'') [] else VNil)
    \<and> (name \<in> mnames \<longrightarrow> obj_metamethod L2 p name = VCFun (drop 2 name @ ''_lua'') [])"
proof -
  have nth: "tabs L2 ! q = tabs L ! q" if "q < length (tabs L)" for q
    using that assms(3) by (metis nth_take)
  with assms(1,2,4) show ?thesis
    by (auto simp: serves_def obj_method_def obj_metamethod_def has_meta_def)
qed

text \<open>
  What filling a registered metatable leaves: the metamethods over whatever it held, and
  a table of the methods behind \<open>__index\<close>; no userdata, and nothing of the system, is touched.
\<close>

definition class_filled :: "string \<Rightarrow> (string \<times> string) list \<Rightarrow> (string \<times> string) list
    \<Rightarrow> ('u, 'w) lua \<Rightarrow> bool" where
  "class_filled mt mms ms L \<longleftrightarrow> (\<exists>a i t. map_of (registry L) mt = Some a
     \<and> a < length (tabs L) \<and> i < length (tabs L)
     \<and> tabs L ! a = tset (reg_table mms t) (VStr ''__index'') (VTab i) \<and> tabs L ! i = reg_table ms [])"

lemma tget_named:
  assumes "named_funcs names n regs"
  shows "tget (reg_table regs t) (VStr name)
    = (if name \<in> names then VCFun (drop n name @ ''_lua'') [] else tget t (VStr name))"
proof -
  have "map_of (rev regs) = map_of regs"
    using assms by (intro map_of_eqI) (auto simp: rev_map [symmetric] map_of_eq_Some_iff named_funcs_def)
  with function_in_named [OF assms, of name] show ?thesis
    by (auto simp: tget_reg_table function_in_def split: option.splits if_splits)
qed

lemma class_filled_serves:
  assumes "class_filled mt mms ms L" "named_funcs names 0 ms" "named_funcs mnames 2 mms" "''__index'' \<notin> mnames"
  shows "serves mt names mnames L"
proof -
  from assms(1) obtain a i t where a: "map_of (registry L) mt = Some a" "a < length (tabs L)" "i < length (tabs L)"
    "tabs L ! a = tset (reg_table mms t) (VStr ''__index'') (VTab i)" "tabs L ! i = reg_table ms []"
    unfolding class_filled_def by blast
  have "tget (tabs L ! i) (VStr name) = (if name \<in> names then VCFun (name @ ''_lua'') [] else VNil)" for name
    by (simp add: a tget_named [OF assms(2)])
  moreover have "tget (tabs L ! a) (VStr name) = VCFun (drop 2 name @ ''_lua'') []" if "name \<in> mnames" for name
    using that assms(4) by (auto simp: a tget_named [OF assms(3)])
  ultimately show ?thesis using a unfolding serves_def by (intro exI [of _ a] exI [of _ i]) simp
qed

section \<open>The openers\<close>

text \<open>
  What an opener does to the Lua state: a class that was not open is filled, in new tables;
  a class that was open is left alone, but for that of \<open>testcase.fork\<close>, whose registered
  metatable is filled again.
\<close>

definition opened :: "string \<Rightarrow> (string \<times> string) list \<Rightarrow> (string \<times> string) list
    \<Rightarrow> ('u, 'w) lua \<Rightarrow> ('u, 'w) lua \<Rightarrow> bool" where
  "opened mt mms ms L L' \<longleftrightarrow> uds L' = uds L \<and> world L' = world L \<and> (case map_of (registry L) mt of
       None \<Rightarrow> class_filled mt mms ms L' \<and> registry L' = (mt, length (tabs L)) # registry L
         \<and> take (length (tabs L)) (tabs L') = tabs L
     | Some a \<Rightarrow> registry L' = registry L \<and> (if mt = PROC_MT
         then class_filled mt mms ms L' \<and> (\<exists>t. take (length (tabs L)) (tabs L') = (tabs L)[a := t])
         else (\<exists>ts. tabs L' = tabs L @ ts)))"

lemma fork_opened:
  assumes "\<And>a. map_of (registry L) PROC_MT = Some a \<Longrightarrow> a < length (tabs L)"
  shows "\<exists>L'. call luaopen_testcase_fork [] L = (Val [VCFun ''fork_lua'' []], L')
    \<and> opened PROC_MT proc_mmethods proc_methods L L'"
proof (cases "map_of (registry L) PROC_MT")
  case None
  have f: "class_filled PROC_MT proc_mmethods proc_methods L'"
    if "map_of (registry L') PROC_MT = Some (length (tabs L))" "tabs L' = tabs L @
      [tset (reg_table proc_mmethods [(VStr ''__name'', VStr PROC_MT)]) (VStr ''__index'') (VTab (Suc (length (tabs L)))),
        reg_table proc_methods []]" for L'
    using that unfolding class_filled_def
    by (intro exI [of _ "length (tabs L)"] exI [of _ "Suc (length (tabs L))"] exI [of _ "[(VStr ''__name'', VStr PROC_MT)]"])
      (simp add: nth_append)
  show ?thesis
    using None
    by (simp add: luaopen_testcase_fork_def c_step call_ops stack_ops table_ops userdata_ops opened_def
      reg_rawset_run [of _ "[]"] reg_rawset_run [of _ "[a, b]" for a b] slot_def settop_list_def nth_append list_update_append f)
next
  case (Some a)
  with assms have a: "a < length (tabs L)" by simp
  have f: "class_filled PROC_MT proc_mmethods proc_methods L'"
    if "map_of (registry L') PROC_MT = Some a" "tabs L' = (tabs L)[a :=
      tset (reg_table proc_mmethods (tabs L ! a)) (VStr ''__index'') (VTab (length (tabs L)))] @
      [reg_table proc_methods []]" for L'
    using that a unfolding class_filled_def
    by (intro exI [of _ a] exI [of _ "length (tabs L)"] exI [of _ "tabs L ! a"]) (simp add: nth_append)
  show ?thesis
    using Some a
    by (simp add: luaopen_testcase_fork_def c_step call_ops stack_ops table_ops userdata_ops opened_def
      reg_rawset_run [of _ "[]"] reg_rawset_run [of _ "[a, b]" for a b] slot_def settop_list_def nth_append list_update_append f)
      blast
qed

lemma socketpair_opened:
  "\<exists>L'. call luaopen_testcase_socketpair [] L = (Val [VCFun ''new_lua'' []], L')
    \<and> opened MODULE_MT sock_mmethods sock_methods L L'"
proof (cases "map_of (registry L) MODULE_MT")
  case None
  have f: "class_filled MODULE_MT sock_mmethods sock_methods L'"
    if "map_of (registry L') MODULE_MT = Some (length (tabs L))" "tabs L' = tabs L @
      [tset (reg_table sock_mmethods [(VStr ''__name'', VStr MODULE_MT)]) (VStr ''__index'') (VTab (Suc (length (tabs L)))),
        reg_table sock_methods []]" for L'
    using that unfolding class_filled_def
    by (intro exI [of _ "length (tabs L)"] exI [of _ "Suc (length (tabs L))"] exI [of _ "[(VStr ''__name'', VStr MODULE_MT)]"])
      (simp add: nth_append)
  show ?thesis
    using None
    by (simp add: luaopen_testcase_socketpair_def c_step call_ops stack_ops table_ops userdata_ops opened_def
      reg_setfield_run [of _ "[]"] reg_setfield_run [of _ "[a]" for a] settop_list_def nth_append list_update_append f)
next
  case (Some a)
  then show ?thesis
    by (simp add: luaopen_testcase_socketpair_def c_step call_ops stack_ops userdata_ops opened_def settop_list_def
      MODULE_MT_def PROC_MT_def)
qed

lemma timer_opened:
  "\<exists>r L'. call luaopen_testcase_timer [] L = (Val [r], L')
    \<and> opened TESTCASE_TIMER_MT timer_mmethods timer_methods L L'"
proof (cases "map_of (registry L) TESTCASE_TIMER_MT")
  case None
  have f: "class_filled TESTCASE_TIMER_MT timer_mmethods timer_methods L'"
    if "map_of (registry L') TESTCASE_TIMER_MT = Some (length (tabs L))" "tabs L' = tabs L @
      [tset (reg_table timer_mmethods [(VStr ''__name'', VStr TESTCASE_TIMER_MT)]) (VStr ''__index'') (VTab (Suc (length (tabs L)))),
        reg_table timer_methods [], t]" for L' t
    using that unfolding class_filled_def
    by (intro exI [of _ "length (tabs L)"] exI [of _ "Suc (length (tabs L))"] exI [of _ "[(VStr ''__name'', VStr TESTCASE_TIMER_MT)]"])
      (simp add: nth_append)
  show ?thesis
    using None
    by (simp add: luaopen_testcase_timer_def c_step call_ops stack_ops table_ops userdata_ops opened_def
      reg_rawset_run [of _ "[]"] reg_rawset_run [of _ "[a, b]" for a b] slot_def settop_list_def nth_append list_update_append f)
next
  case (Some a)
  then show ?thesis
    by (simp add: luaopen_testcase_timer_def c_step call_ops stack_ops table_ops userdata_ops opened_def
      slot_def settop_list_def nth_append list_update_append TESTCASE_TIMER_MT_def PROC_MT_def)
qed

text \<open>An opener keeps a class open, and opens one that is not.\<close>

lemma opened_serves:
  assumes "opened mt mms ms L L'" "map_of (registry L) mt = None \<or> serves mt names mnames L"
    and "named_funcs names 0 ms" "named_funcs mnames 2 mms" "''__index'' \<notin> mnames"
  shows "serves mt names mnames L'"
  using assms(1,2) class_filled_serves [OF _ assms(3-5)] serves_append [of mt names mnames L L']
  by (auto simp: opened_def split: option.splits if_splits)

lemma opened_tables:
  assumes "opened mt mms ms L L'" "q < length (tabs L)" "tabs L' ! q \<noteq> tabs L ! q"
  shows "mt = PROC_MT \<and> map_of (registry L) mt = Some q"
proof -
  have nth: "tabs L' ! q = xs ! q" if "take (length (tabs L)) (tabs L') = xs" for xs
    using that assms(2) by (metis nth_take)
  show ?thesis
  proof (cases "map_of (registry L) mt")
    case None
    with assms(1) have "take (length (tabs L)) (tabs L') = tabs L" by (simp add: opened_def)
    with nth assms(3) show ?thesis by blast
  next
    case (Some a)
    with assms(1) obtain t where "take (length (tabs L)) (tabs L') = (if mt = PROC_MT then (tabs L)[a := t] else tabs L)"
      by (auto simp: opened_def split: if_splits)
    from nth [OF this] assms(3) Some show ?thesis
      by (cases "mt = PROC_MT"; cases "a = q") simp_all
  qed
qed

section \<open>Properties\<close>

text \<open>C29. Opening \<open>testcase.fork\<close>, \<open>testcase.timer\<close> or \<open>testcase.socketpair\<close>, for the first time or
again, touches no object and nothing of the system, registers the class once, and from then on every object of the class,
made before or after and in whatever state, answers each of its methods \<open>m\<close> with the C function
\<open>m_lua\<close> (a metamethod \<open>__m\<close> likewise), and no other name. No table that was there is changed, except
that opening \<open>testcase.fork\<close> again rewrites the metatable registered for its class. A class that was
opened before must still be open: a script can break a metatable by hand.\<close>

theorem object_methods_dispatch:
  fixes L :: "('u, 'w) lua"
  assumes "(opener, mt, names, mnames) \<in> {(luaopen_testcase_fork, PROC_MT, {''pid'', ''is_child'', ''wait''}, {''__gc'', ''__tostring''}),
      (luaopen_testcase_timer, TESTCASE_TIMER_MT,
       {''reset'', ''total'', ''start'', ''stop'', ''elapsed'', ''elapsed_sec''}, {''__tostring''}),
      (luaopen_testcase_socketpair, MODULE_MT,
       {''fd'', ''nonblock'', ''recvbuf'', ''sendbuf'', ''close'', ''shutdown'', ''shutrd'', ''shutwr'',
        ''read'', ''write''}, {''__gc'', ''__tostring''})}"
    and "map_of (registry L) mt = None \<or> serves mt names mnames L"
  shows "\<exists>r L'. call opener [] L = (Val [r], L') \<and> world L' = world L \<and> uds L' = uds L
    \<and> (\<forall>q < length (tabs L). tabs L' ! q \<noteq> tabs L ! q \<longrightarrow> mt = PROC_MT \<and> map_of (registry L) mt = Some q)
    \<and> registry L' = (if map_of (registry L) mt = None then [(mt, length (tabs L))] else []) @ registry L
    \<and> serves mt names mnames L'
    \<and> (\<forall>(L2 :: ('u, 'w) lua) p name. map_of (registry L2) mt = map_of (registry L') mt \<longrightarrow>
         take (length (tabs L')) (tabs L2) = tabs L' \<longrightarrow> has_meta L2 p mt \<longrightarrow>
           obj_method L2 p name = (if name \<in> names then VCFun (name @ ''_lua'') [] else VNil)
         \<and> (name \<in> mnames \<longrightarrow> obj_metamethod L2 p name = VCFun (drop 2 name @ ''_lua'') []))"
proof -
  have "a < length (tabs L)" if "map_of (registry L) mt = Some a" for a
    using that assms(2) by (auto simp: serves_def)
  then have "\<exists>r L' mms ms. call opener [] L = (Val [r], L') \<and> opened mt mms ms L L'
      \<and> named_funcs names 0 ms \<and> named_funcs mnames 2 mms \<and> ''__index'' \<notin> mnames"
    using assms(1) fork_opened [of L] timer_opened [of L] socketpair_opened [of L] class_functions by auto
  then obtain r L' mms ms where o: "call opener [] L = (Val [r], L')" and c: "opened mt mms ms L L'"
    and n: "named_funcs names 0 ms" "named_funcs mnames 2 mms" "''__index'' \<notin> mnames" by blast
  from opened_serves [OF c assms(2) n] have s: "serves mt names mnames L'" .
  moreover from c have "world L' = world L" "uds L' = uds L"
    "registry L' = (if map_of (registry L) mt = None then [(mt, length (tabs L))] else []) @ registry L"
    by (auto simp: opened_def split: option.splits)
  ultimately show ?thesis using o opened_tables [OF c] serves_objects [OF s]
    by (intro exI [of _ r] exI [of _ L'] conjI allI impI) blast+
qed

text \<open>An object that was made before \<open>testcase.fork\<close> is opened a second time.\<close>

lemma object_methods_dispatch_witness:
  "\<exists>r L1 L2 r' L3. call luaopen_testcase_fork [] (lua0 proc_world0) = (Val [r], L1)
    \<and> call (fork_lua ref_proc_ops) [] L1 = (Val [VUd 0], L2)
    \<and> call luaopen_testcase_fork [] L2 = (Val [r'], L3)
    \<and> obj_method L3 0 ''wait'' = VCFun ''wait_lua'' [] \<and> obj_metamethod L3 0 ''__gc'' = VCFun ''gc_lua'' []
    \<and> obj_method L3 0 ''kill'' = VNil"
proof -
  let ?L = "lua0 proc_world0 :: (c_int, proc_world) lua"
  let ?n = "{''pid'', ''is_child'', ''wait''}" and ?m = "{''__gc'', ''__tostring''}"
  have n: "map_of (registry ?L) PROC_MT = None \<or> serves PROC_MT ?n ?m ?L" by (simp add: lua0_def)
  have i: "(luaopen_testcase_fork :: (c_int, proc_world, nat) comp, PROC_MT, ?n, ?m)
      \<in> {(luaopen_testcase_fork, PROC_MT, ?n, ?m),
      (luaopen_testcase_timer, TESTCASE_TIMER_MT,
       {''reset'', ''total'', ''start'', ''stop'', ''elapsed'', ''elapsed_sec''}, {''__tostring''}),
      (luaopen_testcase_socketpair, MODULE_MT,
       {''fd'', ''nonblock'', ''recvbuf'', ''sendbuf'', ''close'', ''shutdown'', ''shutrd'', ''shutwr'',
        ''read'', ''write''}, ?m)}" by simp
  from object_methods_dispatch [OF i n] obtain r L1 where
    o: "call luaopen_testcase_fork [] ?L = (Val [r], L1)" "world L1 = world ?L" "uds L1 = uds ?L"
      "serves PROC_MT ?n ?m L1"
    by (elim exE conjE)
  from o(4) obtain a where a: "map_of (registry L1) PROC_MT = Some a" by (auto simp: serves_def)
  have k: "k_fork ref_proc_ops (world L1)
      = (proc_world0\<lparr>kids := (kids proc_world0)(43 \<mapsto> []), next_pid := 44\<rparr>, Inr 43)" (is "_ = (?w, _)")
    by (simp add: o(2) ref_fork_world0)
  let ?L2 = "new_object PROC_MT 43 (L1\<lparr>world := ?w\<rparr>)"
  have f: "call (fork_lua ref_proc_ops) [] L1 = (Val [VUd 0], ?L2)"
    using fork_object [OF a k] o(3) by simp
  have "object_at ?L2 0 PROC_MT 43"
    using object_at_new(1) [of "L1\<lparr>world := ?w\<rparr>" PROC_MT a 43] a o(3) by simp
  then have h: "has_meta ?L2 0 PROC_MT" by (simp add: object_at_def)
  have s: "map_of (registry ?L2) PROC_MT = None \<or> serves PROC_MT ?n ?m ?L2"
    using serves_append [OF o(4), of ?L2 "[]"] by simp
  from object_methods_dispatch [OF i s] obtain r' L3 where
    o3: "call luaopen_testcase_fork [] ?L2 = (Val [r'], L3)" "uds L3 = uds ?L2" 
      "registry L3 = (if map_of (registry ?L2) PROC_MT = None then [(PROC_MT, length (tabs ?L2))] else []) @ registry ?L2"
    and m: "\<forall>(L2 :: (c_int, proc_world) lua) p name. map_of (registry L2) PROC_MT = map_of (registry L3) PROC_MT \<longrightarrow>
         take (length (tabs L3)) (tabs L2) = tabs L3 \<longrightarrow> has_meta L2 p PROC_MT \<longrightarrow>
           obj_method L2 p name = (if name \<in> ?n then VCFun (name @ ''_lua'') [] else VNil)
         \<and> (name \<in> ?m \<longrightarrow> obj_metamethod L2 p name = VCFun (drop 2 name @ ''_lua'') [])"
    by (elim exE conjE)
  have "has_meta L3 0 PROC_MT" using h o3(2,3) a by (auto simp: has_meta_def)
  with m have "obj_method L3 0 ''wait'' = VCFun ''wait_lua'' []"
    "obj_metamethod L3 0 ''__gc'' = VCFun ''gc_lua'' []" "obj_method L3 0 ''kill'' = VNil"
    by auto
  with o f o3 show ?thesis by blast
qed

end
