(* ===== verification/Child_Signals.thy ===== *)
theory Child_Signals
  imports Signal Sig_Child Process
begin

text \<open>
  The signal module together with the process objects and with \<open>nosigchld\<close> (src/signal.c,
  src/fork.c, src/nosigchld.c): they act on the same system, so that a process is killed through
  one and waited for through another, and one may undo the handler that another installed.
\<close>

section \<open>The law\<close>

text \<open>
  \<open>due w pid = Some n\<close>: the child \<open>pid\<close> has been killed, and \<open>waitpid\<close> has at most \<open>n\<close> stops and
  continuations to report before it reports the end. \<open>SIGKILL\<close> cannot be caught, so a \<open>kill\<close>
  that succeeds for a child makes its end due, whatever state it is in.
\<close>

locale doom_kernel = child_kernel +
  fixes sops :: "'a sig_ops" and due :: "'a \<Rightarrow> c_int \<Rightarrow> nat option"
  assumes kill_dooms: "0 < sint pid \<Longrightarrow> pid \<in> child w \<Longrightarrow> k_kill sops pid SIGKILL w = (w', Inr u) \<Longrightarrow>
      child w' = child w \<and> due w' pid \<noteq> None"
    and doomed_report: "0 < sint pid \<Longrightarrow> due w pid = Some n \<Longrightarrow>
      \<exists>w' st. k_waitpid ops pid (WUNTRACED OR WCONTINUED) w = (w', Inr (pid, st))
        \<and> (\<not> ended st \<longrightarrow> (\<exists>m<n. due w' pid = Some m))"

section \<open>Waiting for the end\<close>

text \<open>
  At most \<open>k\<close> calls of \<open>wait\<close>, until the object is marked as reaped; whether it was.
\<close>

fun wait_end :: "'w proc_ops \<Rightarrow> nat \<Rightarrow> nat \<Rightarrow> (c_int, 'w, bool) comp" where
  "wait_end ops p 0 = ret False"
| "wait_end ops p (Suc k) =
     bnd (call (wait_lua ops) [VUd p]) (\<lambda>_.
     bnd (load p) (\<lambda>pid. if sint pid < 0 then ret True else wait_end ops p k))"

lemma wait_end_mono:
  assumes "wait_end ops p k L = (Val True, L2)" "k \<le> n"
  shows "wait_end ops p n L = (Val True, L2)"
  using assms
proof (induction k arbitrary: L n)
  case 0
  then show ?case by (simp add: ret_def)
next
  case (Suc k)
  then obtain n1 where "n = Suc n1" "k \<le> n1" by (cases n) auto
  with Suc show ?case by (auto simp: bnd_run ret_def split: prod.splits outcome.splits if_splits)
qed

context doom_kernel
begin

lemma wait_end_reaps:
  assumes "due (world L) pid = Some n" "object_at L p PROC_MT pid" "0 < sint pid"
  shows "\<exists>L2. wait_end ops p (Suc n) L = (Val True, L2) \<and> object_at L2 p PROC_MT (- pid)
    \<and> child (world L2) = child (world L) - {pid}"
  using assms(1,2)
proof (induction n arbitrary: L rule: less_induct)
  case (less n)
  from doomed_report [OF assms(3) less.prems(1)] obtain w st where
    w: "k_waitpid ops pid (WUNTRACED OR WCONTINUED) (world L) = (w, Inr (pid, st))"
    and m: "\<not> ended st \<longrightarrow> (\<exists>m<n. due w pid = Some m)" by auto
  from wait_status [OF less.prems(2) assms(3) w] obtain ts where
    c: "call (wait_lua ops) [VUd p] L = (Val [VTab (length (tabs L))],
      (if ended st then set_object p (- pid) else id) (L\<lparr>world := w, tabs := ts\<rparr>))" by auto
  have ok: "pid \<in> child (world L)" "child w = (if ended st then child (world L) - {pid} else child (world L))"
  proof -
    have "pid \<noteq> 0" using assms(3) by auto
    with wait_ok [OF assms(3) w] show "pid \<in> child (world L)"
      "child w = (if ended st then child (world L) - {pid} else child (world L))" by blast+
  qed
  have o: "object_at (L\<lparr>world := w, tabs := ts\<rparr>) p PROC_MT pid" using less.prems(2) by simp
  show ?case
  proof (cases "ended st")
    case True
    then have "wait_end ops p (Suc n) L = (Val True, set_object p (- pid) (L\<lparr>world := w, tabs := ts\<rparr>))"
      using c load_object [OF object_at_set [OF o]] assms(3) by (simp add: c_step sint_uminus)
    then show ?thesis using True ok object_at_set [OF o] by auto
  next
    case False
    with m obtain k where k: "k < n" "due w pid = Some k" by auto
    let ?L1 = "L\<lparr>world := w, tabs := ts\<rparr>"
    have step: "wait_end ops p (Suc n) L = wait_end ops p n ?L1"
      using False c load_object [OF o] assms(3) by (simp add: c_step)
    from less.IH [OF k(1), of ?L1] k(2) o obtain L2 where
      "wait_end ops p (Suc k) ?L1 = (Val True, L2)" "object_at L2 p PROC_MT (- pid)"
      "child (world L2) = child w - {pid}" by auto
    moreover from this(1) have "wait_end ops p n ?L1 = (Val True, L2)"
      using wait_end_mono [of ops p "Suc k" ?L1 L2 n] k(1) by (simp del: wait_end.simps)
    ultimately show ?thesis using step ok False by (auto simp del: wait_end.simps)
  qed
qed

end

section \<open>A reference system\<close>

text \<open>The signal dispositions and the processes of the reference kernels, side by side.\<close>

record joint_world =
  sigs :: sig_world
  procs :: proc_world

definition on_procs :: "(proc_world, 'r) syscall \<Rightarrow> (joint_world, 'r) syscall" where
  "on_procs f w = (case f (procs w) of (v, r) \<Rightarrow> (w\<lparr>procs := v\<rparr>, r))"

definition on_sigs :: "(sig_world \<Rightarrow> sig_world \<times> 'r) \<Rightarrow> joint_world \<Rightarrow> joint_world \<times> 'r" where
  "on_sigs f w = (case f (sigs w) of (v, r) \<Rightarrow> (w\<lparr>sigs := v\<rparr>, r))"

definition joint_proc_ops :: "joint_world proc_ops" where
  "joint_proc_ops = \<lparr>k_fork = on_procs ref_fork,
     k_waitpid = (\<lambda>pid opts. on_procs (ref_waitpid pid opts)),
     k_proc_kill = (\<lambda>pid s. on_procs (ref_proc_kill pid s))\<rparr>"

definition joint_kill :: "c_int \<Rightarrow> c_int \<Rightarrow> (joint_world, unit) syscall" where
  "joint_kill pid s w = (if kids (procs w) pid = None then on_sigs (ref_kill pid s) w
     else if sint s < 0 \<or> 64 < sint s then (w, Inl EINVAL)
     else if s = 0 then (w, Inr ())
     else on_procs (ref_proc_kill pid s) w)"

definition joint_sig_ops :: "joint_world sig_ops" where
  "joint_sig_ops = \<lparr>
     k_kill = joint_kill,
     k_raise = (\<lambda>s. on_sigs (k_raise ref_sig_ops s)),
     k_signal = (\<lambda>s h. on_sigs (ref_signal s h)),
     k_sigaction = (\<lambda>s a. on_sigs (ref_sigaction s a)),
     k_alarm = (\<lambda>sec. on_sigs (k_alarm ref_sig_ops sec))\<rparr>"

definition joint_due :: "joint_world \<Rightarrow> c_int \<Rightarrow> nat option" where
  "joint_due w pid = (case kids (procs w) pid of
       None \<Rightarrow> None
     | Some sts \<Rightarrow> if list_ex ended sts then Some (length (takeWhile (\<lambda>st. \<not> ended st) sts)) else None)"

lemma wait_opts: "WUNTRACED OR WCONTINUED \<noteq> 0"
  by (simp add: WUNTRACED_def WCONTINUED_def)

interpretation joint: doom_kernel joint_proc_ops "children \<circ> procs" "sig_log \<circ> procs" joint_sig_ops joint_due
proof unfold_locales
  fix pid w n
  assume "joint_due w pid = Some n"
  then obtain sts where "kids (procs w) pid = Some sts" "list_ex ended sts"
    "n = length (takeWhile (\<lambda>st. \<not> ended st) sts)"
    by (auto simp: joint_due_def split: option.splits if_splits)
  then show "\<exists>w' st. k_waitpid joint_proc_ops pid (WUNTRACED OR WCONTINUED) w = (w', Inr (pid, st))
      \<and> (\<not> ended st \<longrightarrow> (\<exists>m<n. joint_due w' pid = Some m))"
    by (cases sts) (auto simp: joint_proc_ops_def on_procs_def ref_waitpid_def pending_def wait_opts joint_due_def)
next
  fix pid w w' u
  assume "pid \<in> (children \<circ> procs) w" "k_kill joint_sig_ops pid SIGKILL w = (w', Inr u)"
  then show "(children \<circ> procs) w' = (children \<circ> procs) w \<and> joint_due w' pid \<noteq> None"
    by (auto simp: joint_sig_ops_def joint_kill_def on_procs_def ref_proc_kill_def joint_due_def children_def
        SIGKILL_def ended_9 split: option.splits if_splits)
next
  fix pid opts :: c_int and w w' :: joint_world and r st :: c_int
  assume "0 < sint pid" "k_waitpid joint_proc_ops pid opts w = (w', Inr (r, st))"
  then have *: "0 < sint pid" "k_waitpid ref_proc_ops pid opts (procs w) = (procs w', Inr (r, st))"
    by (auto simp: joint_proc_ops_def on_procs_def ref_proc_ops_def split: prod.splits)
  from ref_proc.wait_ok [OF this] show "pid \<in> (children \<circ> procs) w \<and> (sig_log \<circ> procs) w' = (sig_log \<circ> procs) w \<and>
      (r = 0 \<and> (children \<circ> procs) w' = (children \<circ> procs) w
       \<or> r = pid \<and> (children \<circ> procs) w' = (if ended st then (children \<circ> procs) w - {pid} else (children \<circ> procs) w))"
    by (simp only: o_apply)
  show "ended st" if "opts AND (WUNTRACED OR WCONTINUED) = 0" "r \<noteq> 0"
    by (rule ref_proc.wait_ended [OF * that])
  show "r \<noteq> 0" if "opts AND WNOHANG = 0"
    by (rule ref_proc.wait_blocks [OF * that])
qed (auto simp: joint_proc_ops_def on_procs_def ref_waitpid_def ref_proc_kill_def ref_fork_def children_def dom_def
      split: prod.splits option.splits list.splits if_splits)

section \<open>Properties\<close>


definition joint_world0 :: joint_world where
  "joint_world0 = \<lparr>sigs = sig_world0, procs = proc_world0\<rparr>"


text \<open>C36. The closure of \<open>nosigchld\<close> goes by its own record: once it has installed its handler and
\<open>sigdefault\<close> has replaced it through the signal module, a further \<open>nosigchld(true)\<close> returns true
and installs nothing, so that SIGCHLD keeps its default action.\<close>

theorem nosigchld_trusts_its_record:
  assumes "disposition_kernel ops action" and "state_at L p s" and "enabled s"
    and "signal_arg defs v = Some sig" and "call (sigdefault_lua defs ops) [v] L = (Val [VBool True], L1)"
  shows "call_closure (nosigchld_lua (Some sig) ops) [VUd p] [VBool True] L1 = (Val [VBool True], L1)
    \<and> sa_handler (action (world L1) sig) = SIG_DFL"
proof -
  obtain w where L1: "L1 = L\<lparr>world := w\<rparr>" and h: "sa_handler (action w sig) = SIG_DFL"
    using disposition_kernel.set_disposition_effect [OF assms(1,4), of SIG_DFL L] assms(5)
    by (auto simp: sigdefault_lua_def split: prod.splits sum.splits)
  have "state_at L1 p s" using assms(2) by (simp add: L1)
  then show ?thesis
    using h assms(3)
    by (simp add: L1 nosigchld_lua_def call_closure_def c_step c_body call_ops stack_ops truthy_def
        upvalue_touserdata_def [THEN fun_cong])
qed

definition enabled_state :: "(nosigchld_t, sig_world) lua" where
  "enabled_state = (lua0 (sig_world0\<lparr>actions := (\<lambda>_. default_action)(17 := noop_action)\<rparr>))\<lparr>uds :=
     [\<lparr>meta = None, block = Some \<lparr>noop = noop_action, saved = default_action, enabled = True\<rparr>\<rparr>]\<rparr>"

lemma nosigchld_trusts_its_record_witness:
  "\<exists>L1. call (sigdefault_lua linux_signals ref_sig_ops) [VStr ''sigchld''] enabled_state = (Val [VBool True], L1)
    \<and> call_closure (nosigchld_lua (Some 17) ref_sig_ops) [VUd 0] [VBool True] L1 = (Val [VBool True], L1)
    \<and> sa_handler (actions (world L1) 17) = SIG_DFL"
proof -
  let ?s = "\<lparr>noop = noop_action, saved = default_action, enabled = True\<rparr>"
  have s: "state_at enabled_state 0 ?s" by (simp add: state_at_def enabled_state_def)
  have a: "signal_arg linux_signals (VStr ''sigchld'') = Some 17" by code_simp
  let ?w = "world enabled_state\<lparr>actions := (actions (world enabled_state))
     (17 := \<lparr>sa_handler = SIG_DFL, sa_mask = [], sa_flags = SA_RESTART\<rparr>)\<rparr>"
  have c: "call (sigdefault_lua linux_signals ref_sig_ops) [VStr ''sigchld''] enabled_state
      = (Val [VBool True], enabled_state\<lparr>world := ?w\<rparr>)"
    by (simp add: sigdefault_lua_def set_disposition_def c_step call_ops stack_ops sys_def get_signal_Some [OF a]
        ref_sig_ops_def ref_signal_def catchable_def)
  from nosigchld_trusts_its_record [OF ref_sig.disposition_kernel_axioms s _ a c] c show ?thesis by auto
qed

end
