(* ===== verification/Safe_Run.thy ===== *)
theory Safe_Run
  imports Lua_Api
begin

text \<open>
  A weakest-precondition calculus for the C functions of the model: \<open>wp E m Q L\<close> says that \<open>m\<close>,
  started in \<open>L\<close>, does not run into undefined behaviour, and gives a value and a state for which
  \<open>Q\<close> holds, or raises an error (or ends the process) in a state for which \<open>E\<close> holds. The rules take a body apart one call of the Lua API at a time.
\<close>

named_theorems vc_simp
named_theorems vc_intro

section \<open>Sound states\<close>

text \<open>
  Every userdata that carries a metatable has been written to, so that a method that has checked
  the metatable may read the block; and what the registry names are tables.
\<close>

definition sound :: "('u, 'w) lua \<Rightarrow> bool" where
  "sound L \<longleftrightarrow> (\<forall>ud \<in> set (uds L). meta ud \<noteq> None \<longrightarrow> block ud \<noteq> None)
     \<and> (\<forall>e \<in> set (registry L). snd e < length (tabs L))"

definition written :: "nat \<Rightarrow> ('u, 'w) lua \<Rightarrow> bool" where
  "written p L \<longleftrightarrow> p < length (uds L) \<and> block (uds L ! p) \<noteq> None"

definition set_meta :: "nat \<Rightarrow> nat option \<Rightarrow> ('u, 'w) lua \<Rightarrow> ('u, 'w) lua" where
  "set_meta p m L = L\<lparr>uds := (uds L)[p := (uds L ! p)\<lparr>meta := m\<rparr>]\<rparr>"

definition new_block :: "('u, 'w) lua \<Rightarrow> ('u, 'w) lua" where
  "new_block L = L\<lparr>uds := uds L @ [\<lparr>meta = None, block = None\<rparr>]\<rparr>"

lemma sound_frame [simp]:
  "sound (L\<lparr>stk := s\<rparr>) = sound L" "sound (L\<lparr>peak := k\<rparr>) = sound L" "sound (L\<lparr>world := w\<rparr>) = sound L" "sound (L\<lparr>errno := e\<rparr>) = sound L"
  "sound (L\<lparr>upvals := u\<rparr>) = sound L" "sound (L\<lparr>regrefs := r\<rparr>) = sound L"
  "length (tabs L) \<le> length ts \<Longrightarrow> sound L \<Longrightarrow> sound (L\<lparr>tabs := ts\<rparr>)"
  "length (tabs L) < length ts \<Longrightarrow> sound L \<Longrightarrow> sound (L\<lparr>tabs := ts, registry := (n, length (tabs L)) # registry L\<rparr>)"
  by (auto simp: sound_def)

lemma sound_objects [simp]:
  "sound L \<Longrightarrow> sound (set_object p x L)" "sound L \<Longrightarrow> sound (new_block L)"
  "sound L \<Longrightarrow> written p L \<Longrightarrow> sound (set_meta p m L)"
  by (auto simp: sound_def set_object_def new_block_def set_meta_def written_def dest!: set_update_subset_insert [THEN subsetD])

lemma written_frame [simp]:
  "written p (L\<lparr>stk := s\<rparr>) = written p L" "written p (L\<lparr>peak := k\<rparr>) = written p L" "written p (L\<lparr>world := w\<rparr>) = written p L"
  "written p (L\<lparr>errno := e\<rparr>) = written p L" "written p (L\<lparr>tabs := ts\<rparr>) = written p L"
  by (simp_all add: written_def)

lemma written_bound [vc_simp]: "written p L \<Longrightarrow> p < length (uds L)"
  by (simp add: written_def)

lemma written_objects [simp]:
  "q < length (uds L) \<Longrightarrow> written q (set_object p x L) = (q = p \<or> written q L)"
  "written q L \<Longrightarrow> written q (new_block L)" "written q (set_meta p m L) = written q L"
  by (cases "q = p"; auto simp: written_def set_object_def new_block_def set_meta_def nth_append)+

lemma block_counts [simp]:
  "length (uds (set_object p x L)) = length (uds L)" "length (uds (set_meta p m L)) = length (uds L)"
  "length (uds (new_block L)) = Suc (length (uds L))" "stk (set_meta p m L) = stk L"
  "peak (set_meta p m L) = peak L" "peak (new_block L) = peak L"
  "stk (new_block L) = stk L" "tabs (set_meta p m L) = tabs L" "tabs (new_block L) = tabs L"
  "rt (set_meta p m L) = rt L" "rt (new_block L) = rt L"
  "registry (set_meta p m L) = registry L" "registry (new_block L) = registry L"
  by (simp_all add: set_object_def set_meta_def new_block_def)

lemma has_meta_written: "sound L \<Longrightarrow> has_meta L p mt \<Longrightarrow> written p L"
  by (auto simp: sound_def has_meta_def written_def)

section \<open>The calculus\<close>

definition wp :: "(('u, 'w) lua \<Rightarrow> bool) \<Rightarrow> ('u, 'w, 'a) comp \<Rightarrow> ('a \<Rightarrow> ('u, 'w) lua \<Rightarrow> bool) \<Rightarrow> ('u, 'w) lua \<Rightarrow> bool" where
  "wp E m Q L = (case m L of
       (Val x, L') \<Rightarrow> Q x L'
     | (Raise _, L') \<Rightarrow> E L'
     | (ExitProcess _, L') \<Rightarrow> E L'
     | (Undef _, _) \<Rightarrow> False)"

text \<open>
  Lua promises a C function room for \<open>LUA_MINSTACK\<close> values above its arguments. The functions are
  held to \<open>STACK_ROOM\<close>, so that the auxiliary functions they call (which push at most a few values
  of their own while they run) find eight places more.
\<close>

definition LUA_MINSTACK :: nat where "LUA_MINSTACK = 20"

definition STACK_ROOM :: nat where "STACK_ROOM = LUA_MINSTACK - 8"

lemma STACK_ROOM [vc_simp]: "STACK_ROOM = 12"
  by (simp add: STACK_ROOM_def LUA_MINSTACK_def)

text \<open>A function is entered with its arguments on a stack of its own.\<close>

definition entered :: "('u, 'w) lua \<Rightarrow> bool" where
  "entered L \<longleftrightarrow> sound L \<and> peak L = length (stk L)"

text \<open>
  A C function is safe in a state when it does not run into undefined behaviour, returns no more
  values than its stack holds, and, however it ends, leaves a sound state and has not used more of the stack than the room it has.
\<close>

definition kept :: "nat \<Rightarrow> ('u, 'w) lua \<Rightarrow> bool" where
  "kept n L \<longleftrightarrow> sound L \<and> peak L \<le> n + STACK_ROOM"

definition safe :: "('u, 'w, nat) comp \<Rightarrow> ('u, 'w) lua \<Rightarrow> bool" where
  "safe f L \<longleftrightarrow> wp (kept (length (stk L))) f (\<lambda>n L'. n \<le> length (stk L') \<and> kept (length (stk L)) L') L"

text \<open>The continuation is left alone until it is reached.\<close>

lemma wp_cong: "m = m' \<Longrightarrow> L = L' \<Longrightarrow> wp E m Q L = wp E m' Q L'"
  by simp

lemma wp_structure [vc_simp]:
  "wp E (ret x) Q L = Q x L" "wp E (raise e) R L = E L" "wp E (exit_process c) R L = E L" "wp E (undef why) R L = False"
  "wp E (bnd m f) S L = wp E m (\<lambda>x. wp E (f x) S) L"
  by (simp_all add: wp_def ret_def raise_def exit_process_def undef_def bnd_def split: prod.splits outcome.splits)

lemma wp_seqs [vc_simp]:
  "wp E (seqs []) Q L = Q () L" "wp E (seqs (m # ms)) Q L = wp E m (\<lambda>_. wp E (seqs ms) Q) L"
  "wp E (returning [] n) R L = R n L" "wp E (returning (m # ms) n) R L = wp E m (\<lambda>_. wp E (returning ms n) R) L"
  by (simp_all add: wp_structure returning_Nil returning_Cons)

lemmas hold_unfold [vc_simp] = hold_def

lemma wp_stack [vc_simp]:
  "wp E (push v) Q L = Q () (hold (stk L @ [v]) L)"
  "wp E push_strerror Q L = Q () (hold (stk L @ [VStr (strerror (rt L) (errno L))]) L)"
  "wp E (lua_errno_new op) Q L = Q () (hold (stk L @ [VErrno (errno L) op None]) L)"
  "wp E (lua_errno_new_with_message e op msg) Q L = Q () (hold (stk L @ [VErrno e op (Some msg)]) L)"
  "wp E (set_errno e) Q L = Q () (L\<lparr>errno := e\<rparr>)" "wp E get_errno R L = R (errno L) L"
  "wp E lua_gettop S L = S (int (length (stk L))) L" "wp E (lua_settop i) Q L = Q () (hold (settop_list i (stk L)) L)"
  "wp E (push_udname mt i) Q L = Q () (hold (stk L @ [VStr (mt @ '': '' @ fmt_ptr (rt L)
     (case slot i (stk L) of Some v \<Rightarrow> v | None \<Rightarrow> VNil))]) L)"
  by (simp_all add: wp_def stack_ops userdata_ops)

lemma wp_queries [vc_simp]:
  "wp E (lua_type i) Q L = Q (arg_type i L) L"
  "wp E (lua_isnoneornil i) R L = R (arg_type i L = TNone \<or> arg_type i L = TNil) L"
  "wp E (lua_isnumber i) R L = R (arg_number i L \<noteq> None) L"
  by (simp_all add: wp_def stack_ops arg_ops c_step)

lemma wp_objects [vc_simp]:
  "wp E lua_newuserdata P L = P (length (uds L)) (new_block (hold (stk L @ [VUd (length (uds L))]) L))"
  "wp E (load p) R L \<longleftrightarrow> written p L \<and> R (the (block (uds L ! p))) L"
  "wp E (store p x) Q L \<longleftrightarrow> p < length (uds L) \<and> Q () (set_object p x L)"
  "wp E lua_newtable Q L = Q () ((hold (stk L @ [VTab (length (tabs L))]) L)\<lparr>tabs := tabs L @ [[]]\<rparr>)"
  by (auto simp: wp_def userdata_ops table_ops new_block_def written_def set_object_def undef_def split: option.splits)

lemma wp_setfield [vc_simp]:
  "wp E (lua_setfield i k) Q L = (case (table_at L i, slot (- 1) (stk L)) of
       (Some a, Some v) \<Rightarrow>
         Q () (L\<lparr>stk := butlast (stk L), tabs := (tabs L)[a := tset (tabs L ! a) (VStr k) v]\<rparr>)
     | _ \<Rightarrow> False)"
  by (auto simp: wp_def lua_setfield_def undef_def split: option.splits)

lemma wp_rawset [vc_simp]:
  "wp E (lua_rawset i) Q L = (case (table_at L i, slot (- 2) (stk L), slot (- 1) (stk L)) of
       (Some a, Some k, Some v) \<Rightarrow> k \<noteq> VNil
         \<and> Q () (L\<lparr>stk := butlast (butlast (stk L)), tabs := (tabs L)[a := tset (tabs L ! a) k v]\<rparr>)
     | _ \<Rightarrow> False)"
  by (auto simp: wp_def lua_rawset_def undef_def split: option.splits)

lemma wp_getmetatable [vc_intro]:
  assumes "\<And>v. type_of v \<in> {TNil, TTable} \<Longrightarrow> Q () (hold (stk L @ [v]) L)"
  shows "wp E (luaL_getmetatable mt) Q L"
  using assms [of "case map_of (registry L) mt of Some a \<Rightarrow> VTab a | None \<Rightarrow> VNil"]
  by (simp add: wp_def luaL_getmetatable_def push_def split: option.splits)

lemma wp_setmetatable [vc_simp]:
  "wp E lua_setmetatable Q L = (case (slot (- 2) (stk L), slot (- 1) (stk L)) of
       (Some (VUd p), Some m) \<Rightarrow> p < length (uds L) \<and> type_of m \<in> {TNil, TTable}
         \<and> Q () (set_meta p (case m of VTab a \<Rightarrow> Some a | _ \<Rightarrow> None) (L\<lparr>stk := butlast (stk L)\<rparr>))
     | _ \<Rightarrow> False)"
  by (auto simp: wp_def lua_setmetatable_def undef_def set_meta_def split: option.splits lval.splits)

lemma wp_pushvalue [vc_simp]:
  "wp E (lua_pushvalue i) Q L = (case slot i (stk L) of Some v \<Rightarrow> Q () (hold (stk L @ [v]) L) | None \<Rightarrow> False)"
  by (auto simp: wp_def lua_pushvalue_def undef_def push_def split: option.splits)

lemma length_settop [simp]:
  "length (settop_list i s) = nat (if 0 \<le> i then i else int (length s) + i + 1)"
  by (simp add: settop_list_def Let_def)

lemma wp_moves [vc_simp]:
  "wp E (lua_remove i) Q L \<longleftrightarrow> 1 \<le> i \<and> i \<le> length (stk L) \<and> Q () (L\<lparr>stk := take (i - 1) (stk L) @ drop i (stk L)\<rparr>)"
  "wp E (lua_insert i) Q L \<longleftrightarrow> 1 \<le> i \<and> i \<le> length (stk L)
     \<and> Q () (L\<lparr>stk := take (i - 1) (stk L) @ [last (stk L)] @ drop (i - 1) (butlast (stk L))\<rparr>)"
  by (auto simp: wp_def lua_remove_def lua_insert_def undef_def)

lemma wp_touserdata [vc_simp]:
  "wp E (lua_touserdata i) Q L = Q (case slot i (stk L) of Some (VUd p) \<Rightarrow> Some p | _ \<Rightarrow> None) L"
  by (simp add: wp_def lua_touserdata_def)

lemma wp_upvalue [vc_simp]:
  "wp E (upvalue_touserdata n) Q L = Q (if 1 \<le> n \<and> n \<le> length (upvals L)
     then (case upvals L ! (n - 1) of VUd p \<Rightarrow> Some p | _ \<Rightarrow> None) else None) L"
  by (simp add: wp_def upvalue_touserdata_def)

section \<open>Calls into Lua\<close>

text \<open>Lua code that is run, and that may call any of the functions, leaves a sound state sound.\<close>

definition run_sound :: "('u, 'w) runner \<Rightarrow> bool" where
  "run_sound run \<longleftrightarrow> (\<forall>f args h L. sound L \<longrightarrow> sound (snd (run f args h L)))"

lemma wp_pcall [vc_intro]:
  assumes "run_sound run" "sound L" "Suc nargs \<le> length (stk L)" "msgh \<le> length (stk L) - Suc nargs"
    and "\<And>failed rs L'. sound L' \<Longrightarrow> stk L' = take (length (stk L) - Suc nargs) (stk L) @ rs \<Longrightarrow>
      peak L' = max (peak L) (length (stk L')) \<Longrightarrow> length rs = (if failed then 1 else nresults) \<Longrightarrow> Q failed L'"
  shows "wp E (lua_pcall run nargs nresults msgh) Q L"
proof -
  let ?k = "length (stk L) - Suc nargs"
  obtain r L' where r: "run (stk L ! ?k) (drop (Suc ?k) (stk L))
      (if msgh = 0 then None else Some (stk L ! (msgh - 1))) (L\<lparr>stk := [], peak := 0\<rparr>) = (r, L')"
    by fastforce
  moreover from assms(1,2) have "sound (snd (run (stk L ! ?k) (drop (Suc ?k) (stk L))
      (if msgh = 0 then None else Some (stk L ! (msgh - 1))) (L\<lparr>stk := [], peak := 0\<rparr>)))"
    unfolding run_sound_def by (metis sound_frame(1,2))
  ultimately have "sound L'" by simp
  with assms(3-5) show ?thesis
    by (cases r) (simp_all add: wp_def lua_pcall_def hold_def r Let_def)
qed

section \<open>Arguments and system calls\<close>

text \<open>A check either raises an error, and has changed nothing, or tells something of the argument.\<close>

lemma wp_checkudata [vc_intro]:
  assumes "sound L" "E L" "\<And>p. slot i (stk L) = Some (VUd p) \<Longrightarrow> written p L \<Longrightarrow> Q p L"
  shows "wp E (luaL_checkudata i mt) Q L"
  using assms has_meta_written [OF assms(1)]
  by (auto simp: wp_def check_ops raise_def split: option.splits lval.splits)

lemma wp_checkinteger [vc_intro]:
  assumes "E L" "\<And>n. slot i (stk L) \<noteq> None \<Longrightarrow> Q n L"
  shows "wp E (luaL_checkinteger i) Q L"
  using assms by (auto simp: wp_def arg_ops raise_def split: option.splits lval.splits lua_number.splits)

lemma wp_checktype [vc_intro]:
  assumes "E L" "arg_type i L = t \<Longrightarrow> Q () L"
  shows "wp E (luaL_checktype i t) Q L"
  using assms by (auto simp: wp_def luaL_checktype_def type_error_def luaL_argerror_def raise_def)

lemma wp_toboolean [vc_intro]: "(\<And>b. Q b L) \<Longrightarrow> wp E (lua_toboolean i) Q L"
  by (simp add: wp_def lua_toboolean_def)

lemma wp_tointeger [vc_intro]: "(\<And>n. Q n L) \<Longrightarrow> wp E (lua_tointeger i) Q L"
  by (simp add: wp_def lua_tointeger_def)

text \<open>\<open>luaL_checkstring\<close> may convert the argument in place.\<close>

lemma wp_checkstring [vc_intro]:
  assumes "E L"
    and "\<And>s args. length args = length (stk L) \<Longrightarrow> slot i (stk L) \<noteq> None \<Longrightarrow> Q s (L\<lparr>stk := args\<rparr>)"
  shows "wp E (luaL_checkstring i) Q L"
proof (cases "slot i (stk L)")
  case None
  with assms(1) show ?thesis by (simp add: wp_def luaL_checkstring_def type_error_def luaL_argerror_def raise_def)
next
  case (Some v)
  from assms(2) [of "stk L"] Some have "Q s L" for s by simp
  with assms Some show ?thesis
    by (cases v) (auto simp: wp_def luaL_checkstring_def type_error_def luaL_argerror_def raise_def)
qed

lemma wp_errors [vc_simp]:
  "wp E (luaL_argerror i msg) Q L = E L" "wp E (luaL_error msg) Q L = E L"
  by (simp_all add: luaL_argerror_def luaL_error_def wp_structure)

lemma wp_sys_result:
  assumes "\<And>w e. f (world L) = (w, Inl e) \<Longrightarrow> Q None (L\<lparr>world := w, errno := e\<rparr>)"
    and "\<And>w r. f (world L) = (w, Inr r) \<Longrightarrow> Q (Some r) (L\<lparr>world := w\<rparr>)"
  shows "wp E (sys f) Q L"
  using assms by (auto simp: wp_def sys_def split: prod.splits sum.splits)

lemma wp_sys [vc_intro]:
  assumes "\<And>w e. Q None (L\<lparr>world := w, errno := e\<rparr>)" "\<And>w r. Q (Some r) (L\<lparr>world := w\<rparr>)"
  shows "wp E (sys f) Q L"
  using assms by (intro wp_sys_result)

lemma wp_checkoption [vc_intro]:
  assumes "\<And>args. E (L\<lparr>stk := args\<rparr>)" "\<And>n args. length args = length (stk L) \<Longrightarrow> Q n (L\<lparr>stk := args\<rparr>)"
  shows "wp E (luaL_checkoption i d names) Q L"
proof -
  let ?f = "\<lambda>s. case index_of (c_str s) names of Some n \<Rightarrow> ret n | None \<Rightarrow> luaL_argerror i (''invalid option '' @ s)"
  have c: "wp E (?f s) Q (L\<lparr>stk := args\<rparr>)" if "length args = length (stk L)" for s args
    using assms(1) assms(2) [OF that] by (auto simp: wp_structure wp_errors split: option.split)
  have "E L" using assms(1) [of "stk L"] by simp
  then have "wp E (luaL_checkstring i) (\<lambda>s. wp E (?f s) Q) L"
    using c by (intro wp_checkstring) auto
  moreover have "wp E (?f s) Q L" for s using c [of "stk L"] by simp
  moreover have "wp E (luaL_checkoption i d names) Q L = wp E (bnd (case (d, arg_type i L) of
      (Some s, TNone) \<Rightarrow> ret s | (Some s, TNil) \<Rightarrow> ret s | _ \<Rightarrow> luaL_checkstring i) ?f) Q L"
    by (simp add: luaL_checkoption_def wp_def)
  ultimately show ?thesis by (auto simp: wp_structure split: option.split ltype.split)
qed

lemma wp_error_new [vc_simp]:
  "wp E lua_error_new Q L = (case slot (- 1) (stk L) of Some v \<Rightarrow> Q () (hold (stk L @ [VErr v]) L) | None \<Rightarrow> False)"
  by (auto simp: wp_def lua_error_new_def undef_def push_def split: option.splits)

section \<open>Opening a module\<close>

lemma wp_newmetatable [vc_intro]:
  assumes "sound L"
    and "\<And>created a L'. sound L' \<Longrightarrow> stk L' = stk L @ [VTab a] \<Longrightarrow> peak L' = max (peak L) (Suc (length (stk L))) \<Longrightarrow> a < length (tabs L') \<Longrightarrow> Q created L'"
  shows "wp E (luaL_newmetatable name) Q L"
proof (cases "map_of (registry L) name")
  case None
  let ?L = "L\<lparr>stk := stk L @ [VTab (length (tabs L))], peak := max (peak L) (Suc (length (stk L))), tabs := tabs L @ [[(VStr ''__name'', VStr name)]],
      registry := (name, length (tabs L)) # registry L\<rparr>"
  have "sound ?L" using assms(1) by (auto simp: sound_def)
  with None show ?thesis using assms(2) [of ?L "length (tabs L)" True] by (simp add: wp_def luaL_newmetatable_def hold_def)
next
  case (Some a)
  then have "a < length (tabs L)" using assms(1) by (force simp: sound_def dest: map_of_SomeD)
  with Some show ?thesis using assms by (simp add: wp_def luaL_newmetatable_def hold_def)
qed

lemma wp_registration [vc_simp]:
  assumes "table_at L (- 1) = Some a"
  shows "wp E (reg_rawset regs) Q L = Q () (L\<lparr>tabs := (tabs L)[a := reg_table regs (tabs L ! a)],
      peak := (if regs = [] then peak L else max (peak L) (length (stk L) + 2))\<rparr>)"
    and "wp E (reg_setfield regs) Q L = Q () (L\<lparr>tabs := (tabs L)[a := reg_table regs (tabs L ! a)],
      peak := (if regs = [] then peak L else max (peak L) (length (stk L) + 1))\<rparr>)"
proof -
  from assms have top: "slot (- 1) (stk L) = Some (VTab a)" "a < length (tabs L)"
    by (auto simp: table_at_def split: option.splits lval.splits if_splits)
  then obtain s where "stk L = s @ [VTab a]"
    by (cases "stk L" rule: rev_cases) (auto simp: slot_def)
  from reg_rawset_run [OF this top(2)] reg_setfield_run [OF this top(2)]
  show "wp E (reg_rawset regs) Q L = Q () (L\<lparr>tabs := (tabs L)[a := reg_table regs (tabs L ! a)],
      peak := (if regs = [] then peak L else max (peak L) (length (stk L) + 2))\<rparr>)"
    and "wp E (reg_setfield regs) Q L = Q () (L\<lparr>tabs := (tabs L)[a := reg_table regs (tabs L ! a)],
      peak := (if regs = [] then peak L else max (peak L) (length (stk L) + 1))\<rparr>)"
    by (simp_all add: wp_def)
qed

lemma wp_pushcclosure [vc_simp]:
  "wp E (lua_pushcclosure f n) Q L \<longleftrightarrow> n \<le> length (stk L)
     \<and> Q () (hold (take (length (stk L) - n) (stk L) @ [VCFun f (drop (length (stk L) - n) (stk L))]) L)"
  by (auto simp: wp_def lua_pushcclosure_def undef_def)

lemma wp_ref [vc_simp]:
  "wp E luaL_ref Q L \<longleftrightarrow> stk L \<noteq> []
     \<and> Q () (L\<lparr>stk := butlast (stk L), regrefs := regrefs L @ [last (stk L)]\<rparr>)"
  by (auto simp: wp_def luaL_ref_def undef_def)

lemma wp_weaken:
  assumes "wp E m Q L" "\<And>x L'. Q x L' \<Longrightarrow> R x L'"
  shows "wp E m R L"
  using assms by (auto simp: wp_def split: prod.splits outcome.splits)

lemma table_at_top [simp]:
  "stk L = s @ [VTab a] \<Longrightarrow> a < length (tabs L) \<Longrightarrow> table_at L (- 1) = Some a"
  "stk L = s @ [VTab a, v] \<Longrightarrow> a < length (tabs L) \<Longrightarrow> table_at L (- 2) = Some a"
  "stk L = s @ [VTab a, u, v] \<Longrightarrow> a < length (tabs L) \<Longrightarrow> table_at L (- 3) = Some a"
  by (simp_all add: table_at_def)

text \<open>The results of a call of the API or of the system are told apart.\<close>

lemmas vc_split = option.splits prod.splits

end
