(* ===== verification/Type_Soundness.thy ===== *)
theory Type_Soundness
  imports Safe_Run Signal Sig_Child Rlimit File_Stat Xpcall Path_Ops Fd_Ops Arg_Select Dir_Read
    Process Timer Socketpair
begin

text \<open>
  Type soundness of the whole library: from a sound state, whatever functions are called with
  whatever arguments, in whatever order and whatever the system answers, no call runs into
  undefined behaviour, none returns more values than its stack holds, and no object that a method
  accepts is ever uninitialised. The few functions that need more of their arguments have it as
  their precondition.
\<close>

section \<open>The functions of each module\<close>

lemma process_safe:
  assumes "entered L"
  shows "safe (wait_lua ops) L" "safe is_child_lua L" "safe pid_lua L" "safe (proc_gc_lua ops) L"
    "safe proc_tostring_lua L" "safe (fork_lua ops) L" "safe luaopen_testcase_fork L"
  by (use assms in \<open>(auto simp: safe_def kept_def entered_def vc_simp Let_def push_wait_error_def wait_lua_def is_child_lua_def pid_lua_def proc_gc_lua_def
      proc_tostring_lua_def fork_lua_def luaopen_testcase_fork_def lua_pop_def
      intro!: vc_intro cong: wp_cong split: vc_split; fail)\<close>)+

lemma socket_safe:
  assumes "entered L"
  shows "safe (write_lua ops) L" "safe (read_lua ops) L" "safe (shutdown_lua ops) L" "safe (shutrd_lua ops) L"
    "safe (shutwr_lua ops) L" "safe (close_lua ops) L" "safe (sendbuf_lua ops) L" "safe (recvbuf_lua ops) L"
    "safe (nonblock_lua ops) L" "safe fd_lua L" "safe sock_tostring_lua L" "safe (sock_new_lua ops) L"
  by (use assms in \<open>(auto simp: safe_def kept_def entered_def vc_simp Let_def push_again_def write_lua_def read_lua_def do_shutdown_def shutdown_lua_def
      shutrd_lua_def shutwr_lua_def close_lua_def sockbuf_def sendbuf_lua_def recvbuf_lua_def nonblock_lua_def
      fd_lua_def sock_tostring_lua_def sock_new_lua_def
      intro!: vc_intro cong: wp_cong split: vc_split; fail)\<close>)+

lemma wp_getnsec_ex:
  assumes "timebase_ok ops" "\<And>w e. Q None (L\<lparr>world := w, errno := e\<rparr>)" "\<And>w r. Q (Some r) (L\<lparr>world := w\<rparr>)"
  shows "wp E (getnsec_ex ops) Q L"
proof (cases "mach ops")
  case None
  then show ?thesis using assms(2,3) by (auto simp: getnsec_ex_def getnsec_ex_posix_def intro!: wp_sys)
next
  case (Some k)
  then show ?thesis using assms(1,3)
    by (auto simp: timebase_ok_def getnsec_ex_def getnsec_ex_mach_def wp_def Let_def split: prod.splits)
qed

lemma wp_getnsec:
  assumes "timebase_ok ops" "\<And>w e. Q None (L\<lparr>world := w, errno := e\<rparr>)" "\<And>w r. Q (Some r) (L\<lparr>world := w\<rparr>)"
  shows "wp E (getnsec ops) Q L"
  unfolding getnsec_def using assms by (auto simp: vc_simp intro!: wp_getnsec_ex)

lemma wp_nsec2utime [vc_intro]:
  assumes "\<And>x fmt u. Q 3 (hold (stk L @ [x, fmt, u]) L)"
  shows "wp E (nsec2utime ldm ns) Q L"
  using assms by (simp add: nsec2utime_def Let_def vc_simp cong: wp_cong)

lemma wp_checknumber [vc_intro]:
  assumes "E L" "\<And>x. luaL_checknumber rnd i L = (Val x, L) \<Longrightarrow> Q x L"
  shows "wp E (luaL_checknumber rnd i) Q L"
  using assms by (auto simp: wp_def luaL_checknumber_def type_error_def luaL_argerror_def raise_def
      split: option.splits lval.splits)

text \<open>The argument of \<open>sleep\<close>, if it is a number, is in the range of \<open>time_t\<close>.\<close>

definition sleepable :: "('u, 'w) lua \<Rightarrow> bool" where
  "sleepable L \<longleftrightarrow> (\<forall>x. luaL_checknumber (fl 53) 1 L = (Val x, L) \<longrightarrow>
     (\<exists>q. x = Fin q \<and> - (2 ^ 63) \<le> trunc q \<and> trunc q < 2 ^ 63))"

lemma clock_safe:
  assumes "entered L" "timebase_ok ops"
  shows "safe (elapsed_lua ldm ops) L" "safe (elapsed_sec_lua ldm ops) L" "safe (stop_lua ldm ops) L"
    "safe (start_lua ops) L" "safe (nanotime_lua ops) L"
  by (use assms in \<open>(auto simp: safe_def kept_def entered_def vc_simp Let_def elapsed_lua_def elapsed_sec_lua_def
      get_elapsed_lua_def stop_lua_def start_lua_def nanotime_lua_def
      intro!: wp_getnsec wp_getnsec_ex vc_intro cong: wp_cong split: vc_split; fail)\<close>)+

lemma timer_safe:
  assumes "entered L"
  shows "safe (total_lua ldm) L" "safe reset_lua L" "safe timer_tostring_lua L"
    "safe timer_new_lua L" "safe (usleep_lua ops) L" "safe luaopen_testcase_timer L"
  by (use assms in \<open>(auto simp: safe_def kept_def entered_def vc_simp Let_def total_lua_def reset_lua_def
      timer_tostring_lua_def timer_new_lua_def usleep_lua_def luaopen_testcase_timer_def settop_list_def
      intro!: vc_intro cong: wp_cong split: vc_split; fail)\<close>)+

lemma sleep_safe: "entered L \<Longrightarrow> sleepable L \<Longrightarrow> safe (sleep_lua ops) L"
  by (auto simp: safe_def kept_def entered_def vc_simp Let_def sleep_lua_def sleepable_def intro!: vc_intro cong: wp_cong split: lua_number.split)

lemma socket_opener_safe: "entered L \<Longrightarrow> safe luaopen_testcase_socketpair L"
  by (auto simp: safe_def kept_def entered_def vc_simp luaopen_testcase_socketpair_def intro!: vc_intro cong: wp_cong)

text \<open>The collector runs on an object of the class; it does not check its argument.\<close>

definition collectable :: "string \<Rightarrow> ('u, 'w) lua \<Rightarrow> bool" where
  "collectable mt L \<longleftrightarrow> (\<exists>p args. stk L = VUd p # args \<and> has_meta L p mt)"

lemma sock_gc_safe: "entered L \<Longrightarrow> collectable MODULE_MT L \<Longrightarrow> safe (sock_gc_lua ops) L"
  by (auto simp: safe_def kept_def entered_def vc_simp sock_gc_lua_def collectable_def has_meta_written
      intro!: vc_intro cong: wp_cong)

lemma signal_safe:
  assumes "entered L"
  shows "safe (kill_lua defs ops) L" "safe (raise_lua defs ops) L" "safe (tosigname_lua defs) L"
    "safe (tosignum_lua defs) L" "safe (sigignore_lua defs ops) L" "safe (sigdefault_lua defs ops) L"
    "safe (alarm_lua ops) L" "safe luaopen_testcase_signal L"
    "safe (luaopen_testcase_nosigpipe sigpipe ops) L"
proof -
  have "wp (kept n) (\<lambda>L. case k_alarm ops sec (world L) of
      (w, left) \<Rightarrow> returning [lua_pushinteger (ucast left)] 1 (L\<lparr>world := w\<rparr>))
      (\<lambda>m L'. m \<le> length (stk L') \<and> kept n L') L" if "n = length (stk L)" for sec n
    using assms that by (auto simp: wp_def c_step stack_ops kept_def entered_def STACK_ROOM split: prod.splits)
  with assms show "safe (kill_lua defs ops) L" "safe (raise_lua defs ops) L" "safe (tosigname_lua defs) L"
    "safe (tosignum_lua defs) L" "safe (sigignore_lua defs ops) L" "safe (sigdefault_lua defs ops) L"
    "safe (alarm_lua ops) L" "safe luaopen_testcase_signal L" "safe (luaopen_testcase_nosigpipe sigpipe ops) L"
    by (auto simp: safe_def kept_def entered_def vc_simp Let_def get_signal_def kill_lua_def raise_lua_def tosigname_lua_def tosignum_lua_def
        set_disposition_def sigignore_lua_def sigdefault_lua_def alarm_lua_def luaopen_testcase_signal_def
        luaopen_testcase_nosigpipe_def intro!: vc_intro cong: wp_cong split: vc_split)
qed

lemma signames_safe: "entered L \<Longrightarrow> stk L = [] \<Longrightarrow> safe (signames_lua defs) L"
proof -
  assume s: "entered L" and e: "stk L = []"
  obtain k ts where r: "signames_lua defs L
      = (Val 1, L\<lparr>stk := [VTab (length (tabs L))], peak := max (peak L) k, tabs := ts\<rparr>)"
    "k \<le> 5" "names_table (length (tabs L)) ts (SIGNALS defs)"
    using signames_run [OF e, of defs] by auto
  then have "length (tabs L) \<le> length ts" by (simp add: names_table_def)
  with r s e show ?thesis by (simp add: safe_def kept_def entered_def wp_def STACK_ROOM)
qed

text \<open>The closure of \<open>nosigchld\<close> has the state that its opener wrote as its upvalue.\<close>

definition has_state :: "('u, 'w) lua \<Rightarrow> bool" where
  "has_state L \<longleftrightarrow> (\<exists>p. upvals L = [VUd p] \<and> written p L)"

lemma nosigchld_safe: "entered L \<Longrightarrow> has_state L \<Longrightarrow> safe (nosigchld_lua sigchld ops) L"
  by (auto simp: safe_def kept_def entered_def vc_simp Let_def has_state_def nosigchld_lua_def intro!: vc_intro cong: wp_cong split: vc_split)

lemma nosigchld_opener_safe: "entered L \<Longrightarrow> safe (luaopen_testcase_nosigchld sigchld) L"
  by (auto simp: safe_def kept_def entered_def vc_simp Let_def luaopen_testcase_nosigchld_def intro!: vc_intro cong: wp_cong split: vc_split)

lemma wp_reading [vc_simp]: "wp E (\<lambda>L. ret (f L) L) Q L = Q (f L) L"
  by (simp add: wp_def ret_def)

lemma wp_push_stat [vc_simp]:
  "wp E (push_stat b) Q L = Q 1 (L\<lparr>stk := stk L @ [VTab (length (tabs L))], peak := max (peak L) (length (stk L) + 2), tabs := tabs L @ [stat_table b]\<rparr>)"
  by (simp add: wp_def push_stat_run)

lemma rlimit_safe: "entered L \<Longrightarrow> safe (rlimit_lua ops) L"
  by (auto simp: safe_def kept_def entered_def vc_simp Let_def rlimit_lua_def check_rtype_def getlimit_def setlimit_def check_limit_def
      push_limits_def intro!: vc_intro cong: wp_cong split: vc_split)

lemma stat_safe:
  assumes "entered L"
  shows "safe (stat_lua ops) L" "safe (fstat_lua ops) L"
  by (use assms in \<open>(auto simp: safe_def kept_def entered_def vc_simp Let_def stat_lua_def fstat_lua_def check_follow_def
      intro!: vc_intro cong: wp_cong split: vc_split; fail)\<close>)+

lemma path_safe:
  assumes "entered L"
  shows "safe (chdir_lua ops) L" "safe (getpid_lua ops) L"
proof -
  show "safe (chdir_lua ops) L" using assms
    by (auto simp: safe_def kept_def entered_def vc_simp chdir_lua_def intro!: vc_intro cong: wp_cong split: vc_split)
  show "safe (getpid_lua ops) L" using assms by (simp add: safe_def kept_def entered_def wp_def getpid_lua_def c_step stack_ops STACK_ROOM)
qed

text \<open>The buffer of \<open>realpath\<close>, if there is one, takes every path the system resolves.\<close>

definition buffer_fits :: "realpath_statics \<Rightarrow> 'w path_ops \<Rightarrow> bool" where
  "buffer_fits st ops \<longleftrightarrow> REALPATH_BUF st = None
     \<or> (\<forall>p w w' r. k_realpath ops p w = (w', Inr r) \<longrightarrow> length r < REALPATH_BUFSIZ st)
       \<and> (\<forall>p w. k_partial ops p w \<le> REALPATH_BUFSIZ st)"

lemma realpath_safe: "entered L \<Longrightarrow> buffer_fits st ops \<Longrightarrow> safe (realpath_lua st ops) L"
  unfolding safe_def kept_def entered_def realpath_lua_def wp_structure Let_def
  by (fastforce simp: buffer_fits_def vc_simp settop_list_def not_less [symmetric] split: vc_split
      intro!: wp_checkstring wp_sys_result cong: wp_cong)

lemma xpcall_safe: "entered L \<Longrightarrow> run_sound run \<Longrightarrow> safe (xpcall_lua run) L"
  by (auto simp: safe_def kept_def entered_def xpcall_lua_def vc_simp intro!: vc_intro cong: wp_cong)

text \<open>The arguments are fewer than an \<open>int\<close> counts.\<close>

definition few_arguments :: "('u, 'w) lua \<Rightarrow> bool" where
  "few_arguments L \<longleftrightarrow> length (stk L) < 2 ^ 31"

lemma sint_narrow_rest:
  assumes "1 < sint n" "sint n \<le> int k - 1" "k < 2 ^ 31"
  shows "sint (narrow (word_of_nat k - n)) = int k - sint n"
  using sint_narrow_diff [of n "int k - 1"] assms by simp

lemma select_safe:
  assumes "entered L" "few_arguments L"
  shows "safe len_lua L" "safe head_lua L" "safe tail_lua L"
proof -
  have narrow: "sint (narrow n) = sint n" if "0 < sint n" "sint n \<le> int (length (stk L)) - 1" for n :: i64
    using that assms(2) by (intro sint_narrow_pos) (auto simp: few_arguments_def)
  note defs = safe_def kept_def entered_def vc_simp Let_def few_arguments_def len_lua_def head_lua_def tail_lua_def
    slot_def sint_narrow_rest narrow
  show "safe len_lua L" using assms by (auto simp: defs intro!: vc_intro cong: wp_cong)
  show "safe head_lua L" using assms by (auto simp: defs split: if_splits intro!: vc_intro cong: wp_cong)
  show "safe tail_lua L" using assms by (auto simp: defs split: if_splits intro!: vc_intro cong: wp_cong)
qed

text \<open>No Lua file has a \<open>FILE\<close> that was freed.\<close>

definition streams_open :: "'w fd_ops \<Rightarrow> (luaL_Stream, 'w) lua \<Rightarrow> bool" where
  "streams_open ops L \<longleftrightarrow> (\<forall>ud \<in> set (uds L). \<forall>s a. block ud = Some s \<longrightarrow> stream_f s = Some a \<longrightarrow>
     k_fileno ops a (world L) \<noteq> None)"

lemma wp_fileno [vc_simp]:
  "wp E (fileno ops a) Q L = (case k_fileno ops a (world L) of Some fd \<Rightarrow> Q fd L | None \<Rightarrow> False)"
  by (simp add: wp_def fileno_def ret_def undef_def split: option.split)

lemma wp_check_fd:
  assumes "sound L" "streams_open ops L" "E L" "\<And>fd. Q fd L"
  shows "wp E (check_fd ops) Q L"
proof -
  have "k_fileno ops a (world L) \<noteq> None"
    if "written p L" "stream_f (the (block (uds L ! p))) = Some a" for p a
    using that assms(2) by (auto simp: streams_open_def written_def dest: nth_mem)
  with assms show ?thesis
    by (force simp: check_fd_def checkfilep_def vc_simp split: vc_split intro!: vc_intro cong: wp_cong)
qed

lemma fd_safe:
  assumes "entered L" "streams_open ops L"
  shows "safe (fd_close_lua ops) L" "safe (fd_shutdown_lua ops) L"
  by (use assms in \<open>(auto simp: safe_def kept_def entered_def vc_simp Let_def fd_close_lua_def fd_shutdown_lua_def
      split: vc_split intro!: wp_check_fd vc_intro cong: wp_cong; fail)\<close>)+

lemma opener_safe:
  assumes "entered L"
  shows "safe luaopen_testcase_rlimit L" "safe luaopen_testcase_stat L" "safe luaopen_testcase_fstat L"
    "safe luaopen_testcase_chdir L" "safe luaopen_testcase_getpid L" "safe luaopen_testcase_xpcall L"
    "safe luaopen_testcase_close L" "safe luaopen_testcase_shutdown L" "safe luaopen_testcase_readdir L"
    "safe luaopen_testcase_select L"
  by (use assms in \<open>(simp add: safe_def kept_def entered_def vc_simp luaopen_testcase_rlimit_def luaopen_testcase_stat_def luaopen_testcase_fstat_def
      luaopen_testcase_chdir_def luaopen_testcase_getpid_def luaopen_testcase_xpcall_def luaopen_testcase_close_def
      luaopen_testcase_shutdown_def luaopen_testcase_readdir_def luaopen_testcase_select_def cong: wp_cong; fail)\<close>)+

lemma realpath_opener_sound:
  assumes "entered L" "luaopen_testcase_realpath st ops L = (r, L')"
  shows "kept (length (stk L)) L' \<and> (\<exists>st'. r = Val (1, st'))"
  using assms
  by (fastforce simp: luaopen_testcase_realpath_def c_step stack_ops userdata_ops Let_def sound_def entered_def kept_def STACK_ROOM
      split: prod.splits)

section \<open>The walk over a directory\<close>

text \<open>
  Every name that \<open>readdir\<close> goes past leaves a value on the stack. It stays within the room it has
  when a directory that is opened in \<open>w\<close> gives at most \<open>n\<close> names: some number that is at most \<open>n\<close>
  then goes down with every name the stream gives, and no Lua code brings it up again.
\<close>

definition short_streams :: "'w dir_ops \<Rightarrow> ('u, 'w) runner \<Rightarrow> nat \<Rightarrow> 'w \<Rightarrow> bool" where
  "short_streams ops run n w \<longleftrightarrow> (\<exists>todo. finite_streams ops run todo
     \<and> (\<forall>p w' d. k_opendir ops p w = (w', Inr d) \<longrightarrow> todo w' d \<le> n))"

text \<open>The loop keeps the two arguments on the stack below what it piles up, and that below \<open>k\<close>.\<close>

definition walk_ok :: "nat \<Rightarrow> nat option \<Rightarrow> ('u, 'w) lua \<Rightarrow> bool" where
  "walk_ok k q L \<longleftrightarrow> sound L \<and> 2 \<le> length (stk L) \<and> q \<in> {None, Some 1}
     \<and> (q = None \<longrightarrow> length (stk L) \<le> k) \<and> peak L \<le> Suc k"

definition walk_raised :: "nat \<Rightarrow> ('u, 'w) lua \<Rightarrow> bool" where
  "walk_raised k L \<longleftrightarrow> sound L \<and> peak L \<le> Suc k"

lemma short_streams_world0: "short_streams ref_dir_ops ref_run 4 dir_world0"
  unfolding short_streams_def
  by (intro exI [of _ "\<lambda>w d. length (ref_left w d)"] conjI ref_todo.finite_streams_axioms)
     (auto simp: ref_dir_ops_def ref_opendir_def ref_left_def dir_world0_def split: option.splits if_splits)

lemma readdir_body_safe:
  assumes "sound L" "run_sound run" "2 \<le> length (stk L)" "length (stk L) < k" "peak L \<le> Suc k"
  shows "wp (walk_raised k) (readdir_body ops run dir name)
    (\<lambda>q L'. walk_ok k q L' \<and> (q = None \<longrightarrow> length (stk L') = Suc (length (stk L)))) L"
  using assms
  by (auto simp: readdir_body_def walk_ok_def walk_raised_def slot_def vc_simp split: vc_split
      intro!: vc_intro cong: wp_cong)

lemma readdir_loop_safe:
  assumes "readdir_loop ops run dir L = Some res" "sound L" "run_sound run" "2 \<le> length (stk L)"
    and "finite_streams ops run todo" "length (stk L) + todo (world L) dir \<le> k" "peak L \<le> Suc k"
  shows "wp (walk_raised k) (\<lambda>_. res) (walk_ok k) L"
  using assms
proof (induction rule: readdir_loop.raw_induct [rotated, consumes 1, case_names step])
  case (step loop ops run dir L res)
  obtain r L1 where s: "sys (k_readdir ops dir) L = (Val r, L1)" "sound L1" "stk L1 = stk L" "peak L1 = peak L"
    using step(3) by (cases "k_readdir ops dir (world L)"; cases "snd (k_readdir ops dir (world L))")
      (auto simp: sys_def)
  show ?case
  proof (cases "\<exists>name. r = Some (Some name)")
    case False
    then have "res = (Val None, L1)" using step(2) s by (auto split: option.splits)
    then show ?thesis using s step(5,7,8) by (simp add: wp_def walk_ok_def)
  next
    case True
    then obtain name where r: "r = Some (Some name)" by blast
    with s(1) have "k_readdir ops dir (world L) = (world L1, Inr (Some name))"
      by (auto simp: sys_def split: prod.splits sum.splits)
    from finite_streams.read_less [OF step(6) this] have less: "todo (world L1) dir < todo (world L) dir" .
    obtain q L2 where b: "readdir_body ops run dir name L1 = (q, L2)" by fastforce
    have w: "wp (walk_raised k) (readdir_body ops run dir name)
        (\<lambda>q L'. walk_ok k q L' \<and> (q = None \<longrightarrow> length (stk L') = Suc (length (stk L1)))) L1"
      by (rule readdir_body_safe [OF s(2) step(4)]) (use less s step(5,7,8) in auto)
    show ?thesis
    proof (cases "q = Val None")
      case True
      then have "loop ops run dir L2 = Some res" using step(2) s r b by simp
      moreover have "sound L2" "2 \<le> length (stk L2)" "length (stk L2) = Suc (length (stk L))" "peak L2 \<le> Suc k"
        using w b True s by (auto simp: wp_def walk_ok_def)
      moreover have "todo (world L2) dir \<le> todo (world L1) dir"
        using finite_streams.body_keeps [OF step(6)] b True by blast
      ultimately show ?thesis using step(1) [of ops run dir L2 res] step(4,6,7) less by (simp add: wp_def)
    next
      case False
      then have "res = (q, L2)" using step(2) s r b by (auto split: outcome.splits option.splits)
      then show ?thesis using w b by (auto simp: wp_def split: outcome.splits)
    qed
  qed
qed

lemma readdir_safe:
  fixes L :: "('u, 'w) lua"
  assumes "readdir_lua ops run L = Some res" "entered L" "run_sound run" "short_streams ops run n (world L)" "n < STACK_ROOM"
  shows "safe (\<lambda>_. res) L"
proof -
  let ?a = "length (stk L)" and ?k = "length (stk L) + 11"
  obtain todo where t: "finite_streams ops run todo"
    "\<And>p w' d. k_opendir ops p (world L) = (w', Inr d) \<Longrightarrow> todo w' d \<le> n"
    using assms(4) by (auto simp: short_streams_def)
  obtain r L1 where o: "readdir_open ops L = (r, L1)" by fastforce
  have w: "wp (kept ?a) (readdir_open ops) (\<lambda>q L'. sound L' \<and> length (stk L') = 2 \<and> 2 \<le> ?a \<and> peak L' \<le> ?a
      \<and> (\<forall>d. q = Some d \<longrightarrow> todo (world L') d \<le> n)) L"
    unfolding readdir_open_def wp_structure using assms(2)
    by (auto simp: vc_simp kept_def entered_def settop_list_def arg_type_def slot_def
        intro!: wp_checkstring wp_checktype wp_sys_result cong: wp_cong split: if_splits) (rule t(2))
  have e: "wp (kept ?a) (readdir_end ops dir) (\<lambda>m L'. m \<le> length (stk L') \<and> kept ?a L') L'" if "walk_ok ?k None L'"
    for dir and L' :: "('u, 'w) lua"
    using that by (auto simp: walk_ok_def kept_def readdir_end_def vc_simp intro!: vc_intro cong: wp_cong)
  show ?thesis
  proof (cases "\<exists>dir. r = Val (Some dir)")
    case True
    then obtain dir where r: "r = Val (Some dir)" by blast
    then obtain q L2 where l: "readdir_loop ops run dir (L1\<lparr>errno := 0\<rparr>) = Some (q, L2)"
      and res: "res = bnd (\<lambda>_. (q, L2)) (\<lambda>q. case q of Some n \<Rightarrow> ret n | None \<Rightarrow> readdir_end ops dir) L2"
      using assms(1) o by (auto simp: readdir_lua_def split: option.splits prod.splits)
    have "wp (walk_raised ?k) (\<lambda>_. (q, L2)) (walk_ok ?k) (L1\<lparr>errno := 0\<rparr>)"
      by (rule readdir_loop_safe [OF l _ assms(3) _ t(1)]) (use w o r assms(5) in \<open>auto simp: wp_def STACK_ROOM\<close>)
    then have k: "case q of Val m \<Rightarrow> walk_ok ?k m L2 | Undef _ \<Rightarrow> False | _ \<Rightarrow> walk_raised ?k L2"
      by (simp add: wp_def)
    show ?thesis
    proof (cases "q = Val None")
      case True
      then have "res = readdir_end ops dir L2" by (simp add: res bnd_def)
      with e [of L2 dir] k True show ?thesis by (simp add: safe_def wp_def)
    next
      case False
      with k show ?thesis
        by (auto simp: safe_def wp_def res bnd_def ret_def walk_ok_def walk_raised_def kept_def STACK_ROOM
            split: outcome.splits)
    qed
  next
    case False
    then have "res = bnd (\<lambda>_. (r, L1)) (\<lambda>_. returning [lua_errno_new ''readdir''] 1) L1"
      using assms(1) o by (auto simp: readdir_lua_def split: outcome.splits option.splits)
    then show ?thesis using w o
      by (auto simp: safe_def wp_def kept_def STACK_ROOM c_step stack_ops split: outcome.splits)
  qed
qed

section \<open>Sessions\<close>

text \<open>
  A library is a set of C functions, each with what it needs of the state it is called in. In a
  session they are called in any order, with any arguments and upvalues that meet the
  precondition; in between the program may change its tables, and the system its state, at will.
\<close>

type_synonym ('u, 'w) library = "(('u, 'w, nat) comp \<times> (('u, 'w) lua \<Rightarrow> bool)) set"

definition always :: "('u, 'w) lua \<Rightarrow> bool" where
  "always L \<longleftrightarrow> True"

inductive session :: "('u, 'w) library \<Rightarrow> ('u, 'w) lua \<Rightarrow> ('u, 'w) lua \<Rightarrow> bool" for lib where
  start: "session lib L L"
| call: "session lib L0 L \<Longrightarrow> (f, pre) \<in> lib \<Longrightarrow>
    pre (L\<lparr>upvals := ups, stk := args, peak := length args\<rparr>) \<Longrightarrow>
    call_closure f ups args L = (r, L') \<Longrightarrow> session lib L0 L'"
| outside: "session lib L0 L \<Longrightarrow> length (tabs L) \<le> length ts \<Longrightarrow>
    session lib L0 (L\<lparr>tabs := ts, errno := e, world := w\<rparr>)"

definition type_sound :: "('u, 'w) library \<Rightarrow> bool" where
  "type_sound lib \<longleftrightarrow> (\<forall>L0 L f pre ups args. sound L0 \<longrightarrow> session lib L0 L \<longrightarrow> (f, pre) \<in> lib \<longrightarrow>
     pre (L\<lparr>upvals := ups, stk := args, peak := length args\<rparr>) \<longrightarrow>
       safe f (L\<lparr>upvals := ups, stk := args, peak := length args\<rparr>))"

lemma call_sound:
  assumes "safe f (L\<lparr>upvals := ups, stk := args, peak := length args\<rparr>)" "call_closure f ups args L = (r, L')"
  shows "sound L'"
  using assms by (auto simp: call_closure_def call_def safe_def kept_def wp_def split: prod.splits outcome.splits)

text \<open>It is enough that every function is safe when it is entered in a state that meets its precondition.\<close>

lemma type_soundI:
  assumes safe: "\<And>f pre L. (f, pre) \<in> lib \<Longrightarrow> entered L \<Longrightarrow> pre L \<Longrightarrow> safe f L"
  shows "type_sound lib"
proof -
  have "sound L" if "session lib L0 L" "sound L0" for L0 L
    using that
  proof (induction rule: session.induct)
    case (call L0 L f pre args ups r L')
    then have "safe f (L\<lparr>upvals := ups, stk := args, peak := length args\<rparr>)"
      by (intro safe [OF call.hyps(2)]) (auto simp: entered_def)
    with call show ?case by (blast intro: call_sound)
  qed auto
  then have "entered (L\<lparr>upvals := ups, stk := args, peak := length args\<rparr>)" if "session lib L0 L" "sound L0" for L0 L ups args
    using that by (auto simp: entered_def)
  then show ?thesis using safe by (auto simp: type_sound_def)
qed

section \<open>The libraries\<close>

definition process_library :: "'w proc_ops \<Rightarrow> (c_int, 'w) library" where
  "process_library ops = {(luaopen_testcase_fork, always), (fork_lua ops, always), (wait_lua ops, always),
     (is_child_lua, always), (pid_lua, always), (proc_gc_lua ops, always), (proc_tostring_lua, always)}"

definition timer_library :: "nat \<Rightarrow> 'w timer_ops \<Rightarrow> (testcase_timer_t, 'w) library" where
  "timer_library ldm ops = {(luaopen_testcase_timer, always), (timer_new_lua, always), (start_lua ops, \<lambda>_. timebase_ok ops),
     (stop_lua ldm ops, \<lambda>_. timebase_ok ops), (elapsed_lua ldm ops, \<lambda>_. timebase_ok ops), (elapsed_sec_lua ldm ops, \<lambda>_. timebase_ok ops),
     (total_lua ldm, always), (reset_lua, always), (timer_tostring_lua, always), (usleep_lua ops, always),
     (nanotime_lua ops, \<lambda>_. timebase_ok ops), (sleep_lua ops, sleepable)}"

definition socket_library :: "'w sock_ops \<Rightarrow> (c_int, 'w) library" where
  "socket_library ops = {(luaopen_testcase_socketpair, always), (sock_new_lua ops, always), (write_lua ops, always),
     (read_lua ops, always), (shutdown_lua ops, always), (shutrd_lua ops, always), (shutwr_lua ops, always),
     (close_lua ops, always), (sendbuf_lua ops, always), (recvbuf_lua ops, always), (nonblock_lua ops, always),
     (fd_lua, always), (sock_tostring_lua, always), (sock_gc_lua ops, collectable MODULE_MT)}"

definition nosigchld_library :: "c_int option \<Rightarrow> 'w sig_ops \<Rightarrow> (nosigchld_t, 'w) library" where
  "nosigchld_library sigchld ops =
     {(luaopen_testcase_nosigchld sigchld, always), (nosigchld_lua sigchld ops, has_state)}"

definition stream_library :: "'w fd_ops \<Rightarrow> (luaL_Stream, 'w) library" where
  "stream_library ops = {(luaopen_testcase_close, always), (luaopen_testcase_shutdown, always),
     (fd_close_lua ops, streams_open ops), (fd_shutdown_lua ops, streams_open ops)}"

text \<open>The functions without objects.\<close>

definition signal_library :: "sig_defs \<Rightarrow> c_int option \<Rightarrow> 'w sig_ops \<Rightarrow> ('u, 'w) library" where
  "signal_library defs sigpipe ops = {(luaopen_testcase_signal, always), (luaopen_testcase_nosigpipe sigpipe ops, always),
     (kill_lua defs ops, always), (raise_lua defs ops, always), (tosigname_lua defs, always),
     (tosignum_lua defs, always), (sigignore_lua defs ops, always), (sigdefault_lua defs ops, always),
     (alarm_lua ops, always), (signames_lua defs, \<lambda>L. stk L = [])}"

definition file_library :: "'w rlimit_ops \<Rightarrow> 'w file_ops \<Rightarrow> realpath_statics \<Rightarrow> 'w path_ops
    \<Rightarrow> ('u, 'w) library" where
  "file_library rops fops st pops = {(luaopen_testcase_rlimit, always), (rlimit_lua rops, always),
     (luaopen_testcase_stat, always), (stat_lua fops, always), (luaopen_testcase_fstat, always), (fstat_lua fops, always),
     (realpath_lua st pops, \<lambda>_. buffer_fits st pops), (luaopen_testcase_chdir, always), (chdir_lua pops, always),
     (luaopen_testcase_getpid, always), (getpid_lua pops, always), (luaopen_testcase_select, always),
     (len_lua, few_arguments), (head_lua, few_arguments), (tail_lua, few_arguments)}"

text \<open>The functions that run Lua code; \<open>readdir\<close> stands for its run when it returns.\<close>

definition script_library :: "'w dir_ops \<Rightarrow> ('u, 'w) runner \<Rightarrow> ('u, 'w) library" where
  "script_library dops run = {(luaopen_testcase_xpcall, always), (xpcall_lua run, \<lambda>_. run_sound run), (luaopen_testcase_readdir, always),
     (\<lambda>L. the (readdir_lua dops run L), \<lambda>L. run_sound run \<and> (\<exists>n < STACK_ROOM. short_streams dops run n (world L)))}"

lemma readdir_some:
  assumes "short_streams ops run n (world L)"
  shows "\<exists>res. readdir_lua ops run L = Some res"
proof -
  obtain todo where "finite_streams ops run todo" using assms by (auto simp: short_streams_def)
  from finite_streams.loop_returns [OF this] have "\<exists>r L'. readdir_loop ops run d L = Some (r, L')" for d L
    by (metis option.exhaust surj_pair)
  then show ?thesis
    by (cases "readdir_open ops L") (auto simp: readdir_lua_def split: outcome.splits option.splits, metis option.distinct(1))
qed

lemma readdir_safe_the:
  assumes "entered L" "run_sound run" "short_streams ops run n (world L)" "n < STACK_ROOM"
  shows "safe (\<lambda>L. the (readdir_lua ops run L)) L"
proof -
  obtain res where r: "readdir_lua ops run L = Some res" using readdir_some [OF assms(3)] by blast
  from readdir_safe [OF r assms] r show ?thesis by (simp add: safe_def wp_def)
qed

lemma libraries_sound:
  "type_sound (process_library kops)" "type_sound (timer_library ldm tops)" "type_sound (socket_library oops)"
  "type_sound (nosigchld_library sigchld sops)" "type_sound (stream_library dops)"
  "type_sound (signal_library defs sigpipe sops)" "type_sound (file_library rops fops st pops)"
  "type_sound (script_library rdops run)"
proof -
  show "type_sound (process_library kops)"
    by (rule type_soundI) (auto simp: process_library_def process_safe)
  show "type_sound (timer_library ldm tops)"
    by (rule type_soundI) (auto simp: timer_library_def clock_safe timer_safe sleep_safe)
  show "type_sound (socket_library oops)"
    by (rule type_soundI) (auto simp: socket_library_def socket_safe socket_opener_safe sock_gc_safe)
  show "type_sound (nosigchld_library sigchld sops)"
    by (rule type_soundI) (auto simp: nosigchld_library_def nosigchld_safe nosigchld_opener_safe)
  show "type_sound (stream_library dops)"
    by (rule type_soundI) (auto simp: stream_library_def fd_safe opener_safe)
  show "type_sound (signal_library defs sigpipe sops)"
    by (rule type_soundI) (auto simp: signal_library_def signal_safe signames_safe)
  show "type_sound (file_library rops fops st pops)"
    by (rule type_soundI)
      (auto simp: file_library_def rlimit_safe stat_safe realpath_safe path_safe select_safe opener_safe)
  show "type_sound (script_library rdops run)"
    by (rule type_soundI) (auto simp: script_library_def xpcall_safe readdir_safe_the opener_safe)
qed

section \<open>Properties\<close>


lemma lua_with_parts:
  "upvals (lua_with mt x w) = []" "length (uds (lua_with mt x w)) = 1" "upvals (new_object mt x L) = upvals L"
  by (simp_all add: lua_with_def lua0_def new_object_def)


end
