(* ===== verification/Call_Effects.thy ===== *)
theory Call_Effects
  imports Type_Soundness
begin

text \<open>
  What a call can have changed, for all modules at once: a call that raises an error has changed
  nothing, and any other call changes no object but the one it was called on, and no table that
  was there before.
\<close>

section \<open>Effects\<close>

definition unchanged :: "('u, 'w) lua \<Rightarrow> ('u, 'w) lua \<Rightarrow> bool" where
  "unchanged L L' \<longleftrightarrow> world L' = world L \<and> uds L' = uds L \<and> tabs L' = tabs L \<and> registry L' = registry L"

text \<open>The object of a call is its first argument, or the upvalue of the closure.\<close>

definition own :: "('u, 'w) lua \<Rightarrow> nat \<Rightarrow> bool" where
  "own L q \<longleftrightarrow> slot 1 (stk L) = Some (VUd q) \<or> VUd q \<in> set (upvals L)"

definition framed :: "('u, 'w) lua \<Rightarrow> ('u, 'w) lua \<Rightarrow> bool" where
  "framed L L' \<longleftrightarrow> registry L' = registry L \<and> take (length (tabs L)) (tabs L') = tabs L
     \<and> length (uds L) \<le> length (uds L')
     \<and> (\<forall>q < length (uds L). meta (uds L' ! q) = meta (uds L ! q)
          \<and> (\<not> own L q \<longrightarrow> block (uds L' ! q) = block (uds L ! q)))"

definition confines :: "('u, 'w, nat) comp \<Rightarrow> ('u, 'w) lua \<Rightarrow> bool" where
  "confines f L \<longleftrightarrow> (case f L of
       (Val _, L') \<Rightarrow> framed L L'
     | (Raise _, L') \<Rightarrow> unchanged L L'
     | (ExitProcess _, L') \<Rightarrow> unchanged L L'
     | (Undef _, _) \<Rightarrow> False)"

lemma confines_wp: "confines f L = wp (unchanged L) f (\<lambda>_. framed L) L"
  by (simp add: confines_def wp_def)

lemma unchanged_frame [simp]:
  "unchanged L L" "unchanged L (L'\<lparr>stk := s\<rparr>) = unchanged L L'" "unchanged L (L'\<lparr>errno := e\<rparr>) = unchanged L L'"
  "unchanged L (L'\<lparr>peak := k\<rparr>) = unchanged L L'"
  by (simp_all add: unchanged_def)

lemma framed_frame [simp]:
  "framed L L" "framed L (L'\<lparr>stk := s\<rparr>) = framed L L'" "framed L (L'\<lparr>errno := e\<rparr>) = framed L L'"
  "framed L (L'\<lparr>world := w\<rparr>) = framed L L'" "framed L (L'\<lparr>peak := k\<rparr>) = framed L L'"
  "framed L L' \<Longrightarrow> take (length (tabs L)) ts = tabs L \<Longrightarrow> framed L (L'\<lparr>tabs := ts\<rparr>)"
  by (simp_all add: framed_def)

lemma framed_objects [simp]:
  "framed L L' \<Longrightarrow> framed L (new_block L')"
  "framed L L' \<Longrightarrow> length (uds L) \<le> p \<Longrightarrow> framed L (set_meta p m L')"
  by (auto simp: framed_def new_block_def set_meta_def nth_append)

lemma framed_object [simp]:
  assumes "framed L L'" "length (uds L) \<le> p \<or> own L p"
  shows "framed L (set_object p x L')"
proof -
  have "meta (uds (set_object p x L') ! q) = meta (uds L' ! q)
      \<and> (q \<noteq> p \<longrightarrow> block (uds (set_object p x L') ! q) = block (uds L' ! q))"
    if "q < length (uds L')" for q
    using that by (cases "q = p") (simp_all add: set_object_def)
  moreover have "registry (set_object p x L') = registry L'" "tabs (set_object p x L') = tabs L'"
    by (simp_all add: set_object_def)
  moreover have "q \<noteq> p" if "q < length (uds L)" "\<not> own L q" for q
    using that assms(2) by auto
  ultimately show ?thesis using assms(1) by (auto simp: framed_def)
qed

lemma own_first [simp]: "slot 1 (stk L) = Some (VUd p) \<Longrightarrow> own L p"
  by (simp add: own_def)

section \<open>The functions of each module\<close>

lemma process_contained:
  assumes "sound L"
  shows "confines (wait_lua ops) L" "confines is_child_lua L" "confines pid_lua L"
    "confines (proc_gc_lua ops) L" "confines proc_tostring_lua L" "confines (fork_lua ops) L"
  by (use assms in \<open>(auto simp: confines_wp vc_simp Let_def push_wait_error_def wait_lua_def is_child_lua_def pid_lua_def
      proc_gc_lua_def proc_tostring_lua_def fork_lua_def intro!: vc_intro cong: wp_cong split: vc_split; fail)\<close>)+

lemma socket_contained:
  assumes "sound L"
  shows "confines (write_lua ops) L" "confines (read_lua ops) L" "confines (shutdown_lua ops) L"
    "confines (shutrd_lua ops) L" "confines (shutwr_lua ops) L" "confines (close_lua ops) L"
    "confines (sendbuf_lua ops) L" "confines (recvbuf_lua ops) L" "confines (nonblock_lua ops) L"
    "confines fd_lua L" "confines sock_tostring_lua L" "confines (sock_new_lua ops) L"
  by (use assms in \<open>(auto simp: confines_wp vc_simp Let_def push_again_def write_lua_def read_lua_def do_shutdown_def
      shutdown_lua_def shutrd_lua_def shutwr_lua_def close_lua_def sockbuf_def sendbuf_lua_def recvbuf_lua_def
      nonblock_lua_def fd_lua_def sock_tostring_lua_def sock_new_lua_def
      intro!: vc_intro cong: wp_cong split: vc_split; fail)\<close>)+

lemma sock_gc_contained: "sound L \<Longrightarrow> collectable MODULE_MT L \<Longrightarrow> confines (sock_gc_lua ops) L"
  by (auto simp: confines_wp vc_simp sock_gc_lua_def collectable_def has_meta_written
      intro!: vc_intro cong: wp_cong)

lemma clock_contained:
  assumes "sound L" "timebase_ok ops"
  shows "confines (elapsed_lua ldm ops) L" "confines (elapsed_sec_lua ldm ops) L" "confines (stop_lua ldm ops) L"
    "confines (start_lua ops) L" "confines (nanotime_lua ops) L"
  by (use assms in \<open>(auto simp: confines_wp vc_simp Let_def elapsed_lua_def elapsed_sec_lua_def get_elapsed_lua_def
      stop_lua_def start_lua_def nanotime_lua_def
      intro!: wp_getnsec wp_getnsec_ex vc_intro cong: wp_cong split: vc_split; fail)\<close>)+

lemma timer_contained:
  assumes "sound L"
  shows "confines (total_lua ldm) L" "confines reset_lua L" "confines timer_tostring_lua L"
    "confines timer_new_lua L" "confines (usleep_lua ops) L"
  by (use assms in \<open>(auto simp: confines_wp vc_simp Let_def total_lua_def reset_lua_def timer_tostring_lua_def
      timer_new_lua_def usleep_lua_def intro!: vc_intro cong: wp_cong split: vc_split; fail)\<close>)+

lemma sleep_contained: "sleepable L \<Longrightarrow> confines (sleep_lua ops) L"
  by (auto simp: confines_wp vc_simp sleep_lua_def sleepable_def intro!: vc_intro cong: wp_cong
      split: lua_number.split)

lemma signal_contained:
  "confines (kill_lua defs ops) L" "confines (raise_lua defs ops) L" "confines (tosigname_lua defs) L"
  "confines (tosignum_lua defs) L" "confines (sigignore_lua defs ops) L" "confines (sigdefault_lua defs ops) L"
  "confines (alarm_lua ops) L"
proof -
  have "wp (unchanged L) (\<lambda>L. case k_alarm ops sec (world L) of
      (w, left) \<Rightarrow> returning [lua_pushinteger (ucast left)] 1 (L\<lparr>world := w\<rparr>)) (\<lambda>_. framed L) L" for sec
    by (auto simp: wp_def c_step stack_ops split: prod.splits)
  then show "confines (kill_lua defs ops) L" "confines (raise_lua defs ops) L" "confines (tosigname_lua defs) L"
    "confines (tosignum_lua defs) L" "confines (sigignore_lua defs ops) L" "confines (sigdefault_lua defs ops) L"
    "confines (alarm_lua ops) L"
    by (auto simp: confines_wp vc_simp Let_def get_signal_def kill_lua_def raise_lua_def tosigname_lua_def
        tosignum_lua_def set_disposition_def sigignore_lua_def sigdefault_lua_def alarm_lua_def
        intro!: vc_intro cong: wp_cong split: vc_split)
qed

lemma signames_contained: "stk L = [] \<Longrightarrow> confines (signames_lua defs) L"
  using signames_run [of L defs] by (auto simp: confines_wp wp_def)

lemma nosigchld_contained: "has_state L \<Longrightarrow> confines (nosigchld_lua sigchld ops) L"
  by (auto simp: confines_wp vc_simp Let_def has_state_def nosigchld_lua_def own_def
      intro!: vc_intro cong: wp_cong split: vc_split)

lemma stat_contained:
  "confines (stat_lua ops) L" "confines (fstat_lua ops) L"
  by (auto simp: confines_wp vc_simp Let_def stat_lua_def fstat_lua_def check_follow_def
      intro!: vc_intro cong: wp_cong split: vc_split)+

lemma path_contained:
  "confines (chdir_lua ops) L" "confines (getpid_lua ops) L" "buffer_fits st ops \<Longrightarrow> confines (realpath_lua st ops) L"
proof -
  show "confines (chdir_lua ops) L"
    by (auto simp: confines_wp vc_simp chdir_lua_def intro!: vc_intro cong: wp_cong split: vc_split)
  show "confines (getpid_lua ops) L" by (simp add: confines_wp wp_def getpid_lua_def c_step stack_ops)
  show "confines (realpath_lua st ops) L" if "buffer_fits st ops"
    unfolding confines_wp realpath_lua_def wp_structure Let_def using that
    by (fastforce simp: buffer_fits_def vc_simp not_less [symmetric] split: vc_split
        intro!: wp_checkstring wp_sys_result cong: wp_cong)
qed

lemma select_contained:
  "few_arguments L \<Longrightarrow> confines len_lua L" "few_arguments L \<Longrightarrow> confines head_lua L"
  "few_arguments L \<Longrightarrow> confines tail_lua L"
  by (auto simp: confines_wp vc_simp Let_def few_arguments_def len_lua_def head_lua_def tail_lua_def
      slot_def sint_narrow_rest split: if_splits intro!: vc_intro cong: wp_cong)+

lemma fd_contained:
  assumes "sound L" "streams_open ops L"
  shows "confines (fd_close_lua ops) L" "confines (fd_shutdown_lua ops) L"
  by (use assms in \<open>(auto simp: confines_wp vc_simp Let_def fd_close_lua_def fd_shutdown_lua_def
      split: vc_split intro!: wp_check_fd vc_intro cong: wp_cong; fail)\<close>)+

text \<open>\<open>rlimit\<close> reads the old limit before it checks the new one; reading changes nothing.\<close>

definition reads_only :: "'w rlimit_ops \<Rightarrow> bool" where
  "reads_only ops \<longleftrightarrow> (\<forall>r w. fst (k_getrlimit ops r w) = w)"

lemma wp_getlimit:
  assumes "reads_only ops" "\<And>l. Q (0, l) L" "\<And>e args k. Q (2, rl) (L\<lparr>errno := e, peak := k, stk := args\<rparr>)"
  shows "wp E (getlimit ops r name rl) Q L"
proof (cases "k_getrlimit ops r (world L)")
  case (Pair w x)
  with assms(1) have "w = world L" by (metis fst_conv reads_only_def)
  then have "L\<lparr>world := w\<rparr> = L"
    "L\<lparr>world := w, errno := e, peak := k, stk := args\<rparr> = L\<lparr>errno := e, peak := k, stk := args\<rparr>" for e args k
    by simp_all
  then show ?thesis using assms(2,3) Pair by (auto simp: wp_def getlimit_cases split: sum.split)
qed

lemma rlimit_contained: "reads_only ops \<Longrightarrow> confines (rlimit_lua ops) L"
  by (auto simp: confines_wp vc_simp Let_def rlimit_lua_def check_rtype_def setlimit_def check_limit_def
      push_limits_def intro!: wp_getlimit vc_intro cong: wp_cong split: vc_split)

lemma opener_contained:
  "confines luaopen_testcase_rlimit L" "confines luaopen_testcase_stat L" "confines luaopen_testcase_fstat L"
  "confines luaopen_testcase_chdir L" "confines luaopen_testcase_getpid L" "confines luaopen_testcase_close L"
  "confines luaopen_testcase_shutdown L" "confines luaopen_testcase_select L"
  by (simp add: confines_wp vc_simp luaopen_testcase_rlimit_def luaopen_testcase_stat_def luaopen_testcase_fstat_def
      luaopen_testcase_chdir_def luaopen_testcase_getpid_def luaopen_testcase_close_def luaopen_testcase_shutdown_def
      luaopen_testcase_select_def cong: wp_cong; fail)+

lemma signal_opener_contained:
  "confines luaopen_testcase_signal L" "confines (luaopen_testcase_nosigpipe sigpipe ops) L"
  by (auto simp: confines_wp vc_simp Let_def luaopen_testcase_signal_def luaopen_testcase_nosigpipe_def
        intro!: vc_intro cong: wp_cong split: vc_split)+

lemma nosigchld_opener_contained: "confines (luaopen_testcase_nosigchld sigchld) L"
  by (auto simp: confines_wp vc_simp Let_def luaopen_testcase_nosigchld_def
        intro!: vc_intro cong: wp_cong split: vc_split)+

section \<open>Properties\<close>

definition confined :: "('u, 'w) library \<Rightarrow> bool" where
  "confined lib \<longleftrightarrow> (\<forall>f pre L. (f, pre) \<in> lib \<longrightarrow> sound L \<longrightarrow> pre L \<longrightarrow> confines f L)"

text \<open>C3. In every sound state that meets the precondition of the function (those of the libraries of
Type_Soundness), whatever the arguments and whatever the system answers: a call that
raises a Lua error, or ends the process, has changed nothing before, neither the system nor an
object, a table or the registry (so every argument is checked before the first action), and any
other call leaves every existing table as it was, and every object but the one it is called on.
This holds for all functions that do not run Lua code themselves, but the openers that fill a
metatable; \<open>rlimit\<close> reads the limits before it checks them, and reading may change nothing.\<close>

theorem calls_contained:
  assumes "reads_only rops"
  shows "confined (process_library kops - {(luaopen_testcase_fork, always)})
   \<and> confined (timer_library ldm tops - {(luaopen_testcase_timer, always)})
   \<and> confined (socket_library oops - {(luaopen_testcase_socketpair, always)})
   \<and> confined (nosigchld_library sigchld sops) \<and> confined (stream_library dops)
   \<and> confined (signal_library defs sigpipe sops :: ('u, 'w) library)
   \<and> confined (file_library rops fops st pops :: ('v, 'x) library)"
proof (intro conjI)
  show "confined (process_library kops - {(luaopen_testcase_fork, always)})"
    by (auto simp: confined_def process_library_def process_contained)
  show "confined (timer_library ldm tops - {(luaopen_testcase_timer, always)})"
    by (auto simp: confined_def timer_library_def clock_contained timer_contained sleep_contained)
  show "confined (socket_library oops - {(luaopen_testcase_socketpair, always)})"
    by (auto simp: confined_def socket_library_def socket_contained sock_gc_contained)
  show "confined (nosigchld_library sigchld sops)"
    by (auto simp: confined_def nosigchld_library_def nosigchld_contained nosigchld_opener_contained)
  show "confined (stream_library dops)"
    by (auto simp: confined_def stream_library_def fd_contained opener_contained)
  show "confined (signal_library defs sigpipe sops :: ('u, 'w) library)"
    by (auto simp: confined_def signal_library_def signal_contained signames_contained signal_opener_contained)
  show "confined (file_library rops fops st pops :: ('v, 'x) library)"
    using assms by (auto simp: confined_def file_library_def rlimit_contained stat_contained path_contained
        select_contained opener_contained)
qed

text \<open>A call of \<open>rlimit\<close> with limits that are read but not given raises, and has changed nothing.\<close>

lemma calls_contained_witness:
  "\<exists>L'. rlimit_lua ref_rlimit_ops (lua0 limit_world0\<lparr>stk := [VStr ''nofile'', VNil]\<rparr> :: (unit, limit_world) lua)
      = (Raise (MsgError ''either cur or max must be specified''), L')
    \<and> world L' = limit_world0 \<and> uds L' = [] \<and> tabs L' = []"
proof -
  let ?L = "lua0 limit_world0\<lparr>stk := [VStr ''nofile'', VNil]\<rparr> :: (unit, limit_world) lua"
  have r: "reads_only ref_rlimit_ops" by (simp add: reads_only_def ref_rlimit_ops_def)
  let ?lib = "file_library ref_rlimit_ops undefined undefined undefined :: (unit, limit_world) library"
  have "sound ?L" by (simp add: sound_def lua0_def)
  moreover have "(rlimit_lua ref_rlimit_ops, always) \<in> ?lib" by (simp add: file_library_def)
  moreover have "confined ?lib" using calls_contained [OF r] by blast
  ultimately have "confines (rlimit_lua ref_rlimit_ops) ?L"
    unfolding confined_def by (metis always_def)
  moreover have "fst (rlimit_lua ref_rlimit_ops ?L) = Raise (MsgError ''either cur or max must be specified'')"
    using check_rtype_supported [OF supported_nofile, of ?L "[VNil]"]
    by (simp add: rlimit_lua_def c_step getlimit_cases limit_get setlimit_def check_limit_def arg_ops stack_ops)
  ultimately show ?thesis
    by (auto simp: confines_def unchanged_def lua0_def split: prod.splits)
qed

end
